theory Spec2Isabelle
  imports Main "HOL-Library.Word"
begin

unbundle bit_operations_syntax

section \<open>Roundtrip barrier\<close>

text \<open>
  \<^verbatim>\<open>vn_instance_wait_roundtrip\<close> polls the ring's \<^verbatim>\<open>extra\<close> word, which the renderer
  writes. \<^verbatim>\<open>uint32_t\<close> values are 32-bit words; \<^verbatim>\<open>INT32_MAX\<close> is converted to
  \<^verbatim>\<open>unsigned\<close> by the comparison.
\<close>

definition INT32_MAX :: "32 word" where
  "INT32_MAX = 0x7FFFFFFF"

text \<open>The test that leaves the loop: \<^verbatim>\<open>cur >= roundtrip_seqno || roundtrip_seqno - cur >= INT32_MAX\<close>.\<close>

definition roundtrip_reached :: "32 word \<Rightarrow> 32 word \<Rightarrow> bool" where
  "roundtrip_reached cur roundtrip_seqno \<longleftrightarrow>
     cur \<ge> roundtrip_seqno \<or> roundtrip_seqno - cur \<ge> INT32_MAX"

text \<open>
  The loop itself. The renderer's writes are not under the client's control, so the values
  that the successive acquire loads return are a parameter: \<open>extra n\<close> is what the
  \<open>n\<close>-th load sees. The loop may poll forever; the result is the number of the load that
  ended it.
\<close>

partial_function (option) vn_instance_wait_roundtrip ::
  "(nat \<Rightarrow> 32 word) \<Rightarrow> 32 word \<Rightarrow> nat \<Rightarrow> nat option" where
  "vn_instance_wait_roundtrip extra roundtrip_seqno n =
     (if roundtrip_reached (extra n) roundtrip_seqno then Some n
      else vn_instance_wait_roundtrip extra roundtrip_seqno (Suc n))"

text \<open>
  The comparison as the specification words it: \<open>v\<close> is at or after \<open>seqno\<close> when
  \<open>v = seqno\<close> or \<open>v - seqno < INT32_MAX\<close> (modulo \<open>2^32\<close>).
\<close>

definition spec_at_or_after :: "32 word \<Rightarrow> 32 word \<Rightarrow> bool" where
  "spec_at_or_after v seqno \<longleftrightarrow> v = seqno \<or> v - seqno < INT32_MAX"


text \<open>A sequence of loads that never changes: the renderer has stopped at \<open>0xFFFFFFFF\<close>.\<close>

definition extra_at_max :: "nat \<Rightarrow> 32 word" where
  "extra_at_max n = 0xFFFFFFFF"

text \<open>The renderer has answered roundtrip \<open>0xFFFFFFFE\<close> and none after it.\<close>

definition extra_before_wrap :: "nat \<Rightarrow> 32 word" where
  "extra_before_wrap n = 0xFFFFFFFE"

subsection \<open>The loop returns exactly at the first load that passes the test\<close>

lemma wait_roundtrip_returns_reached:
  assumes ret: "vn_instance_wait_roundtrip extra seqno n = Some i"
  shows "n \<le> i \<and> roundtrip_reached (extra i) seqno \<and>
         (\<forall>j. n \<le> j \<and> j < i \<longrightarrow> \<not> roundtrip_reached (extra j) seqno)"
proof (rule vn_instance_wait_roundtrip.raw_induct [OF _ ret])
  fix rec :: "(nat \<Rightarrow> 32 word) \<Rightarrow> 32 word \<Rightarrow> nat \<Rightarrow> nat option"
  fix extra seqno n i
  assume ih: "\<And>e s m y. rec e s m = Some y \<Longrightarrow>
      m \<le> y \<and> roundtrip_reached (e y) s \<and>
      (\<forall>j. m \<le> j \<and> j < y \<longrightarrow> \<not> roundtrip_reached (e j) s)"
  assume step: "(if roundtrip_reached (extra n) seqno then Some n
      else rec extra seqno (Suc n)) = Some i"
  show "n \<le> i \<and> roundtrip_reached (extra i) seqno \<and>
      (\<forall>j. n \<le> j \<and> j < i \<longrightarrow> \<not> roundtrip_reached (extra j) seqno)"
  proof (cases "roundtrip_reached (extra n) seqno")
    case True
    with step show ?thesis by auto
  next
    case False
    with step have "rec extra seqno (Suc n) = Some i" by simp
    from ih [OF this] have later: "Suc n \<le> i" "roundtrip_reached (extra i) seqno"
      "\<And>j. Suc n \<le> j \<Longrightarrow> j < i \<Longrightarrow> \<not> roundtrip_reached (extra j) seqno"
      by auto
    have "\<not> roundtrip_reached (extra j) seqno" if "n \<le> j" "j < i" for j
    proof (cases "j = n")
      case True
      with False show ?thesis by simp
    next
      case False
      with that have "Suc n \<le> j" by simp
      from later(3) [OF this that(2)] show ?thesis .
    qed
    with later show ?thesis by auto
  qed
qed

lemma wait_roundtrip_terminates:
  assumes "n \<le> i" and "roundtrip_reached (extra i) seqno"
  shows "vn_instance_wait_roundtrip extra seqno n \<noteq> None"
  using assms
proof (induction "i - n" arbitrary: n)
  case 0
  then have "n = i" by simp
  with 0 show ?case by (simp add: vn_instance_wait_roundtrip.simps)
next
  case (Suc d)
  then have "d = i - Suc n" and "Suc n \<le> i" by simp_all
  from Suc(1)[OF this(1) this(2) Suc(4)] show ?case
    by (subst vn_instance_wait_roundtrip.simps) simp
qed

subsection \<open>The code's test against the specification's comparison\<close>

text \<open>
  Every value that the specification's comparison accepts passes the code's test, and the two
  agree on values less than \<open>INT32_MAX\<close> apart.
\<close>

lemma spec_at_or_after_reached:
  "spec_at_or_after v seqno \<Longrightarrow> roundtrip_reached v seqno"
  unfolding spec_at_or_after_def roundtrip_reached_def INT32_MAX_def
  by (auto simp: word_le_nat_alt word_less_nat_alt unat_sub_if' split: if_splits)

lemma reached_iff_spec_when_close:
  "(seqno \<le> v \<and> v - seqno < INT32_MAX) \<or> (v < seqno \<and> seqno - v < INT32_MAX) \<Longrightarrow>
   roundtrip_reached v seqno \<longleftrightarrow> spec_at_or_after v seqno"
  unfolding spec_at_or_after_def roundtrip_reached_def INT32_MAX_def
  by (auto simp: word_le_nat_alt word_less_nat_alt unat_sub_if' split: if_splits)

text \<open>
  C3, at sequence numbers that it covers and the code treats otherwise. \<^verbatim>\<open>roundtrip_next++\<close>
  wraps around, so the roundtrips \<open>0xFFFFFFFE\<close> and \<open>0xFFFFFFFF\<close> are followed by 0, 1 and 2.
  With the counter at \<open>0xFFFFFFFF\<close> a wait for 0, and with the counter at \<open>0xFFFFFFFE\<close> a wait
  for 2, return at the first load, because \<^verbatim>\<open>cur >= roundtrip_seqno\<close> holds of the plain
  unsigned values; yet the counter is one roundtrip, or four, before the awaited one, and
  \<open>v - seqno\<close> is not below \<open>INT32_MAX\<close>. The second disjunct of the test is the wrap-around
  the code does provide for: with the counter at 2 a wait for \<open>0xFFFFFFFE\<close> returns, and
  there the specification's comparison holds as well.
\<close>

theorem wait_roundtrip_not_spec_comparison:
  "vn_instance_wait_roundtrip extra_at_max 0 0 = Some 0 \<and>
   \<not> spec_at_or_after (extra_at_max 0) 0 \<and>
   extra_at_max 0 + 1 = 0 \<and>
   vn_instance_wait_roundtrip extra_before_wrap 2 0 = Some 0 \<and>
   \<not> spec_at_or_after (extra_before_wrap 0) 2 \<and>
   extra_before_wrap 0 + 4 = 2 \<and>
   roundtrip_reached 2 0xFFFFFFFE \<and> spec_at_or_after 2 0xFFFFFFFE"
  by (simp add: vn_instance_wait_roundtrip.simps roundtrip_reached_def
      spec_at_or_after_def extra_at_max_def extra_before_wrap_def INT32_MAX_def)


section \<open>Fences and semaphores\<close>

datatype VkResult =
    VK_SUCCESS
  | VK_NOT_READY
  | VK_TIMEOUT
  | VK_ERROR_OUT_OF_HOST_MEMORY
  | VK_ERROR_DEVICE_LOST
  | VK_ERROR_TOO_MANY_OBJECTS
  | VK_ERROR_INVALID_EXTERNAL_HANDLE

text \<open>
  What ends a call without a result: a failed \<^verbatim>\<open>assert\<close>, an \<^verbatim>\<open>unreachable\<close> branch, a read
  through a null pointer, a store or load outside the array that the code reserved, a polling
  loop that never leaves.
\<close>

datatype fault = AssertionFailed | Unreachable | NullPointer | OutOfBounds | Blocked

datatype vn_sync_type =
    VN_SYNC_TYPE_INVALID
  | VN_SYNC_TYPE_SYNC
  | VN_SYNC_TYPE_DEVICE_ONLY
  | VN_SYNC_TYPE_WSI_SIGNALED

text \<open>\<^verbatim>\<open>struct vn_sync_payload\<close>; \<open>sync\<close> names the \<^verbatim>\<open>struct vn_renderer_sync\<close> it points to.\<close>

record vn_sync_payload =
  type :: vn_sync_type
  sync :: nat

text \<open>
  \<^verbatim>\<open>struct vn_sync_payload *payload\<close> of a fence or semaphore. The code stores only
  \<^verbatim>\<open>&obj->permanent\<close> or \<^verbatim>\<open>&obj->temporary\<close> in it, the first time in
  \<^verbatim>\<open>vn_fence_init_payloads\<close> and \<^verbatim>\<open>vn_semaphore_init_payloads\<close>, before the handle exists.
\<close>

datatype payload_ptr = PERMANENT | TEMPORARY

record vn_fence =
  payload :: payload_ptr
  permanent :: vn_sync_payload
  temporary :: vn_sync_payload

datatype VkSemaphoreType = VK_SEMAPHORE_TYPE_BINARY | VK_SEMAPHORE_TYPE_TIMELINE

text \<open>\<^verbatim>\<open>struct vn_semaphore\<close> has the three payload fields of a fence and its \<^verbatim>\<open>type\<close>.\<close>

record vn_semaphore = vn_fence +
  sem_type :: VkSemaphoreType

text \<open>\<^verbatim>\<open>obj->payload\<close> dereferenced.\<close>

definition active_payload :: "'a vn_fence_scheme \<Rightarrow> vn_sync_payload" where
  "active_payload obj =
     (case payload obj of PERMANENT \<Rightarrow> permanent obj | TEMPORARY \<Rightarrow> temporary obj)"

text \<open>
  Modelled from the spec: the renderer's sync primitive (\<^verbatim>\<open>vn_renderer.h\<close> is not among the
  sources). A primitive is empty (created empty, or released) or holds a 64-bit counter;
  0 is unsignaled. \<^verbatim>\<open>vn_renderer_sync_release\<close> empties it, \<^verbatim>\<open>vn_renderer_sync_reset\<close> and
  \<^verbatim>\<open>vn_renderer_sync_write\<close> set the counter.
\<close>

datatype vn_renderer_sync = SYNC_EMPTY | SYNC_VALUE "64 word"

text \<open>
  A batch of a queue submission. \<^verbatim>\<open>VkSubmitInfo\<close> and \<^verbatim>\<open>VkBindSparseInfo\<close> both carry wait
  semaphores, signal semaphores and a \<^verbatim>\<open>pNext\<close> chain, which is all the driver reads; the
  command buffers or sparse binds are the opaque \<open>work\<close>. \<open>pSignalSemaphoreValues\<close> is
  the array of the \<^verbatim>\<open>VkTimelineSemaphoreSubmitInfo\<close> found in the chain, \<open>None\<close> when the
  chain has none. Arrays with their counts are lists; handles are numbers.
\<close>

record vk_batch =
  pSignalSemaphoreValues :: "64 word list option"
  pWaitSemaphores :: "nat list"
  work :: nat
  pSignalSemaphores :: "nat list"

datatype VkStructureType =
    VK_STRUCTURE_TYPE_SUBMIT_INFO
  | VK_STRUCTURE_TYPE_BIND_SPARSE_INFO

text \<open>
  What the driver asks of the renderer, in order: commands encoded on the ring
  (\<^verbatim>\<open>vn_async_*\<close> without a reply, \<^verbatim>\<open>vn_call_*\<close> with one), \<^verbatim>\<open>vn_instance_ring_wait\<close>,
  \<^verbatim>\<open>vn_renderer_submit\<close> of sync primitives with the values to signal,
  \<^verbatim>\<open>vn_instance_roundtrip\<close>, and \<^verbatim>\<open>vn_renderer_wait\<close> (wait-any flag, timeout, primitives
  with the values waited for). The two parallel arrays \<^verbatim>\<open>syncs\<close> and \<^verbatim>\<open>sync_values\<close> are one
  list of pairs.
\<close>

datatype event =
    Async_vkQueueSubmit "vk_batch list" "nat option"
  | Call_vkQueueSubmit "vk_batch list" "nat option"
  | Async_vkQueueBindSparse "vk_batch list" "nat option"
  | Call_vkQueueBindSparse "vk_batch list" "nat option"
  | Async_vkResetFences "nat list"
  | Async_vkCreateFence nat
  | Async_vkCreateSemaphore nat
  | Async_vkSignalSemaphore nat "64 word"
  | Ring_wait
  | Renderer_submit "(nat \<times> 64 word) list"
  | Roundtrip
  | Renderer_wait bool "64 word" "(nat \<times> 64 word) list"

text \<open>
  The device with the objects created on it. A handle is the address of its object, so
  every handle names one; the renderer's primitives are found by their address too.
\<close>

record vn_device =
  fences :: "nat \<Rightarrow> vn_fence"
  semaphores :: "nat \<Rightarrow> vn_semaphore"
  renderer_syncs :: "nat \<Rightarrow> vn_renderer_sync"
  calls :: "event list"

definition emit :: "event \<Rightarrow> vn_device \<Rightarrow> vn_device" where
  "emit e dev = dev\<lparr>calls := calls dev @ [e]\<rparr>"

definition vn_renderer_sync_release :: "vn_device \<Rightarrow> nat \<Rightarrow> vn_device" where
  "vn_renderer_sync_release dev s = dev\<lparr>renderer_syncs := (renderer_syncs dev)(s := SYNC_EMPTY)\<rparr>"

definition vn_renderer_sync_reset :: "vn_device \<Rightarrow> nat \<Rightarrow> 64 word \<Rightarrow> vn_device" where
  "vn_renderer_sync_reset dev s initial_val =
     dev\<lparr>renderer_syncs := (renderer_syncs dev)(s := SYNC_VALUE initial_val)\<rparr>"

definition vn_renderer_sync_write :: "vn_device \<Rightarrow> nat \<Rightarrow> 64 word \<Rightarrow> vn_device" where
  "vn_renderer_sync_write dev s val =
     dev\<lparr>renderer_syncs := (renderer_syncs dev)(s := SYNC_VALUE val)\<rparr>"

text \<open>\<^verbatim>\<open>vn_sync_payload_release\<close>: the payload is returned with its new type.\<close>

definition vn_sync_payload_release ::
  "vn_device \<Rightarrow> vn_sync_payload \<Rightarrow> vn_device \<times> vn_sync_payload" where
  "vn_sync_payload_release dev p =
     (if type p = VN_SYNC_TYPE_SYNC then vn_renderer_sync_release dev (sync p) else dev,
      p\<lparr>type := VN_SYNC_TYPE_INVALID\<rparr>)"

subsection \<open>Fence commands\<close>

text \<open>
  \<^verbatim>\<open>vn_CreateFence\<close> with \<^verbatim>\<open>vn_fence_init_payloads\<close>. The allocations and the two
  \<^verbatim>\<open>vn_renderer_sync_create_*\<close> calls can fail; their outcomes, the address of the new
  fence and the addresses of its two primitives are parameters.
\<close>

definition vn_CreateFence ::
  "vn_device \<Rightarrow> bool \<Rightarrow> bool \<Rightarrow> nat \<Rightarrow> VkResult \<Rightarrow> nat \<Rightarrow> VkResult \<Rightarrow> nat \<Rightarrow>
   VkResult \<times> nat option \<times> vn_device" where
  "vn_CreateFence dev signaled alloc_ok fence perm_result perm_sync temp_result temp_sync =
     (if \<not> alloc_ok then (VK_ERROR_OUT_OF_HOST_MEMORY, None, dev)
      else if perm_result \<noteq> VK_SUCCESS then (perm_result, None, dev)
      else if temp_result \<noteq> VK_SUCCESS then (temp_result, None, dev)
      else
        let dev1 = dev\<lparr>renderer_syncs := (renderer_syncs dev)
                     (perm_sync := SYNC_VALUE (if signaled then 1 else 0),
                      temp_sync := SYNC_EMPTY)\<rparr>;
            obj = \<lparr>payload = PERMANENT,
                   permanent = \<lparr>type = VN_SYNC_TYPE_SYNC, sync = perm_sync\<rparr>,
                   temporary = \<lparr>type = VN_SYNC_TYPE_INVALID, sync = temp_sync\<rparr>\<rparr>;
            dev2 = dev1\<lparr>fences := (fences dev1)(fence := obj)\<rparr>
        in (VK_SUCCESS, Some fence, emit (Async_vkCreateFence fence) dev2))"

definition vn_fence_signal_wsi :: "vn_device \<Rightarrow> nat \<Rightarrow> vn_device" where
  "vn_fence_signal_wsi dev fence =
     (let obj = fences dev fence;
          (dev1, temp) = vn_sync_payload_release dev (temporary obj);
          temp = temp\<lparr>type := VN_SYNC_TYPE_WSI_SIGNALED\<rparr>
      in dev1\<lparr>fences := (fences dev1)(fence := obj\<lparr>temporary := temp, payload := TEMPORARY\<rparr>)\<rparr>)"

text \<open>The loop of \<^verbatim>\<open>vn_ResetFences\<close> over \<^verbatim>\<open>pFences\<close>.\<close>

fun reset_fences_loop :: "vn_device \<Rightarrow> nat list \<Rightarrow> fault + vn_device" where
  "reset_fences_loop dev [] = Inr dev"
| "reset_fences_loop dev (fence # pFences) =
     (let obj = fences dev fence;
          perm = permanent obj;
          (dev1, temp) = vn_sync_payload_release dev (temporary obj)
      in if type perm \<noteq> VN_SYNC_TYPE_SYNC then Inl AssertionFailed
         else
           let dev2 = vn_renderer_sync_reset dev1 (sync perm) 0;
               dev3 = dev2\<lparr>fences := (fences dev2)
                        (fence := obj\<lparr>temporary := temp, payload := PERMANENT\<rparr>)\<rparr>
           in reset_fences_loop dev3 pFences)"

definition vn_ResetFences :: "vn_device \<Rightarrow> nat list \<Rightarrow> fault + VkResult \<times> vn_device" where
  "vn_ResetFences dev pFences =
     (case reset_fences_loop (emit (Async_vkResetFences pFences) dev) pFences of
        Inl e \<Rightarrow> Inl e
      | Inr dev' \<Rightarrow> Inr (VK_SUCCESS, dev'))"

text \<open>
  \<^verbatim>\<open>vn_GetFenceStatus\<close>; \<open>read_result\<close> is what \<^verbatim>\<open>vn_renderer_sync_read\<close> returns, the value
  it reads is the primitive's counter (0 for an empty one).
\<close>

definition sync_value :: "vn_renderer_sync \<Rightarrow> 64 word" where
  "sync_value s = (case s of SYNC_EMPTY \<Rightarrow> 0 | SYNC_VALUE v \<Rightarrow> v)"

definition vn_GetFenceStatus :: "vn_device \<Rightarrow> nat \<Rightarrow> VkResult \<Rightarrow> fault + VkResult" where
  "vn_GetFenceStatus dev fence read_result =
     (let p = active_payload (fences dev fence)
      in case type p of
           VN_SYNC_TYPE_SYNC \<Rightarrow>
             Inr (if read_result = VK_SUCCESS \<and> sync_value (renderer_syncs dev (sync p)) = 0
                  then VK_NOT_READY else read_result)
         | VN_SYNC_TYPE_WSI_SIGNALED \<Rightarrow> Inr VK_SUCCESS
         | _ \<Rightarrow> Inl Unreachable)"

text \<open>
  The loop of \<^verbatim>\<open>vn_WaitForFences\<close> that sorts the fences: the primitives to wait on, each
  for value 1, and \<^verbatim>\<open>signaled_count\<close>.
\<close>

fun wait_fences_loop ::
  "vn_device \<Rightarrow> nat list \<Rightarrow> fault + (nat \<times> 64 word) list \<times> nat" where
  "wait_fences_loop dev [] = Inr ([], 0)"
| "wait_fences_loop dev (fence # pFences) =
     (let p = active_payload (fences dev fence)
      in case type p of
           VN_SYNC_TYPE_SYNC \<Rightarrow>
             (case wait_fences_loop dev pFences of
                Inl e \<Rightarrow> Inl e
              | Inr (syncs, signaled_count) \<Rightarrow> Inr ((sync p, 1) # syncs, signaled_count))
         | VN_SYNC_TYPE_WSI_SIGNALED \<Rightarrow>
             (case wait_fences_loop dev pFences of
                Inl e \<Rightarrow> Inl e
              | Inr (syncs, signaled_count) \<Rightarrow> Inr (syncs, Suc signaled_count))
         | _ \<Rightarrow> Inl Unreachable)"

text \<open>
  \<^verbatim>\<open>vn_WaitForFences\<close>. More than 8 fences need two heap arrays; \<open>alloc_ok\<close> says whether
  both allocations succeed. \<open>wait_result\<close> is what \<^verbatim>\<open>vn_renderer_wait\<close> returns if called.
\<close>

definition vn_WaitForFences ::
  "vn_device \<Rightarrow> nat list \<Rightarrow> bool \<Rightarrow> 64 word \<Rightarrow> bool \<Rightarrow> VkResult \<Rightarrow>
   fault + VkResult \<times> vn_device" where
  "vn_WaitForFences dev pFences waitAll timeout alloc_ok wait_result =
     (if length pFences > 8 \<and> \<not> alloc_ok then Inr (VK_ERROR_OUT_OF_HOST_MEMORY, dev)
      else
        case wait_fences_loop dev pFences of
          Inl e \<Rightarrow> Inl e
        | Inr (syncs, signaled_count) \<Rightarrow>
            if length syncs \<noteq> 0 \<and> (waitAll \<or> signaled_count = 0)
            then Inr (wait_result, emit (Renderer_wait (\<not> waitAll) timeout syncs) dev)
            else Inr (VK_SUCCESS, dev))"

text \<open>
  \<^verbatim>\<open>vn_ImportFenceFdKHR\<close>. \<open>init_result\<close> is what \<^verbatim>\<open>vn_renderer_sync_init_signaled\<close> or
  \<^verbatim>\<open>vn_renderer_sync_init_syncobj\<close> returns and \<open>imported\<close> the counter of the primitive
  it sets up.
\<close>

definition vn_ImportFenceFdKHR ::
  "vn_device \<Rightarrow> nat \<Rightarrow> bool \<Rightarrow> bool \<Rightarrow> int \<Rightarrow> VkResult \<Rightarrow> 64 word \<Rightarrow> VkResult \<times> vn_device" where
  "vn_ImportFenceFdKHR dev fence temporary_bit sync_file fd init_result imported =
     (let obj = fences dev fence;
          p = (if temporary_bit then temporary obj else permanent obj);
          dev1 = (if type p = VN_SYNC_TYPE_SYNC then vn_renderer_sync_release dev (sync p) else dev)
      in if init_result \<noteq> VK_SUCCESS then (init_result, dev1)
         else
           let dev2 = vn_renderer_sync_write dev1 (sync p)
                        (if sync_file \<and> fd < 0 then 1 else imported);
               p' = p\<lparr>type := VN_SYNC_TYPE_SYNC\<rparr>;
               obj' = (if temporary_bit then obj\<lparr>temporary := p', payload := TEMPORARY\<rparr>
                       else obj\<lparr>permanent := p', payload := PERMANENT\<rparr>)
           in (VK_SUCCESS, dev2\<lparr>fences := (fences dev2)(fence := obj')\<rparr>))"

text \<open>
  \<^verbatim>\<open>vn_GetFenceFdKHR\<close>; \<open>fd\<close> is what \<^verbatim>\<open>vn_renderer_sync_export_syncobj\<close> returns. The
  result carries the descriptor written to \<^verbatim>\<open>*pFd\<close>.
\<close>

definition vn_GetFenceFdKHR ::
  "vn_device \<Rightarrow> nat \<Rightarrow> bool \<Rightarrow> int \<Rightarrow> fault + VkResult \<times> int option \<times> vn_device" where
  "vn_GetFenceFdKHR dev fence sync_file fd =
     (if type (active_payload (fences dev fence)) \<noteq> VN_SYNC_TYPE_SYNC then Inl AssertionFailed
      else if fd < 0 then Inr (VK_ERROR_TOO_MANY_OBJECTS, None, dev)
      else if sync_file then
        (case vn_ResetFences dev [fence] of
           Inl e \<Rightarrow> Inl e
         | Inr (r, dev') \<Rightarrow> Inr (VK_SUCCESS, Some fd, dev'))
      else Inr (VK_SUCCESS, Some fd, dev))"


subsection \<open>Semaphore commands\<close>

text \<open>\<^verbatim>\<open>vn_CreateSemaphore\<close> with \<^verbatim>\<open>vn_semaphore_init_payloads\<close>, parameters as for fences.\<close>

definition vn_CreateSemaphore ::
  "vn_device \<Rightarrow> VkSemaphoreType \<Rightarrow> 64 word \<Rightarrow> bool \<Rightarrow> nat \<Rightarrow> VkResult \<Rightarrow> nat \<Rightarrow>
   VkResult \<Rightarrow> nat \<Rightarrow> VkResult \<times> nat option \<times> vn_device" where
  "vn_CreateSemaphore dev ty initial_val alloc_ok sem perm_result perm_sync
       temp_result temp_sync =
     (if \<not> alloc_ok then (VK_ERROR_OUT_OF_HOST_MEMORY, None, dev)
      else if perm_result \<noteq> VK_SUCCESS then (perm_result, None, dev)
      else if temp_result \<noteq> VK_SUCCESS then (temp_result, None, dev)
      else
        let dev1 = dev\<lparr>renderer_syncs := (renderer_syncs dev)
                     (perm_sync := (if ty = VK_SEMAPHORE_TYPE_TIMELINE
                                    then SYNC_VALUE initial_val else SYNC_EMPTY),
                      temp_sync := SYNC_EMPTY)\<rparr>;
            obj = \<lparr>payload = PERMANENT,
                   permanent = \<lparr>type = (if ty = VK_SEMAPHORE_TYPE_TIMELINE
                                         then VN_SYNC_TYPE_SYNC else VN_SYNC_TYPE_DEVICE_ONLY),
                                sync = perm_sync\<rparr>,
                   temporary = \<lparr>type = VN_SYNC_TYPE_INVALID, sync = temp_sync\<rparr>,
                   sem_type = ty\<rparr>;
            dev2 = dev1\<lparr>semaphores := (semaphores dev1)(sem := obj)\<rparr>
        in (VK_SUCCESS, Some sem, emit (Async_vkCreateSemaphore sem) dev2))"

definition vn_semaphore_reset_wsi :: "vn_device \<Rightarrow> nat \<Rightarrow> vn_device" where
  "vn_semaphore_reset_wsi dev sem =
     (let obj = semaphores dev sem;
          perm = permanent obj;
          (dev1, temp) = vn_sync_payload_release dev (temporary obj);
          dev2 = (if type perm = VN_SYNC_TYPE_SYNC
                  then vn_renderer_sync_reset dev1 (sync perm) 0 else dev1)
      in dev2\<lparr>semaphores := (semaphores dev2)
               (sem := obj\<lparr>temporary := temp, payload := PERMANENT\<rparr>)\<rparr>)"

definition vn_semaphore_signal_wsi :: "vn_device \<Rightarrow> nat \<Rightarrow> vn_device" where
  "vn_semaphore_signal_wsi dev sem =
     (let obj = semaphores dev sem;
          (dev1, temp) = vn_sync_payload_release dev (temporary obj);
          temp = temp\<lparr>type := VN_SYNC_TYPE_WSI_SIGNALED\<rparr>
      in dev1\<lparr>semaphores := (semaphores dev1)
               (sem := obj\<lparr>temporary := temp, payload := TEMPORARY\<rparr>)\<rparr>)"

definition vn_GetSemaphoreCounterValue ::
  "vn_device \<Rightarrow> nat \<Rightarrow> VkResult \<Rightarrow> fault + VkResult \<times> 64 word" where
  "vn_GetSemaphoreCounterValue dev sem read_result =
     (let p = active_payload (semaphores dev sem)
      in if type p \<noteq> VN_SYNC_TYPE_SYNC then Inl AssertionFailed
         else Inr (read_result, sync_value (renderer_syncs dev (sync p))))"

definition vn_SignalSemaphore ::
  "vn_device \<Rightarrow> nat \<Rightarrow> 64 word \<Rightarrow> fault + VkResult \<times> vn_device" where
  "vn_SignalSemaphore dev sem val =
     (let p = active_payload (semaphores dev sem);
          dev1 = emit (Async_vkSignalSemaphore sem val) dev
      in if type p \<noteq> VN_SYNC_TYPE_SYNC then Inl AssertionFailed
         else Inr (VK_SUCCESS, vn_renderer_sync_write dev1 (sync p) val))"

text \<open>The loop of \<^verbatim>\<open>vn_WaitSemaphores\<close> that collects the primitives.\<close>

fun wait_semaphores_loop :: "vn_device \<Rightarrow> nat list \<Rightarrow> fault + nat list" where
  "wait_semaphores_loop dev [] = Inr []"
| "wait_semaphores_loop dev (sem # pSemaphores) =
     (let p = active_payload (semaphores dev sem)
      in if type p \<noteq> VN_SYNC_TYPE_SYNC then Inl AssertionFailed
         else case wait_semaphores_loop dev pSemaphores of
                Inl e \<Rightarrow> Inl e
              | Inr syncs \<Rightarrow> Inr (sync p # syncs))"

text \<open>
  \<^verbatim>\<open>vn_WaitSemaphores\<close>; \<open>pValues\<close> has one value for each semaphore, as the caller must
  provide.
\<close>

definition vn_WaitSemaphores ::
  "vn_device \<Rightarrow> nat list \<Rightarrow> 64 word list \<Rightarrow> bool \<Rightarrow> 64 word \<Rightarrow> bool \<Rightarrow> VkResult \<Rightarrow>
   fault + VkResult \<times> vn_device" where
  "vn_WaitSemaphores dev pSemaphores pValues wait_any timeout alloc_ok wait_result =
     (if length pSemaphores > 8 \<and> \<not> alloc_ok then Inr (VK_ERROR_OUT_OF_HOST_MEMORY, dev)
      else
        case wait_semaphores_loop dev pSemaphores of
          Inl e \<Rightarrow> Inl e
        | Inr syncs \<Rightarrow>
            if length pValues < length syncs then Inl OutOfBounds
            else Inr (wait_result,
                      emit (Renderer_wait wait_any timeout (zip syncs pValues)) dev))"

definition vn_ImportSemaphoreFdKHR ::
  "vn_device \<Rightarrow> nat \<Rightarrow> bool \<Rightarrow> bool \<Rightarrow> int \<Rightarrow> VkResult \<Rightarrow> 64 word \<Rightarrow> VkResult \<times> vn_device" where
  "vn_ImportSemaphoreFdKHR dev sem temporary_bit sync_file fd init_result imported =
     (let obj = semaphores dev sem;
          p = (if temporary_bit then temporary obj else permanent obj);
          dev1 = (if type p = VN_SYNC_TYPE_SYNC then vn_renderer_sync_release dev (sync p) else dev)
      in if init_result \<noteq> VK_SUCCESS then (init_result, dev1)
         else
           let dev2 = vn_renderer_sync_write dev1 (sync p)
                        (if sync_file \<and> fd < 0 then 1 else imported);
               p' = p\<lparr>type := VN_SYNC_TYPE_SYNC\<rparr>;
               obj' = (if temporary_bit then obj\<lparr>temporary := p', payload := TEMPORARY\<rparr>
                       else obj\<lparr>permanent := p', payload := PERMANENT\<rparr>)
           in (VK_SUCCESS, dev2\<lparr>semaphores := (semaphores dev2)(sem := obj')\<rparr>))"

definition vn_GetSemaphoreFdKHR ::
  "vn_device \<Rightarrow> nat \<Rightarrow> bool \<Rightarrow> int \<Rightarrow> fault + VkResult \<times> int option \<times> vn_device" where
  "vn_GetSemaphoreFdKHR dev sem sync_file fd =
     (let obj = semaphores dev sem
      in if type (active_payload obj) \<noteq> VN_SYNC_TYPE_SYNC then Inl AssertionFailed
         else if fd < 0 then Inr (VK_ERROR_TOO_MANY_OBJECTS, None, dev)
         else if sync_file then
           let (dev1, temp) = vn_sync_payload_release dev (temporary obj);
               dev2 = vn_renderer_sync_reset dev1 (sync (permanent obj)) 0
           in Inr (VK_SUCCESS, Some fd,
                   dev2\<lparr>semaphores := (semaphores dev2)
                          (sem := obj\<lparr>temporary := temp, payload := PERMANENT\<rparr>)\<rparr>)
         else Inr (VK_SUCCESS, Some fd, dev))"


section \<open>Queue submission\<close>

text \<open>
  \<^verbatim>\<open>struct vn_queue_submission\<close>. \<open>batches\<close> is the union of \<^verbatim>\<open>submit_batches\<close> and
  \<^verbatim>\<open>bind_sparse_batches\<close> with \<^verbatim>\<open>batch_count\<close> as its length, \<open>fence\<close> is \<open>None\<close> for
  \<^verbatim>\<open>VK_NULL_HANDLE\<close>. Of \<^verbatim>\<open>temp\<close>, \<open>temp_storage\<close> says whether \<^verbatim>\<open>temp.storage\<close> is non-null,
  \<open>temp_syncs\<close> holds what was stored in \<^verbatim>\<open>temp.syncs\<close> and \<^verbatim>\<open>temp.sync_values\<close> (slot by slot,
  from slot 0) and \<open>temp_batch_sync_counts\<close> what was stored in \<^verbatim>\<open>temp.batch_sync_counts\<close>.
  The wait semaphores kept in \<^verbatim>\<open>temp.semaphores\<close> are read only through the batches'
  \<^verbatim>\<open>pWaitSemaphores\<close>, where the model keeps them: each array of \<^verbatim>\<open>temp\<close> is a list of its
  own, and the bytes that follow an array in \<^verbatim>\<open>temp.storage\<close> are not modelled. The counters are \<^verbatim>\<open>uint32_t\<close> sums of array
  lengths.
\<close>

record vn_queue_submission =
  batch_type :: VkStructureType
  batches :: "vk_batch list"
  fence :: "nat option"
  wait_semaphore_count :: nat
  wait_wsi_count :: nat
  signal_semaphore_count :: nat
  signal_device_only_count :: nat
  signal_timeline_count :: nat
  sync_count :: nat
  temp_storage :: bool
  temp_syncs :: "(nat \<times> 64 word) list"
  temp_batch_sync_counts :: "nat list"

text \<open>
  The tests of \<^verbatim>\<open>vn_queue_submission_count_semaphores\<close> on one semaphore. For a
  \<^verbatim>\<open>VkSubmitInfo\<close> a signal semaphore that is WSI-signaled is judged by its permanent
  payload; for a \<^verbatim>\<open>VkBindSparseInfo\<close> it is not.
\<close>

definition wait_is_wsi :: "vn_device \<Rightarrow> nat \<Rightarrow> bool" where
  "wait_is_wsi dev sem \<longleftrightarrow>
     type (active_payload (semaphores dev sem)) = VN_SYNC_TYPE_WSI_SIGNALED"

definition signal_counted_payload :: "VkStructureType \<Rightarrow> vn_semaphore \<Rightarrow> vn_sync_payload" where
  "signal_counted_payload bt obj =
     (let p = active_payload obj
      in if bt = VK_STRUCTURE_TYPE_SUBMIT_INFO \<and> type p = VN_SYNC_TYPE_WSI_SIGNALED
         then permanent obj else p)"

definition signal_is_device_only :: "VkStructureType \<Rightarrow> vn_device \<Rightarrow> nat \<Rightarrow> bool" where
  "signal_is_device_only bt dev sem \<longleftrightarrow>
     type (signal_counted_payload bt (semaphores dev sem)) = VN_SYNC_TYPE_DEVICE_ONLY"

definition signal_is_timeline :: "VkStructureType \<Rightarrow> vn_device \<Rightarrow> nat \<Rightarrow> bool" where
  "signal_is_timeline bt dev sem \<longleftrightarrow>
     \<not> signal_is_device_only bt dev sem \<and>
     sem_type (semaphores dev sem) = VK_SEMAPHORE_TYPE_TIMELINE"

definition vn_queue_submission_count_semaphores ::
  "vn_device \<Rightarrow> vn_queue_submission \<Rightarrow> vn_queue_submission" where
  "vn_queue_submission_count_semaphores dev submit =
     (let bs = batches submit;
          bt = batch_type submit;
          waits = concat (map pWaitSemaphores bs);
          signals = concat (map pSignalSemaphores bs);
          device_only = length (filter (signal_is_device_only bt dev) signals)
      in submit\<lparr>
           wait_semaphore_count := length waits,
           wait_wsi_count := length (filter (wait_is_wsi dev) waits),
           signal_semaphore_count := length signals,
           signal_device_only_count := device_only,
           signal_timeline_count := length (filter (signal_is_timeline bt dev) signals),
           sync_count := length signals - device_only + (if fence submit \<noteq> None then 1 else 0)\<rparr>)"

text \<open>
  \<^verbatim>\<open>vn_queue_submission_alloc_storage\<close>, with the sizes of an LP64 target. \<open>alloc_ok\<close>
  says whether \<^verbatim>\<open>vk_alloc\<close> succeeds if called.
\<close>

definition sizeof_batch :: "VkStructureType \<Rightarrow> nat" where
  "sizeof_batch bt = (case bt of VK_STRUCTURE_TYPE_SUBMIT_INFO \<Rightarrow> 72
                      | VK_STRUCTURE_TYPE_BIND_SPARSE_INFO \<Rightarrow> 96)"

definition alloc_size :: "vn_queue_submission \<Rightarrow> nat" where
  "alloc_size submit =
     (let size1 = (if wait_wsi_count submit \<noteq> 0
                   then sizeof_batch (batch_type submit) * length (batches submit) +
                        8 * (wait_semaphore_count submit - wait_wsi_count submit)
                   else 0)
      in if sync_count submit \<noteq> 0
         then (size1 + 8 * sync_count submit + 7) div 8 * 8 + 8 * sync_count submit +
              4 * length (batches submit)
         else size1)"

definition vn_queue_submission_alloc_storage ::
  "vn_queue_submission \<Rightarrow> bool \<Rightarrow> VkResult \<times> vn_queue_submission" where
  "vn_queue_submission_alloc_storage submit alloc_ok =
     (if alloc_size submit = 0 then (VK_SUCCESS, submit\<lparr>temp_storage := False\<rparr>)
      else if \<not> alloc_ok then (VK_ERROR_OUT_OF_HOST_MEMORY, submit\<lparr>temp_storage := False\<rparr>)
      else (VK_SUCCESS, submit\<lparr>temp_storage := True\<rparr>))"

text \<open>
  The filter loop of \<^verbatim>\<open>vn_queue_submission_filter_batch_wsi_semaphores\<close>. A semaphore that is
  WSI-signaled when the loop comes to it is reset; any other is stored at
  \<^verbatim>\<open>dst_sems[dst_count++]\<close>. The code does not compare \<^verbatim>\<open>dst_count\<close> with the number of slots
  that \<^verbatim>\<open>vn_queue_submission_alloc_storage\<close> reserved.
\<close>

fun filter_wsi_semaphores :: "vn_device \<Rightarrow> nat list \<Rightarrow> vn_device \<times> nat list" where
  "filter_wsi_semaphores dev [] = (dev, [])"
| "filter_wsi_semaphores dev (sem # src_sems) =
     (if type (active_payload (semaphores dev sem)) = VN_SYNC_TYPE_WSI_SIGNALED
      then filter_wsi_semaphores (vn_semaphore_reset_wsi dev sem) src_sems
      else case filter_wsi_semaphores dev src_sems of
             (dev', dst_sems) \<Rightarrow> (dev', sem # dst_sems))"

text \<open>
  The batch comes back with its new wait list; \<^verbatim>\<open>dst_count\<close> is the list's length.
  \<open>sem_base\<close> is where in \<^verbatim>\<open>temp.semaphores\<close> the list begins.
\<close>

definition vn_queue_submission_filter_batch_wsi_semaphores ::
  "vn_device \<Rightarrow> vn_queue_submission \<Rightarrow> vk_batch \<Rightarrow> nat \<Rightarrow> vn_device \<times> vk_batch" where
  "vn_queue_submission_filter_batch_wsi_semaphores dev submit batch sem_base =
     (case filter_wsi_semaphores dev (pWaitSemaphores batch) of
        (dev', dst_sems) \<Rightarrow> (dev', batch\<lparr>pWaitSemaphores := dst_sems\<rparr>))"

text \<open>
  The loop of \<^verbatim>\<open>vn_queue_submission_setup_batch_syncs\<close> from index \<open>i\<close>; \<open>room\<close> counts the
  free slots of \<^verbatim>\<open>temp.syncs\<close>. A timeline semaphore reads
  \<^verbatim>\<open>timeline->pSignalSemaphoreValues[i]\<close>.
\<close>

fun setup_batch_syncs_loop ::
  "vn_device \<Rightarrow> 64 word list option \<Rightarrow> nat \<Rightarrow> nat \<Rightarrow> nat list \<Rightarrow>
   fault + (nat \<times> 64 word) list" where
  "setup_batch_syncs_loop dev timeline room i [] = Inr []"
| "setup_batch_syncs_loop dev timeline room i (sem # sems) =
     (let obj = semaphores dev sem; p = active_payload obj
      in if type p = VN_SYNC_TYPE_DEVICE_ONLY
         then setup_batch_syncs_loop dev timeline room (Suc i) sems
         else if type p \<noteq> VN_SYNC_TYPE_SYNC then Inl AssertionFailed
         else if room = 0 then Inl OutOfBounds
         else
           case (if sem_type obj = VK_SEMAPHORE_TYPE_TIMELINE
                 then (case timeline of
                         None \<Rightarrow> Inl NullPointer
                       | Some vals \<Rightarrow> if i < length vals then Inr (vals ! i) else Inl OutOfBounds)
                 else Inr 1) of
             Inl e \<Rightarrow> Inl e
           | Inr v \<Rightarrow>
               (case setup_batch_syncs_loop dev timeline (room - 1) (Suc i) sems of
                  Inl e \<Rightarrow> Inl e
                | Inr syncs \<Rightarrow> Inr ((sync p, v) # syncs)))"

definition vn_queue_submission_setup_batch_syncs ::
  "vn_device \<Rightarrow> vn_queue_submission \<Rightarrow> vk_batch \<Rightarrow> nat \<Rightarrow> fault + (nat \<times> 64 word) list" where
  "vn_queue_submission_setup_batch_syncs dev submit batch sync_base =
     setup_batch_syncs_loop dev (pSignalSemaphoreValues batch)
       (sync_count submit - sync_base) 0 (pSignalSemaphores batch)"

definition vn_queue_submission_setup_fence_sync ::
  "vn_device \<Rightarrow> vn_queue_submission \<Rightarrow> nat \<Rightarrow> fault + (nat \<times> 64 word) list" where
  "vn_queue_submission_setup_fence_sync dev submit sync_base =
     (case fence submit of
        None \<Rightarrow> Inr []
      | Some f \<Rightarrow>
          let p = active_payload (fences dev f)
          in if type p \<noteq> VN_SYNC_TYPE_SYNC then Inl AssertionFailed
             else if sync_count submit \<le> sync_base then Inl OutOfBounds
             else Inr [(sync p, 1)])"

text \<open>
  The loop of \<^verbatim>\<open>vn_queue_submission_setup_batches\<close> over the batches still to do. It gives
  the device, the batches as the renderer will get them, the entries stored in \<^verbatim>\<open>temp.syncs\<close>
  and those stored in \<^verbatim>\<open>temp.batch_sync_counts\<close>.
\<close>

fun setup_batches_loop ::
  "vn_queue_submission \<Rightarrow> vn_device \<Rightarrow> nat \<Rightarrow> nat \<Rightarrow> vk_batch list \<Rightarrow>
   fault + vn_device \<times> vk_batch list \<times> (nat \<times> 64 word) list \<times> nat list" where
  "setup_batches_loop submit dev wait_sem_base sync_base [] = Inr (dev, [], [], [])"
| "setup_batches_loop submit dev wait_sem_base sync_base (batch # rest) =
     (case (if wait_wsi_count submit \<noteq> 0
            then vn_queue_submission_filter_batch_wsi_semaphores dev submit batch wait_sem_base
            else (dev, batch)) of
        (dev1, batch1) \<Rightarrow>
          (case (if signal_semaphore_count submit > signal_device_only_count submit
                 then vn_queue_submission_setup_batch_syncs dev1 submit batch1 sync_base
                 else Inr []) of
             Inl e \<Rightarrow> Inl e
           | Inr syncs \<Rightarrow>
               (case setup_batches_loop submit dev1
                       (wait_sem_base +
                          (if wait_wsi_count submit \<noteq> 0 then length (pWaitSemaphores batch1) else 0))
                       (sync_base + length syncs) rest of
                  Inl e \<Rightarrow> Inl e
                | Inr (dev2, rest', syncs', counts) \<Rightarrow>
                    Inr (dev2, batch1 # rest', syncs @ syncs', length syncs # counts))))"

definition vn_queue_submission_setup_batches ::
  "vn_device \<Rightarrow> vn_queue_submission \<Rightarrow> fault + vn_device \<times> vn_queue_submission" where
  "vn_queue_submission_setup_batches dev submit =
     (if \<not> temp_storage submit then Inr (dev, submit)
      else
        case setup_batches_loop submit dev 0 0 (batches submit) of
          Inl e \<Rightarrow> Inl e
        | Inr (dev', batches', syncs, counts) \<Rightarrow>
            (case vn_queue_submission_setup_fence_sync dev' submit (length syncs) of
               Inl e \<Rightarrow> Inl e
             | Inr fence_sync \<Rightarrow>
                 if length syncs + length fence_sync \<noteq> sync_count submit
                 then Inl AssertionFailed
                 else Inr (dev', submit\<lparr>batches := batches',
                                        temp_syncs := syncs @ fence_sync,
                                        temp_batch_sync_counts := counts\<rparr>)))"

text \<open>
  \<^verbatim>\<open>vn_queue_submission_prepare_submit\<close> and \<^verbatim>\<open>vn_queue_submission_prepare_bind_sparse\<close>
  differ in the batch type they store.
\<close>

definition vn_queue_submission_prepare ::
  "VkStructureType \<Rightarrow> vn_device \<Rightarrow> vk_batch list \<Rightarrow> nat option \<Rightarrow> bool \<Rightarrow>
   fault + VkResult \<times> vn_device \<times> vn_queue_submission" where
  "vn_queue_submission_prepare bt dev bs f alloc_ok =
     (let submit0 = \<lparr>batch_type = bt, batches = bs, fence = f,
                     wait_semaphore_count = 0, wait_wsi_count = 0,
                     signal_semaphore_count = 0, signal_device_only_count = 0,
                     signal_timeline_count = 0, sync_count = 0,
                     temp_storage = False, temp_syncs = [], temp_batch_sync_counts = []\<rparr>;
          submit1 = vn_queue_submission_count_semaphores dev submit0;
          (result, submit2) = vn_queue_submission_alloc_storage submit1 alloc_ok
      in if result \<noteq> VK_SUCCESS then Inr (result, dev, submit2)
         else case vn_queue_submission_setup_batches dev submit2 of
                Inl e \<Rightarrow> Inl e
              | Inr (dev', submit3) \<Rightarrow> Inr (VK_SUCCESS, dev', submit3))"

definition vn_queue_submission_prepare_submit ::
  "vn_device \<Rightarrow> vk_batch list \<Rightarrow> nat option \<Rightarrow> bool \<Rightarrow>
   fault + VkResult \<times> vn_device \<times> vn_queue_submission" where
  "vn_queue_submission_prepare_submit =
     vn_queue_submission_prepare VK_STRUCTURE_TYPE_SUBMIT_INFO"

definition vn_queue_submission_prepare_bind_sparse ::
  "vn_device \<Rightarrow> vk_batch list \<Rightarrow> nat option \<Rightarrow> bool \<Rightarrow>
   fault + VkResult \<times> vn_device \<times> vn_queue_submission" where
  "vn_queue_submission_prepare_bind_sparse =
     vn_queue_submission_prepare VK_STRUCTURE_TYPE_BIND_SPARSE_INFO"


text \<open>\<^verbatim>\<open>vn_queue_submit_syncs\<close>: one \<^verbatim>\<open>vn_renderer_submit\<close> of the primitives, then a roundtrip.\<close>

definition vn_queue_submit_syncs :: "vn_device \<Rightarrow> (nat \<times> 64 word) list \<Rightarrow> vn_device" where
  "vn_queue_submit_syncs dev syncs = emit Roundtrip (emit (Renderer_submit syncs) dev)"

definition async_command :: "VkStructureType \<Rightarrow> vk_batch list \<Rightarrow> nat option \<Rightarrow> event" where
  "async_command bt bs f =
     (case bt of VK_STRUCTURE_TYPE_SUBMIT_INFO \<Rightarrow> Async_vkQueueSubmit bs f
      | VK_STRUCTURE_TYPE_BIND_SPARSE_INFO \<Rightarrow> Async_vkQueueBindSparse bs f)"

definition call_command :: "VkStructureType \<Rightarrow> vk_batch list \<Rightarrow> nat option \<Rightarrow> event" where
  "call_command bt bs f =
     (case bt of VK_STRUCTURE_TYPE_SUBMIT_INFO \<Rightarrow> Call_vkQueueSubmit bs f
      | VK_STRUCTURE_TYPE_BIND_SPARSE_INFO \<Rightarrow> Call_vkQueueBindSparse bs f)"

text \<open>
  The loop \<^verbatim>\<open>for (i = 0; i < submit.batch_count - 1; i++)\<close> of the timeline branch, over the
  batches from \<open>i\<close> on and the entries of \<^verbatim>\<open>temp.batch_sync_counts\<close> from \<open>i\<close> on. It gives
  the device, the batch left for the synchronous call and \<^verbatim>\<open>sync_base\<close>. With no batch at
  all, \<^verbatim>\<open>batch_count - 1\<close> wraps around and the loop reads past the arrays.
\<close>

fun submit_timeline_loop ::
  "VkStructureType \<Rightarrow> vn_device \<Rightarrow> (nat \<times> 64 word) list \<Rightarrow> nat \<Rightarrow> vk_batch list \<Rightarrow> nat list \<Rightarrow>
   fault + vn_device \<times> vk_batch \<times> nat" where
  "submit_timeline_loop bt dev syncs sync_base [] counts = Inl OutOfBounds"
| "submit_timeline_loop bt dev syncs sync_base [batch] counts = Inr (dev, batch, sync_base)"
| "submit_timeline_loop bt dev syncs sync_base (batch # rest) [] = Inl OutOfBounds"
| "submit_timeline_loop bt dev syncs sync_base (batch # rest) (n # counts) =
     (if length syncs < sync_base + n then Inl OutOfBounds
      else
        let dev1 = emit (async_command bt [batch] None) dev;
            dev2 = emit Ring_wait dev1;
            dev3 = vn_queue_submit_syncs dev2 (take n (drop sync_base syncs))
        in submit_timeline_loop bt dev3 syncs (sync_base + n) rest counts)"

text \<open>
  \<^verbatim>\<open>vn_QueueSubmit\<close> and \<^verbatim>\<open>vn_QueueBindSparse\<close> are the same text up to the command they
  encode. \<open>alloc_ok\<close> is the outcome of the storage allocation and \<open>call_result\<close> what the
  synchronous command returns.
\<close>

definition vn_queue_submit ::
  "VkStructureType \<Rightarrow> vn_device \<Rightarrow> vk_batch list \<Rightarrow> nat option \<Rightarrow> bool \<Rightarrow> VkResult \<Rightarrow>
   fault + VkResult \<times> vn_device" where
  "vn_queue_submit bt dev bs f alloc_ok call_result =
     (case vn_queue_submission_prepare bt dev bs f alloc_ok of
        Inl e \<Rightarrow> Inl e
      | Inr (result, dev1, submit) \<Rightarrow>
          if result \<noteq> VK_SUCCESS then Inr (VK_ERROR_OUT_OF_HOST_MEMORY, dev1)
          else if signal_timeline_count submit \<noteq> 0 then
            (case submit_timeline_loop bt dev1 (temp_syncs submit) 0 (batches submit)
                    (temp_batch_sync_counts submit) of
               Inl e \<Rightarrow> Inl e
             | Inr (dev2, last_batch, sync_base) \<Rightarrow>
                 let dev3 = emit (call_command bt [last_batch] (fence submit)) dev2
                 in if call_result \<noteq> VK_SUCCESS then Inr (call_result, dev3)
                    else if sync_base < sync_count submit then
                      (if length (temp_syncs submit) < sync_count submit then Inl OutOfBounds
                       else Inr (VK_SUCCESS,
                                 vn_queue_submit_syncs dev3
                                   (take (sync_count submit - sync_base)
                                      (drop sync_base (temp_syncs submit)))))
                    else Inr (VK_SUCCESS, dev3))
          else
            let dev2 = emit (call_command bt (batches submit) (fence submit)) dev1
            in if call_result \<noteq> VK_SUCCESS then Inr (call_result, dev2)
               else if sync_count submit \<noteq> 0 then
                 (if length (temp_syncs submit) < sync_count submit then Inl OutOfBounds
                  else Inr (VK_SUCCESS,
                            vn_queue_submit_syncs dev2
                              (take (sync_count submit) (temp_syncs submit))))
               else Inr (VK_SUCCESS, dev2))"

definition vn_QueueSubmit ::
  "vn_device \<Rightarrow> vk_batch list \<Rightarrow> nat option \<Rightarrow> bool \<Rightarrow> VkResult \<Rightarrow> fault + VkResult \<times> vn_device" where
  "vn_QueueSubmit = vn_queue_submit VK_STRUCTURE_TYPE_SUBMIT_INFO"

definition vn_QueueBindSparse ::
  "vn_device \<Rightarrow> vk_batch list \<Rightarrow> nat option \<Rightarrow> bool \<Rightarrow> VkResult \<Rightarrow> fault + VkResult \<times> vn_device" where
  "vn_QueueBindSparse = vn_queue_submit VK_STRUCTURE_TYPE_BIND_SPARSE_INFO"


section \<open>Example devices\<close>

text \<open>A device on which nothing has been created yet.\<close>

definition no_payload :: vn_sync_payload where
  "no_payload = \<lparr>type = VN_SYNC_TYPE_INVALID, sync = 0\<rparr>"

definition no_fence :: "nat \<Rightarrow> vn_fence" where
  "no_fence h = \<lparr>payload = PERMANENT, permanent = no_payload, temporary = no_payload\<rparr>"

definition no_semaphore :: "nat \<Rightarrow> vn_semaphore" where
  "no_semaphore h = \<lparr>payload = PERMANENT, permanent = no_payload, temporary = no_payload,
                      sem_type = VK_SEMAPHORE_TYPE_BINARY\<rparr>"

definition no_sync :: "nat \<Rightarrow> vn_renderer_sync" where
  "no_sync s = SYNC_EMPTY"

definition empty_device :: vn_device where
  "empty_device = \<lparr>fences = no_fence, semaphores = no_semaphore, renderer_syncs = no_sync,
                    calls = []\<rparr>"

text \<open>
  Fence 100 (primitives 101 and 102) was created unsignaled and then signaled by the WSI;
  fence 200 (primitives 201 and 202) was created unsignaled.
\<close>

definition two_fences :: vn_device where
  "two_fences =
     (let (r1, h1, dev1) = vn_CreateFence empty_device False True 100 VK_SUCCESS 101 VK_SUCCESS 102;
          (r2, h2, dev2) = vn_CreateFence dev1 False True 200 VK_SUCCESS 201 VK_SUCCESS 202
      in vn_fence_signal_wsi dev2 100)"

lemma two_fences_fence_100:
  "fences two_fences 100 =
     \<lparr>payload = TEMPORARY, permanent = \<lparr>type = VN_SYNC_TYPE_SYNC, sync = 101\<rparr>,
      temporary = \<lparr>type = VN_SYNC_TYPE_WSI_SIGNALED, sync = 102\<rparr>\<rparr>"
  by (simp add: two_fences_def vn_CreateFence_def vn_fence_signal_wsi_def emit_def
      vn_sync_payload_release_def empty_device_def)

lemma two_fences_fence_200:
  "fences two_fences 200 =
     \<lparr>payload = PERMANENT, permanent = \<lparr>type = VN_SYNC_TYPE_SYNC, sync = 201\<rparr>,
      temporary = \<lparr>type = VN_SYNC_TYPE_INVALID, sync = 202\<rparr>\<rparr>"
  by (simp add: two_fences_def vn_CreateFence_def vn_fence_signal_wsi_def emit_def
      vn_sync_payload_release_def empty_device_def)

lemma two_fences_sync_201: "renderer_syncs two_fences 201 = SYNC_VALUE 0"
  by (simp add: two_fences_def vn_CreateFence_def vn_fence_signal_wsi_def emit_def
      vn_sync_payload_release_def empty_device_def)

text \<open>On top of that, fence 200 has imported a sync file into its temporary payload.\<close>

definition imported_fence :: vn_device where
  "imported_fence = snd (vn_ImportFenceFdKHR two_fences 200 True True 7 VK_SUCCESS 1)"

lemma imported_fence_200:
  "fences imported_fence 200 =
     \<lparr>payload = TEMPORARY, permanent = \<lparr>type = VN_SYNC_TYPE_SYNC, sync = 201\<rparr>,
      temporary = \<lparr>type = VN_SYNC_TYPE_SYNC, sync = 202\<rparr>\<rparr>"
  by (simp add: imported_fence_def vn_ImportFenceFdKHR_def two_fences_fence_200
      vn_renderer_sync_write_def Let_def)

section \<open>Waiting for fences\<close>

lemma wait_fences_loop_result:
  "\<forall>g\<in>set pFences. type (active_payload (fences dev g)) = VN_SYNC_TYPE_SYNC \<or>
       type (active_payload (fences dev g)) = VN_SYNC_TYPE_WSI_SIGNALED \<Longrightarrow>
   \<exists>syncs. wait_fences_loop dev pFences =
     Inr (syncs, length (filter (\<lambda>g. type (active_payload (fences dev g)) =
        VN_SYNC_TYPE_WSI_SIGNALED) pFences))"
  by (induction pFences) auto

text \<open>
  C8. \<^verbatim>\<open>vn_WaitForFences\<close> with \<^verbatim>\<open>waitAll\<close> false, on fences whose active payloads are
  primitives or WSI-signaled and of which at least one is WSI-signaled, returns
  \<^verbatim>\<open>VK_SUCCESS\<close> and leaves the device as it was: no \<^verbatim>\<open>vn_renderer_wait\<close> is issued,
  whatever the timeout and whatever a wait would have returned. With more than 8 fences the
  call first allocates two arrays; the statement is for calls where that succeeds.
\<close>

theorem wait_any_with_wsi_signaled_fence:
  assumes one: "f \<in> set pFences"
      "type (active_payload (fences dev f)) = VN_SYNC_TYPE_WSI_SIGNALED"
    and all: "\<forall>g\<in>set pFences. type (active_payload (fences dev g)) = VN_SYNC_TYPE_SYNC \<or>
        type (active_payload (fences dev g)) = VN_SYNC_TYPE_WSI_SIGNALED"
    and mem: "length pFences \<le> 8 \<or> alloc_ok"
  shows "vn_WaitForFences dev pFences False timeout alloc_ok wait_result = Inr (VK_SUCCESS, dev)"
proof -
  let ?wsi = "\<lambda>g. type (active_payload (fences dev g)) = VN_SYNC_TYPE_WSI_SIGNALED"
  from wait_fences_loop_result [OF all] obtain syncs where
    loop: "wait_fences_loop dev pFences = Inr (syncs, length (filter ?wsi pFences))"
    by blast
  from one have "f \<in> set (filter ?wsi pFences)" by simp
  then have "length (filter ?wsi pFences) \<noteq> 0"
    by (metis length_0_conv empty_iff list.set(1))
  with loop mem show ?thesis
    by (auto simp: vn_WaitForFences_def)
qed

text \<open>
  Fence 100 is WSI-signaled, fence 200 is an unsignaled primitive, the timeout is 0 and the
  renderer would have answered \<^verbatim>\<open>VK_TIMEOUT\<close>.
\<close>

theorem wait_any_with_wsi_signaled_fence_witness:
  "type (active_payload (fences two_fences 100)) = VN_SYNC_TYPE_WSI_SIGNALED \<and>
   type (active_payload (fences two_fences 200)) = VN_SYNC_TYPE_SYNC \<and>
   renderer_syncs two_fences (sync (active_payload (fences two_fences 200))) = SYNC_VALUE 0 \<and>
   vn_WaitForFences two_fences [100, 200] False 0 False VK_TIMEOUT = Inr (VK_SUCCESS, two_fences)"
proof -
  have f1: "type (active_payload (fences two_fences 100)) = VN_SYNC_TYPE_WSI_SIGNALED"
    by (simp add: two_fences_fence_100 active_payload_def)
  have f2: "type (active_payload (fences two_fences 200)) = VN_SYNC_TYPE_SYNC"
    by (simp add: two_fences_fence_200 active_payload_def)
  have unsignaled:
    "renderer_syncs two_fences (sync (active_payload (fences two_fences 200))) = SYNC_VALUE 0"
    by (simp add: two_fences_fence_200 active_payload_def two_fences_sync_201)
  have all: "\<forall>g\<in>set [100, 200]. type (active_payload (fences two_fences g)) = VN_SYNC_TYPE_SYNC \<or>
      type (active_payload (fences two_fences g)) = VN_SYNC_TYPE_WSI_SIGNALED"
    using f1 f2 by simp
  have "vn_WaitForFences two_fences [100, 200] False 0 False VK_TIMEOUT =
      Inr (VK_SUCCESS, two_fences)"
    by (rule wait_any_with_wsi_signaled_fence [OF _ f1 all]) simp_all
  with f1 f2 unsignaled show ?thesis by blast
qed

section \<open>Exporting a fence\<close>

lemma reset_one_fence:
  "reset_fences_loop dev [f] = Inr dev' \<Longrightarrow>
   type (temporary (fences dev' f)) = VN_SYNC_TYPE_INVALID \<and>
   sync (temporary (fences dev' f)) = sync (temporary (fences dev f)) \<and>
   permanent (fences dev' f) = permanent (fences dev f) \<and>
   type (permanent (fences dev f)) = VN_SYNC_TYPE_SYNC \<and>
   payload (fences dev' f) = PERMANENT \<and>
   renderer_syncs dev' (sync (permanent (fences dev f))) = SYNC_VALUE 0 \<and>
   (type (temporary (fences dev f)) = VN_SYNC_TYPE_SYNC \<and>
    sync (temporary (fences dev f)) \<noteq> sync (permanent (fences dev f)) \<longrightarrow>
      renderer_syncs dev' (sync (temporary (fences dev f))) = SYNC_EMPTY)"
  by (auto simp: vn_sync_payload_release_def vn_renderer_sync_reset_def
      vn_renderer_sync_release_def Let_def split: if_splits)

text \<open>
  C9. A successful \<^verbatim>\<open>vn_GetFenceFdKHR\<close> for a sync file has reset the fence: the temporary
  payload is Invalid (and its primitive, if it had one, released), the permanent payload is
  the same primitive as before, now with counter 0, and it is the active one. A successful
  export of an opaque handle leaves the whole device as it was.
\<close>

theorem get_fence_fd_resets_on_sync_file:
  assumes "vn_GetFenceFdKHR dev f sync_file fd = Inr (VK_SUCCESS, out, dev')"
  shows "if sync_file
         then temporary (fences dev' f) =
                (temporary (fences dev f))\<lparr>type := VN_SYNC_TYPE_INVALID\<rparr> \<and>
              (type (temporary (fences dev f)) = VN_SYNC_TYPE_SYNC \<and>
               sync (temporary (fences dev f)) \<noteq> sync (permanent (fences dev f)) \<longrightarrow>
                 renderer_syncs dev' (sync (temporary (fences dev f))) = SYNC_EMPTY) \<and>
              permanent (fences dev' f) = permanent (fences dev f) \<and>
              type (permanent (fences dev' f)) = VN_SYNC_TYPE_SYNC \<and>
              renderer_syncs dev' (sync (permanent (fences dev' f))) = SYNC_VALUE 0 \<and>
              payload (fences dev' f) = PERMANENT
         else dev' = dev"
proof (cases sync_file)
  case False
  with assms show ?thesis
    by (auto simp: vn_GetFenceFdKHR_def split: if_splits)
next
  case True
  with assms have "reset_fences_loop (emit (Async_vkResetFences [f]) dev) [f] = Inr dev'"
    by (auto simp: vn_GetFenceFdKHR_def vn_ResetFences_def split: if_splits sum.splits)
  from reset_one_fence [OF this] True show ?thesis
    by (cases "temporary (fences dev' f)") (simp add: emit_def)
qed

text \<open>
  Fence 200 of the example gets a temporary payload by an import; the export as a sync file
  resets it, the export as an opaque handle does not.
\<close>

theorem get_fence_fd_resets_on_sync_file_witness:
  "(case vn_GetFenceFdKHR imported_fence 200 True 5 of
      Inl e \<Rightarrow> False
    | Inr (r, out, dev') \<Rightarrow>
        r = VK_SUCCESS \<and> out = Some 5 \<and>
        fences dev' 200 =
          \<lparr>payload = PERMANENT, permanent = \<lparr>type = VN_SYNC_TYPE_SYNC, sync = 201\<rparr>,
           temporary = \<lparr>type = VN_SYNC_TYPE_INVALID, sync = 202\<rparr>\<rparr> \<and>
        renderer_syncs dev' 201 = SYNC_VALUE 0 \<and>
        renderer_syncs dev' 202 = SYNC_EMPTY) \<and>
   vn_GetFenceFdKHR imported_fence 200 False 5 = Inr (VK_SUCCESS, Some 5, imported_fence)"
proof -
  have active: "type (active_payload (fences imported_fence 200)) = VN_SYNC_TYPE_SYNC"
    by (simp add: imported_fence_200 active_payload_def)
  have "\<exists>dev'. vn_GetFenceFdKHR imported_fence 200 True 5 = Inr (VK_SUCCESS, Some 5, dev')"
    by (simp add: vn_GetFenceFdKHR_def vn_ResetFences_def active_payload_def emit_def
        imported_fence_200 vn_sync_payload_release_def Let_def)
  then obtain dev' where
    run: "vn_GetFenceFdKHR imported_fence 200 True 5 = Inr (VK_SUCCESS, Some 5, dev')"
    by blast
  have opaque: "vn_GetFenceFdKHR imported_fence 200 False 5 =
      Inr (VK_SUCCESS, Some 5, imported_fence)"
    by (simp add: vn_GetFenceFdKHR_def active)
  from get_fence_fd_resets_on_sync_file [OF run]
  have "fences dev' 200 =
          \<lparr>payload = PERMANENT, permanent = \<lparr>type = VN_SYNC_TYPE_SYNC, sync = 201\<rparr>,
           temporary = \<lparr>type = VN_SYNC_TYPE_INVALID, sync = 202\<rparr>\<rparr> \<and>
        renderer_syncs dev' 201 = SYNC_VALUE 0 \<and>
        renderer_syncs dev' 202 = SYNC_EMPTY"
    by (cases "fences dev' 200") (simp add: imported_fence_200)
  with run opaque show ?thesis by simp
qed


section \<open>Filtering WSI-signaled wait semaphores\<close>

text \<open>
  What \<^verbatim>\<open>vn_semaphore_reset_wsi\<close> leaves of a semaphore object: the temporary payload
  Invalid, the permanent payload as it was and active.
\<close>

definition reset_wsi_obj :: "vn_semaphore \<Rightarrow> vn_semaphore" where
  "reset_wsi_obj obj =
     obj\<lparr>temporary := (temporary obj)\<lparr>type := VN_SYNC_TYPE_INVALID\<rparr>, payload := PERMANENT\<rparr>"

lemma reset_wsi_obj_idem: "reset_wsi_obj (reset_wsi_obj obj) = reset_wsi_obj obj"
  by (simp add: reset_wsi_obj_def)

lemma reset_wsi_semaphores:
  "semaphores (vn_semaphore_reset_wsi dev s) =
     (semaphores dev)(s := reset_wsi_obj (semaphores dev s))"
  by (simp add: vn_semaphore_reset_wsi_def vn_sync_payload_release_def
      vn_renderer_sync_release_def vn_renderer_sync_reset_def reset_wsi_obj_def Let_def)

lemma reset_wsi_frame:
  "fences (vn_semaphore_reset_wsi dev s) = fences dev"
  "calls (vn_semaphore_reset_wsi dev s) = calls dev"
  by (simp_all add: vn_semaphore_reset_wsi_def vn_sync_payload_release_def
      vn_renderer_sync_release_def vn_renderer_sync_reset_def Let_def)

lemma reset_wsi_other:
  "s \<noteq> w \<Longrightarrow> wait_is_wsi (vn_semaphore_reset_wsi dev w) s = wait_is_wsi dev s"
  by (simp add: wait_is_wsi_def reset_wsi_semaphores)

lemma filter_wsi_semaphores_effect:
  "filter_wsi_semaphores dev ws = (dev', dst) \<Longrightarrow>
   fences dev' = fences dev \<and> calls dev' = calls dev \<and>
   (\<forall>s. semaphores dev' s =
      (if s \<in> set ws \<and> wait_is_wsi dev s then reset_wsi_obj (semaphores dev s)
       else semaphores dev s))"
proof (induction ws arbitrary: dev dst)
  case Nil
  then show ?case by simp
next
  case (Cons w ws)
  show ?case
  proof (cases "wait_is_wsi dev w")
    case True
    let ?d = "vn_semaphore_reset_wsi dev w"
    from True Cons.prems have "filter_wsi_semaphores ?d ws = (dev', dst)"
      by (simp add: wait_is_wsi_def)
    from Cons.IH [OF this] have
      ih: "fences dev' = fences ?d" "calls dev' = calls ?d"
        "\<And>s. semaphores dev' s =
          (if s \<in> set ws \<and> wait_is_wsi ?d s then reset_wsi_obj (semaphores ?d s)
           else semaphores ?d s)"
      by auto
    show ?thesis
      using ih True reset_wsi_other [of _ w dev]
      by (auto simp: reset_wsi_frame reset_wsi_semaphores reset_wsi_obj_idem)
  next
    case False
    with Cons.prems obtain dst' where
      rec: "filter_wsi_semaphores dev ws = (dev', dst')"
      by (auto simp: wait_is_wsi_def split: prod.splits)
    from Cons.IH [OF rec] False show ?thesis by auto
  qed
qed

text \<open>
  What the loop keeps when no semaphore that is WSI-signaled is named twice: the semaphores
  that were not WSI-signaled, in their order.
\<close>

lemma filter_wsi_semaphores_kept:
  assumes "filter_wsi_semaphores dev ws = (dev', dst)"
    and "distinct (filter (wait_is_wsi dev) ws)"
  shows "dst = filter (\<lambda>s. \<not> wait_is_wsi dev s) ws"
  using assms
proof (induction ws arbitrary: dev dst)
  case Nil
  then show ?case by simp
next
  case (Cons w ws)
  show ?case
  proof (cases "wait_is_wsi dev w")
    case True
    let ?d = "vn_semaphore_reset_wsi dev w"
    from True Cons.prems(1) have rec: "filter_wsi_semaphores ?d ws = (dev', dst)"
      by (simp add: wait_is_wsi_def)
    from True Cons.prems(2) have notin: "w \<notin> set ws" and dist: "distinct (filter (wait_is_wsi dev) ws)"
      by auto
    have same: "wait_is_wsi ?d s = wait_is_wsi dev s" if "s \<in> set ws" for s
    proof -
      from that notin have "s \<noteq> w" by auto
      then show ?thesis by (rule reset_wsi_other)
    qed
    then have f1: "filter (wait_is_wsi ?d) ws = filter (wait_is_wsi dev) ws"
      by (intro filter_cong) simp_all
    from same have f2: "filter (\<lambda>s. \<not> wait_is_wsi ?d s) ws = filter (\<lambda>s. \<not> wait_is_wsi dev s) ws"
      by (intro filter_cong) simp_all
    from Cons.IH [OF rec] dist f1 have "dst = filter (\<lambda>s. \<not> wait_is_wsi ?d s) ws"
      by simp
    with f2 True show ?thesis by simp
  next
    case False
    with Cons.prems(1) obtain dst' where
      rec: "filter_wsi_semaphores dev ws = (dev', dst')" and dst: "dst = w # dst'"
      by (auto simp: wait_is_wsi_def split: prod.splits)
    from False Cons.prems(2) have "distinct (filter (wait_is_wsi dev) ws)" by simp
    from Cons.IH [OF rec this] dst False show ?thesis by simp
  qed
qed

text \<open>
  What it keeps in general: a semaphore that was WSI-signaled goes at its first entry only, as
  the reset makes its permanent payload the active one. \<open>seen\<close> are the semaphores already
  reset.
\<close>

fun kept_waits :: "vn_device \<Rightarrow> nat set \<Rightarrow> nat list \<Rightarrow> nat list" where
  "kept_waits dev seen [] = []"
| "kept_waits dev seen (s # ws) =
     (if wait_is_wsi dev s \<and> s \<notin> seen then kept_waits dev (insert s seen) ws
      else s # kept_waits dev seen ws)"

lemma setup_batches_loop_ConsD:
  assumes "setup_batches_loop submit dev base sb (b # bs) = Inr (dev', bs', syncs, counts)"
  shows "\<exists>dev1 b1 sy rest' syncs' counts'.
    (if wait_wsi_count submit \<noteq> 0
      then vn_queue_submission_filter_batch_wsi_semaphores dev submit b base
      else (dev, b)) = (dev1, b1) \<and>
    (if signal_semaphore_count submit > signal_device_only_count submit
      then vn_queue_submission_setup_batch_syncs dev1 submit b1 sb
      else Inr []) = Inr sy \<and>
    setup_batches_loop submit dev1
       (base + (if wait_wsi_count submit \<noteq> 0 then length (pWaitSemaphores b1) else 0))
       (sb + length sy) bs = Inr (dev', rest', syncs', counts') \<and>
    bs' = b1 # rest' \<and> syncs = sy @ syncs' \<and> counts = length sy # counts'"
  using assms by (auto split: sum.splits prod.splits)

lemma filter_batchD:
  assumes "vn_queue_submission_filter_batch_wsi_semaphores dev submit b base = (dev1, b1)"
  shows "\<exists>dst.
    filter_wsi_semaphores dev (pWaitSemaphores b) = (dev1, dst) \<and>
    b1 = b\<lparr>pWaitSemaphores := dst\<rparr>"
  using assms unfolding vn_queue_submission_filter_batch_wsi_semaphores_def
  by (auto split: prod.splits)

lemma setup_batches_loop_no_wsi:
  "setup_batches_loop submit dev base sb bs = Inr (dev', bs', syncs, counts) \<Longrightarrow>
   wait_wsi_count submit = 0 \<Longrightarrow> dev' = dev \<and> bs' = bs"
  by (induction bs arbitrary: base sb bs' syncs counts)
    (auto split: sum.splits if_splits)

lemma setup_batches_loop_effect:
  "setup_batches_loop submit dev base sb bs = Inr (dev', bs', syncs, counts) \<Longrightarrow>
   fences dev' = fences dev \<and> calls dev' = calls dev \<and>
   (\<forall>s. semaphores dev' s =
      (if wait_wsi_count submit \<noteq> 0 \<and> s \<in> set (concat (map pWaitSemaphores bs)) \<and>
          wait_is_wsi dev s
       then reset_wsi_obj (semaphores dev s) else semaphores dev s))"
proof (induction bs arbitrary: dev base sb bs' syncs counts)
  case Nil
  then show ?case by simp
next
  case (Cons b bs)
  show ?case
  proof (cases "wait_wsi_count submit = 0")
    case True
    from setup_batches_loop_no_wsi [OF Cons.prems True] True show ?thesis by simp
  next
    case False
    from setup_batches_loop_ConsD [OF Cons.prems] obtain dev1 b1 and sy :: "(nat \<times> 64 word) list" and rest' syncs' counts' where
      st: "(if wait_wsi_count submit \<noteq> 0
            then vn_queue_submission_filter_batch_wsi_semaphores dev submit b base
            else (dev, b)) = (dev1, b1)"
      and rec: "setup_batches_loop submit dev1
         (base + (if wait_wsi_count submit \<noteq> 0 then length (pWaitSemaphores b1) else 0))
         (sb + length sy) bs = Inr (dev', rest', syncs', counts')"
      by blast
    from st False have "vn_queue_submission_filter_batch_wsi_semaphores dev submit b base =
        (dev1, b1)" by simp
    from filter_batchD [OF this] obtain dst where
      flt: "filter_wsi_semaphores dev (pWaitSemaphores b) = (dev1, dst)"
      by blast
    note e1 = filter_wsi_semaphores_effect [OF flt]
    note e2 = Cons.IH [OF rec]
    have wsi1: "wait_is_wsi dev1 s \<longleftrightarrow>
        (if s \<in> set (pWaitSemaphores b) \<and> wait_is_wsi dev s
         then wait_is_wsi (dev\<lparr>semaphores := (semaphores dev)(s := reset_wsi_obj (semaphores dev s))\<rparr>) s
         else wait_is_wsi dev s)" for s
      using e1 by (simp add: wait_is_wsi_def)
    show ?thesis
      using e1 e2 False
      by (auto simp: reset_wsi_obj_idem wsi1)
  qed
qed

lemma setup_batches_loop_kept:
  assumes "setup_batches_loop submit dev base sb bs = Inr (dev', bs', syncs, counts)"
    and "wait_wsi_count submit \<noteq> 0"
    and "distinct (filter (wait_is_wsi dev) (concat (map pWaitSemaphores bs)))"
  shows "bs' = map (\<lambda>b. b\<lparr>pWaitSemaphores :=
                          filter (\<lambda>s. \<not> wait_is_wsi dev s) (pWaitSemaphores b)\<rparr>) bs"
  using assms
proof (induction bs arbitrary: dev base sb bs' syncs counts)
  case Nil
  then show ?case by simp
next
  case (Cons b bs)
  let ?rest = "concat (map pWaitSemaphores bs)"
  from setup_batches_loop_ConsD [OF Cons.prems(1)]
  obtain dev1 b1 and sy :: "(nat \<times> 64 word) list" and rest' syncs' counts' where
    st: "(if wait_wsi_count submit \<noteq> 0
          then vn_queue_submission_filter_batch_wsi_semaphores dev submit b base
          else (dev, b)) = (dev1, b1)"
    and rec: "setup_batches_loop submit dev1
       (base + (if wait_wsi_count submit \<noteq> 0 then length (pWaitSemaphores b1) else 0))
       (sb + length sy) bs = Inr (dev', rest', syncs', counts')"
    and out: "bs' = b1 # rest'"
    by blast
  from st Cons.prems(2) have "vn_queue_submission_filter_batch_wsi_semaphores dev submit b base =
      (dev1, b1)" by simp
  from filter_batchD [OF this] obtain dst where
    flt: "filter_wsi_semaphores dev (pWaitSemaphores b) = (dev1, dst)"
    and b1: "b1 = b\<lparr>pWaitSemaphores := dst\<rparr>"
    by blast
  from Cons.prems(3) have
    d1: "distinct (filter (wait_is_wsi dev) (pWaitSemaphores b))"
    and d2: "distinct (filter (wait_is_wsi dev) ?rest)"
    and d3: "\<And>s. s \<in> set (pWaitSemaphores b) \<Longrightarrow> wait_is_wsi dev s \<Longrightarrow> s \<notin> set ?rest"
    by auto
  from filter_wsi_semaphores_kept [OF flt d1]
  have dst: "dst = filter (\<lambda>s. \<not> wait_is_wsi dev s) (pWaitSemaphores b)" .
  note e1 = filter_wsi_semaphores_effect [OF flt]
  have same: "wait_is_wsi dev1 s = wait_is_wsi dev s" if "s \<in> set ?rest" for s
    using e1 d3 [of s] that by (auto simp: wait_is_wsi_def)
  then have f1: "filter (wait_is_wsi dev1) ?rest = filter (wait_is_wsi dev) ?rest"
    by (intro filter_cong) simp_all
  with d2 have "distinct (filter (wait_is_wsi dev1) ?rest)" by simp
  from Cons.IH [OF rec Cons.prems(2) this]
  have "rest' = map (\<lambda>b. b\<lparr>pWaitSemaphores :=
                      filter (\<lambda>s. \<not> wait_is_wsi dev1 s) (pWaitSemaphores b)\<rparr>) bs" .
  moreover have "filter (\<lambda>s. \<not> wait_is_wsi dev1 s) (pWaitSemaphores c) =
      filter (\<lambda>s. \<not> wait_is_wsi dev s) (pWaitSemaphores c)" if "c \<in> set bs" for c
    using that same by (intro filter_cong) auto
  ultimately have "rest' = map (\<lambda>b. b\<lparr>pWaitSemaphores :=
                      filter (\<lambda>s. \<not> wait_is_wsi dev s) (pWaitSemaphores b)\<rparr>) bs"
    by simp
  with out b1 dst show ?case by simp
qed

definition permanent_not_wsi :: "vn_device \<Rightarrow> bool" where
  "permanent_not_wsi dev \<longleftrightarrow>
     (\<forall>s. type (permanent (semaphores dev s)) \<noteq> VN_SYNC_TYPE_WSI_SIGNALED)"

definition reset_primitives :: "vn_device \<Rightarrow> nat list \<Rightarrow> nat set" where
  "reset_primitives dev ws =
     {sync (permanent (semaphores dev s)) | s.
        s \<in> set ws \<and> wait_is_wsi dev s \<and>
        type (permanent (semaphores dev s)) = VN_SYNC_TYPE_SYNC}"

lemma reset_wsi_renderer_syncs:
  assumes "wait_is_wsi dev s" "permanent_not_wsi dev"
  shows "renderer_syncs (vn_semaphore_reset_wsi dev s) =
     (if type (permanent (semaphores dev s)) = VN_SYNC_TYPE_SYNC
      then (renderer_syncs dev)(sync (permanent (semaphores dev s)) := SYNC_VALUE 0)
      else renderer_syncs dev)"
proof -
  from assms have "payload (semaphores dev s) = TEMPORARY"
    by (cases "payload (semaphores dev s)")
      (auto simp: wait_is_wsi_def active_payload_def permanent_not_wsi_def)
  with assms(1) have "type (temporary (semaphores dev s)) = VN_SYNC_TYPE_WSI_SIGNALED"
    by (simp add: wait_is_wsi_def active_payload_def)
  then show ?thesis
    by (simp add: vn_semaphore_reset_wsi_def vn_sync_payload_release_def
        vn_renderer_sync_reset_def Let_def)
qed

lemma reset_wsi_not_wsi:
  assumes "permanent_not_wsi dev"
  shows "\<not> wait_is_wsi (vn_semaphore_reset_wsi dev s) s"
  using assms
  by (simp add: wait_is_wsi_def reset_wsi_semaphores reset_wsi_obj_def active_payload_def
      permanent_not_wsi_def)

lemma reset_wsi_permanent_not_wsi:
  "permanent_not_wsi dev \<Longrightarrow> permanent_not_wsi (vn_semaphore_reset_wsi dev s)"
  by (simp add: permanent_not_wsi_def reset_wsi_semaphores reset_wsi_obj_def)

lemma filter_wsi_semaphores_renderer:
  assumes "filter_wsi_semaphores dev ws = (dev', dst)" "permanent_not_wsi dev"
  shows "permanent_not_wsi dev' \<and>
         (\<forall>x. renderer_syncs dev' x =
            (if x \<in> reset_primitives dev ws then SYNC_VALUE 0 else renderer_syncs dev x))"
  using assms
proof (induction ws arbitrary: dev dst)
  case Nil
  then show ?case by (simp add: reset_primitives_def)
next
  case (Cons w ws)
  show ?case
  proof (cases "wait_is_wsi dev w")
    case True
    let ?d = "vn_semaphore_reset_wsi dev w"
    from True Cons.prems have rec: "filter_wsi_semaphores ?d ws = (dev', dst)"
      by (simp add: wait_is_wsi_def)
    note wf1 = reset_wsi_permanent_not_wsi [OF Cons.prems(2), of w]
    note ih = Cons.IH [OF rec wf1]
    have wsi1: "wait_is_wsi ?d s \<longleftrightarrow> s \<noteq> w \<and> wait_is_wsi dev s" for s
      using reset_wsi_not_wsi [OF Cons.prems(2), of w]
      by (cases "s = w") (simp_all add: wait_is_wsi_def reset_wsi_semaphores)
    have perm1: "permanent (semaphores ?d s) = permanent (semaphores dev s)" for s
      by (simp add: reset_wsi_semaphores reset_wsi_obj_def)
    have set1: "reset_primitives dev (w # ws) =
        reset_primitives ?d ws \<union>
        (if type (permanent (semaphores dev w)) = VN_SYNC_TYPE_SYNC
         then {sync (permanent (semaphores dev w))} else {})"
      using True by (auto simp: reset_primitives_def wsi1 perm1)
    show ?thesis
      using ih by (auto simp: set1 reset_wsi_renderer_syncs [OF True Cons.prems(2)])
  next
    case False
    with Cons.prems obtain dst' where
      rec: "filter_wsi_semaphores dev ws = (dev', dst')"
      by (auto simp: wait_is_wsi_def split: prod.splits)
    have "reset_primitives dev (w # ws) = reset_primitives dev ws"
      using False by (auto simp: reset_primitives_def)
    with Cons.IH [OF rec Cons.prems(2)] show ?thesis by simp
  qed
qed

lemma filter_wsi_semaphores_kept_waits:
  assumes "filter_wsi_semaphores dev ws = (dev', dst)" and "permanent_not_wsi dev"
  shows "dst = kept_waits dev {} ws"
proof -
  have "dst = kept_waits dev0 seen ws"
    if "filter_wsi_semaphores dev ws = (dev', dst)" "permanent_not_wsi dev"
      "\<And>s. wait_is_wsi dev s \<longleftrightarrow> wait_is_wsi dev0 s \<and> s \<notin> seen"
    for dev dev0 seen dst
    using that
  proof (induction ws arbitrary: dev seen dst)
    case Nil
    then show ?case by simp
  next
    case (Cons w ws)
    show ?case
    proof (cases "wait_is_wsi dev w")
      case True
      let ?d = "vn_semaphore_reset_wsi dev w"
      from True Cons.prems(1) have rec: "filter_wsi_semaphores ?d ws = (dev', dst)"
        by (simp add: wait_is_wsi_def)
      have wsi1: "wait_is_wsi ?d s \<longleftrightarrow> wait_is_wsi dev0 s \<and> s \<notin> insert w seen" for s
        using reset_wsi_not_wsi [OF Cons.prems(2), of w] Cons.prems(3) [of s]
        by (cases "s = w") (simp_all add: reset_wsi_other)
      from Cons.IH [OF rec reset_wsi_permanent_not_wsi [OF Cons.prems(2)] wsi1]
      have "dst = kept_waits dev0 (insert w seen) ws" .
      with True Cons.prems(3) [of w] show ?thesis by simp
    next
      case False
      with Cons.prems(1) obtain dst' where
        rec: "filter_wsi_semaphores dev ws = (dev', dst')" and dst: "dst = w # dst'"
        by (auto simp: wait_is_wsi_def split: prod.splits)
      from Cons.IH [OF rec Cons.prems(2,3)] have "dst' = kept_waits dev0 seen ws" .
      with dst False Cons.prems(3) [of w] show ?thesis by auto
    qed
  qed
  from this [OF assms, of dev "{}"] show ?thesis by simp
qed

lemma setup_batches_loop_renderer:
  assumes "setup_batches_loop submit dev base sb bs = Inr (dev', bs', syncs, counts)"
    and "wait_wsi_count submit \<noteq> 0" and "permanent_not_wsi dev"
  shows "\<forall>x. renderer_syncs dev' x =
            (if x \<in> reset_primitives dev (concat (map pWaitSemaphores bs))
             then SYNC_VALUE 0 else renderer_syncs dev x)"
  using assms
proof (induction bs arbitrary: dev base sb bs' syncs counts)
  case Nil
  then show ?case by (simp add: reset_primitives_def)
next
  case (Cons b bs)
  from setup_batches_loop_ConsD [OF Cons.prems(1)]
  obtain dev1 b1 and sy :: "(nat \<times> 64 word) list" and rest' syncs' counts' where
    st: "(if wait_wsi_count submit \<noteq> 0
          then vn_queue_submission_filter_batch_wsi_semaphores dev submit b base
          else (dev, b)) = (dev1, b1)"
    and rec: "setup_batches_loop submit dev1
       (base + (if wait_wsi_count submit \<noteq> 0 then length (pWaitSemaphores b1) else 0))
       (sb + length sy) bs = Inr (dev', rest', syncs', counts')"
    by blast
  from st Cons.prems(2) have "vn_queue_submission_filter_batch_wsi_semaphores dev submit b base =
      (dev1, b1)" by simp
  from filter_batchD [OF this] obtain dst where
    flt: "filter_wsi_semaphores dev (pWaitSemaphores b) = (dev1, dst)"
    by blast
  note r1 = filter_wsi_semaphores_renderer [OF flt Cons.prems(3)]
  note e1 = filter_wsi_semaphores_effect [OF flt]
  from r1 have wf1: "permanent_not_wsi dev1" by simp
  note ih = Cons.IH [OF rec Cons.prems(2) wf1]
  have perm1: "permanent (semaphores dev1 s) = permanent (semaphores dev s)" for s
    using e1 by (simp add: reset_wsi_obj_def)
  have wsi1: "wait_is_wsi dev1 s \<longleftrightarrow> wait_is_wsi dev s \<and> s \<notin> set (pWaitSemaphores b)" for s
    using e1 Cons.prems(3)
    by (auto simp: wait_is_wsi_def reset_wsi_obj_def active_payload_def permanent_not_wsi_def)
  have "reset_primitives dev (concat (map pWaitSemaphores (b # bs))) =
      reset_primitives dev (pWaitSemaphores b) \<union>
      reset_primitives dev1 (concat (map pWaitSemaphores bs))"
    by (auto simp: reset_primitives_def wsi1 perm1)
  with ih r1 show ?case by auto
qed


definition counted :: "VkStructureType \<Rightarrow> vn_device \<Rightarrow> vk_batch list \<Rightarrow> nat option \<Rightarrow> vn_queue_submission" where
  "counted bt dev bs f = vn_queue_submission_count_semaphores dev
      \<lparr>batch_type = bt, batches = bs, fence = f,
                     wait_semaphore_count = 0, wait_wsi_count = 0,
                     signal_semaphore_count = 0, signal_device_only_count = 0,
                     signal_timeline_count = 0, sync_count = 0,
                     temp_storage = False, temp_syncs = [], temp_batch_sync_counts = []\<rparr>"

lemma counted_fields:
  "batch_type (counted bt dev bs f) = bt"
  "batches (counted bt dev bs f) = bs"
  "fence (counted bt dev bs f) = f"
  "wait_semaphore_count (counted bt dev bs f) = length (concat (map pWaitSemaphores bs))"
  "wait_wsi_count (counted bt dev bs f) =
     length (filter (wait_is_wsi dev) (concat (map pWaitSemaphores bs)))"
  "signal_semaphore_count (counted bt dev bs f) = length (concat (map pSignalSemaphores bs))"
  "signal_device_only_count (counted bt dev bs f) =
     length (filter (signal_is_device_only bt dev) (concat (map pSignalSemaphores bs)))"
  "signal_timeline_count (counted bt dev bs f) =
     length (filter (signal_is_timeline bt dev) (concat (map pSignalSemaphores bs)))"
  "sync_count (counted bt dev bs f) =
     length (concat (map pSignalSemaphores bs)) -
     length (filter (signal_is_device_only bt dev) (concat (map pSignalSemaphores bs))) +
     (if f \<noteq> None then 1 else 0)"
  "temp_syncs (counted bt dev bs f) = []"
  "temp_batch_sync_counts (counted bt dev bs f) = []"
  by (simp_all add: counted_def vn_queue_submission_count_semaphores_def Let_def)

lemma alloc_size_counted_zero:
  assumes "alloc_size (counted bt dev bs f) = 0"
  shows "wait_wsi_count (counted bt dev bs f) = 0 \<and> sync_count (counted bt dev bs f) = 0"
proof -
  have pos: "0 < sizeof_batch bt" by (cases bt) (simp_all add: sizeof_batch_def)
  have "bs \<noteq> []" if "wait_wsi_count (counted bt dev bs f) \<noteq> 0"
    using that by (auto simp: counted_fields)
  with assms pos show ?thesis
    by (auto simp: alloc_size_def counted_fields(1,2) Let_def split: if_splits)
qed

lemma prepare_successD:
  assumes "vn_queue_submission_prepare bt dev bs f alloc_ok = Inr (VK_SUCCESS, dev', submit)"
  shows "(alloc_size (counted bt dev bs f) = 0 \<and> dev' = dev \<and>
          submit = (counted bt dev bs f)\<lparr>temp_storage := False\<rparr>) \<or>
         (alloc_size (counted bt dev bs f) \<noteq> 0 \<and> alloc_ok \<and>
          (\<exists>bs' syncs counts fs.
             setup_batches_loop ((counted bt dev bs f)\<lparr>temp_storage := True\<rparr>) dev 0 0 bs =
               Inr (dev', bs', syncs, counts) \<and>
             vn_queue_submission_setup_fence_sync dev'
               ((counted bt dev bs f)\<lparr>temp_storage := True\<rparr>) (length syncs) = Inr fs \<and>
             length syncs + length fs = sync_count (counted bt dev bs f) \<and>
             submit = (counted bt dev bs f)\<lparr>temp_storage := True, batches := bs',
                        temp_syncs := syncs @ fs, temp_batch_sync_counts := counts\<rparr>))"
  using assms
  unfolding vn_queue_submission_prepare_def counted_def [symmetric] Let_def
    vn_queue_submission_alloc_storage_def vn_queue_submission_setup_batches_def
  by (auto simp: counted_fields split: if_splits sum.splits prod.splits)

lemma batch_eqI:
  "b'\<lparr>pWaitSemaphores := []\<rparr> = b\<lparr>pWaitSemaphores := []\<rparr> \<Longrightarrow> pWaitSemaphores b' = w \<Longrightarrow>
   b' = b\<lparr>pWaitSemaphores := w\<rparr>"
  by (cases b; cases b') simp

lemma batches_eqI:
  assumes "map (\<lambda>b. b\<lparr>pWaitSemaphores := []\<rparr>) bs' = map (\<lambda>b. b\<lparr>pWaitSemaphores := []\<rparr>) bs"
    and "map pWaitSemaphores bs' = map g bs"
  shows "bs' = map (\<lambda>b. b\<lparr>pWaitSemaphores := g b\<rparr>) bs"
  using assms
proof (induction bs arbitrary: bs')
  case Nil
  then show ?case by simp
next
  case (Cons b bs)
  then obtain c cs where "bs' = c # cs" by (cases bs') auto
  with Cons show ?case by (auto intro: batch_eqI)
qed



text \<open>
  An example device: the two fences from above; semaphore 300 is binary and WSI-signaled,
  400 is a timeline semaphore, 500 is binary with an imported permanent primitive and
  WSI-signaled, 600 is binary and untouched. \<open>wait_batch\<close> waits on 300, 600 and 500.
\<close>

definition example_semaphores :: "nat \<Rightarrow> vn_semaphore" where
  "example_semaphores = no_semaphore
     (300 := \<lparr>payload = TEMPORARY,
              permanent = \<lparr>type = VN_SYNC_TYPE_DEVICE_ONLY, sync = 301\<rparr>,
              temporary = \<lparr>type = VN_SYNC_TYPE_WSI_SIGNALED, sync = 302\<rparr>,
              sem_type = VK_SEMAPHORE_TYPE_BINARY\<rparr>,
      400 := \<lparr>payload = PERMANENT,
              permanent = \<lparr>type = VN_SYNC_TYPE_SYNC, sync = 401\<rparr>,
              temporary = \<lparr>type = VN_SYNC_TYPE_INVALID, sync = 402\<rparr>,
              sem_type = VK_SEMAPHORE_TYPE_TIMELINE\<rparr>,
      500 := \<lparr>payload = TEMPORARY,
              permanent = \<lparr>type = VN_SYNC_TYPE_SYNC, sync = 501\<rparr>,
              temporary = \<lparr>type = VN_SYNC_TYPE_WSI_SIGNALED, sync = 502\<rparr>,
              sem_type = VK_SEMAPHORE_TYPE_BINARY\<rparr>,
      600 := \<lparr>payload = PERMANENT,
              permanent = \<lparr>type = VN_SYNC_TYPE_DEVICE_ONLY, sync = 601\<rparr>,
              temporary = \<lparr>type = VN_SYNC_TYPE_INVALID, sync = 602\<rparr>,
              sem_type = VK_SEMAPHORE_TYPE_BINARY\<rparr>)"

definition example_device :: vn_device where
  "example_device =
     two_fences\<lparr>semaphores := example_semaphores,
                 renderer_syncs := (renderer_syncs two_fences)
                    (401 := SYNC_VALUE 0, 501 := SYNC_VALUE 3),
                 calls := []\<rparr>"

lemma example_device_simps:
  "semaphores example_device = example_semaphores"
  "fences example_device = fences two_fences"
  "calls example_device = []"
  "renderer_syncs example_device 501 = SYNC_VALUE 3"
  by (simp_all add: example_device_def)

lemma example_semaphore_simps:
  "example_semaphores 300 = \<lparr>payload = TEMPORARY,
              permanent = \<lparr>type = VN_SYNC_TYPE_DEVICE_ONLY, sync = 301\<rparr>,
              temporary = \<lparr>type = VN_SYNC_TYPE_WSI_SIGNALED, sync = 302\<rparr>,
              sem_type = VK_SEMAPHORE_TYPE_BINARY\<rparr>"
  "example_semaphores 400 = \<lparr>payload = PERMANENT,
              permanent = \<lparr>type = VN_SYNC_TYPE_SYNC, sync = 401\<rparr>,
              temporary = \<lparr>type = VN_SYNC_TYPE_INVALID, sync = 402\<rparr>,
              sem_type = VK_SEMAPHORE_TYPE_TIMELINE\<rparr>"
  "example_semaphores 500 = \<lparr>payload = TEMPORARY,
              permanent = \<lparr>type = VN_SYNC_TYPE_SYNC, sync = 501\<rparr>,
              temporary = \<lparr>type = VN_SYNC_TYPE_WSI_SIGNALED, sync = 502\<rparr>,
              sem_type = VK_SEMAPHORE_TYPE_BINARY\<rparr>"
  "example_semaphores 600 = \<lparr>payload = PERMANENT,
              permanent = \<lparr>type = VN_SYNC_TYPE_DEVICE_ONLY, sync = 601\<rparr>,
              temporary = \<lparr>type = VN_SYNC_TYPE_INVALID, sync = 602\<rparr>,
              sem_type = VK_SEMAPHORE_TYPE_BINARY\<rparr>"
  by (simp_all add: example_semaphores_def)

lemma example_permanent_not_wsi: "permanent_not_wsi example_device"
  by (simp add: permanent_not_wsi_def example_device_simps example_semaphores_def
      no_semaphore_def no_payload_def)

definition wait_batch :: vk_batch where
  "wait_batch = \<lparr>pSignalSemaphoreValues = None, pWaitSemaphores = [300, 600, 500], work = 1,
                  pSignalSemaphores = [600]\<rparr>"

lemma wait_batch_simps:
  "pWaitSemaphores wait_batch = [300, 600, 500]"
  "pSignalSemaphores wait_batch = [600]"
  "pSignalSemaphoreValues wait_batch = None"
  by (simp_all add: wait_batch_def)

lemma wait_batch_counted:
  "wait_semaphore_count (counted bt example_device [wait_batch] None) = 3"
  "wait_wsi_count (counted bt example_device [wait_batch] None) = 2"
  "signal_semaphore_count (counted bt example_device [wait_batch] None) = 1"
  "signal_device_only_count (counted bt example_device [wait_batch] None) = 1"
  "sync_count (counted bt example_device [wait_batch] None) = 0"
  by (simp_all add: counted_fields wait_batch_simps wait_is_wsi_def signal_is_device_only_def
     signal_counted_payload_def active_payload_def example_device_simps
     example_semaphore_simps)

text \<open>
  When no WSI-signaled semaphore is named twice among the waits of a submission, and no
  permanent payload is WSI-signaled (the code never makes one so), the prepared batches are the
  caller's batches with exactly the wait semaphores that were not WSI-signaled, in their
  order; every WSI-signaled wait semaphore has its temporary payload Invalid and its permanent
  payload active, and a permanent primitive has counter 0; every other semaphore is as it
  was.
\<close>

lemma prepare_filters_distinct_wsi_waits:
  assumes prep: "vn_queue_submission_prepare bt dev bs f alloc_ok = Inr (VK_SUCCESS, dev', submit)"
    and once: "distinct (filter (wait_is_wsi dev) (concat (map pWaitSemaphores bs)))"
    and wf: "permanent_not_wsi dev"
  shows "batches submit =
           map (\<lambda>b. b\<lparr>pWaitSemaphores :=
                        filter (\<lambda>s. \<not> wait_is_wsi dev s) (pWaitSemaphores b)\<rparr>) bs \<and>
         (\<forall>s. semaphores dev' s =
            (if s \<in> set (concat (map pWaitSemaphores bs)) \<and> wait_is_wsi dev s
             then reset_wsi_obj (semaphores dev s) else semaphores dev s)) \<and>
         (\<forall>s\<in>set (concat (map pWaitSemaphores bs)).
            wait_is_wsi dev s \<and> type (permanent (semaphores dev s)) = VN_SYNC_TYPE_SYNC \<longrightarrow>
            renderer_syncs dev' (sync (permanent (semaphores dev s))) = SYNC_VALUE 0)"
proof -
  let ?c = "counted bt dev bs f"
  let ?waits = "concat (map pWaitSemaphores bs)"
  let ?keep = "\<lambda>b. filter (\<lambda>s. \<not> wait_is_wsi dev s) (pWaitSemaphores b)"
  have no_wsi: ?thesis
    if z: "wait_wsi_count ?c = 0" and same: "dev' = dev" "batches submit = bs"
  proof -
    from z have "length (filter (wait_is_wsi dev) ?waits) = 0"
      by (simp add: counted_fields)
    then have all: "\<And>s. s \<in> set ?waits \<Longrightarrow> \<not> wait_is_wsi dev s"
      by (auto simp: filter_empty_conv)
    then have "?keep b = pWaitSemaphores b" if "b \<in> set bs" for b
      using that by (auto simp: filter_id_conv)
    then have "map (\<lambda>b. b\<lparr>pWaitSemaphores := ?keep b\<rparr>) bs = bs"
      by (simp add: map_idI)
    with same have 1: "batches submit = map (\<lambda>b. b\<lparr>pWaitSemaphores := ?keep b\<rparr>) bs"
      by simp
    have 2: "\<forall>s. semaphores dev' s =
            (if s \<in> set ?waits \<and> wait_is_wsi dev s
             then reset_wsi_obj (semaphores dev s) else semaphores dev s)"
      using all same(1) by auto
    have 3: "\<forall>s\<in>set ?waits.
            wait_is_wsi dev s \<and> type (permanent (semaphores dev s)) = VN_SYNC_TYPE_SYNC \<longrightarrow>
            renderer_syncs dev' (sync (permanent (semaphores dev s))) = SYNC_VALUE 0"
      using all by blast
    from 1 2 3 show ?thesis by blast
  qed
  from prepare_successD [OF prep] show ?thesis
  proof (elim disjE conjE exE)
    assume "alloc_size ?c = 0" and same: "dev' = dev" "submit = ?c\<lparr>temp_storage := False\<rparr>"
    from alloc_size_counted_zero [OF this(1)] have "wait_wsi_count ?c = 0" by simp
    from this same show ?thesis by (intro no_wsi) (simp_all add: counted_fields)
  next
    fix bs' syncs counts fs
    assume loop: "setup_batches_loop (?c\<lparr>temp_storage := True\<rparr>) dev 0 0 bs =
        Inr (dev', bs', syncs, counts)"
      and sub: "submit = ?c\<lparr>temp_storage := True, batches := bs',
          temp_syncs := syncs @ fs, temp_batch_sync_counts := counts\<rparr>"
    let ?s = "?c\<lparr>temp_storage := True\<rparr>"
    show ?thesis
    proof (cases "wait_wsi_count ?c = 0")
      case True
      then have "wait_wsi_count ?s = 0" by simp
      from setup_batches_loop_no_wsi [OF loop this] True sub
      show ?thesis by (intro no_wsi) simp_all
    next
      case False
      then have nz: "wait_wsi_count ?s \<noteq> 0" by simp
      from setup_batches_loop_kept [OF loop nz once]
      have bs': "bs' = map (\<lambda>b. b\<lparr>pWaitSemaphores := ?keep b\<rparr>) bs" .
      note e = setup_batches_loop_effect [OF loop]
      note r = setup_batches_loop_renderer [OF loop nz wf]
      have "renderer_syncs dev' (sync (permanent (semaphores dev s))) = SYNC_VALUE 0"
        if "s \<in> set ?waits" "wait_is_wsi dev s"
          "type (permanent (semaphores dev s)) = VN_SYNC_TYPE_SYNC" for s
      proof -
        from that have "sync (permanent (semaphores dev s)) \<in> reset_primitives dev ?waits"
          unfolding reset_primitives_def by blast
        with r show ?thesis by simp
      qed
      moreover from bs' sub have "batches submit =
          map (\<lambda>b. b\<lparr>pWaitSemaphores := ?keep b\<rparr>) bs" by simp
      moreover from e nz have "\<forall>s. semaphores dev' s =
            (if s \<in> set ?waits \<and> wait_is_wsi dev s
             then reset_wsi_obj (semaphores dev s) else semaphores dev s)" by simp
      ultimately show ?thesis by blast
    qed
  qed
qed

text \<open>
  A submission that waits twice on the WSI-signaled semaphore 300 and carries fence 200.
\<close>

definition twice_batch :: vk_batch where
  "twice_batch = \<lparr>pSignalSemaphoreValues = None, pWaitSemaphores = [300, 300], work = 1,
                   pSignalSemaphores = []\<rparr>"

lemma twice_batch_simps:
  "pWaitSemaphores twice_batch = [300, 300]"
  "pSignalSemaphores twice_batch = []"
  "pSignalSemaphoreValues twice_batch = None"
  by (simp_all add: twice_batch_def)

lemma twice_batch_counted:
  "wait_semaphore_count (counted bt example_device [twice_batch] (Some 200)) = 2"
  "wait_wsi_count (counted bt example_device [twice_batch] (Some 200)) = 2"
  "signal_semaphore_count (counted bt example_device [twice_batch] (Some 200)) = 0"
  "signal_device_only_count (counted bt example_device [twice_batch] (Some 200)) = 0"
  "signal_timeline_count (counted bt example_device [twice_batch] (Some 200)) = 0"
  "sync_count (counted bt example_device [twice_batch] (Some 200)) = 1"
  by (simp_all add: counted_fields twice_batch_def wait_is_wsi_def active_payload_def
      example_device_simps example_semaphore_simps)

lemma twice_batch_prepared:
  "\<exists>dev' submit.
     vn_queue_submission_prepare VK_STRUCTURE_TYPE_SUBMIT_INFO example_device [twice_batch]
       (Some 200) True = Inr (VK_SUCCESS, dev', submit) \<and>
     batches submit = [twice_batch\<lparr>pWaitSemaphores := [300]\<rparr>] \<and>
     fence submit = Some 200 \<and> signal_timeline_count submit = 0 \<and> sync_count submit = 1 \<and>
     temp_syncs submit = [(201, 1)] \<and> calls dev' = [] \<and> \<not> wait_is_wsi dev' 300"
  unfolding vn_queue_submission_prepare_def counted_def [symmetric] Let_def
  by (simp add: vn_queue_submission_alloc_storage_def alloc_size_def sizeof_batch_def
      vn_queue_submission_setup_batches_def counted_fields(1,2,3) twice_batch_counted
      twice_batch_simps vn_queue_submission_filter_batch_wsi_semaphores_def
      vn_queue_submission_setup_fence_sync_def
      wait_is_wsi_def active_payload_def example_device_simps example_semaphore_simps
      two_fences_fence_200 reset_wsi_semaphores reset_wsi_obj_def reset_wsi_frame Let_def)

text \<open>
  C2, at a submission that it covers and the code treats otherwise. Semaphore 300 is
  WSI-signaled when the submission is made, and both wait entries of the batch name it.
  Counting finds two WSI-signaled entries, so \<^verbatim>\<open>vn_queue_submission_alloc_storage\<close> reserves no
  slot of \<^verbatim>\<open>temp.semaphores\<close>: the 92 bytes are the batch, the fence's primitive, its value and
  the batch's sync count. The filter resets 300 at the first entry; at the second entry 300 is
  no longer WSI-signaled, so the entry is stored in \<^verbatim>\<open>dst_sems[0]\<close> and counted. The preparation
  returns \<^verbatim>\<open>VK_SUCCESS\<close> with a batch of one wait semaphore, and \<^verbatim>\<open>vn_QueueSubmit\<close> sends that
  batch to the renderer and returns \<^verbatim>\<open>VK_SUCCESS\<close>. (In the C code \<^verbatim>\<open>dst_sems[0]\<close> is here the
  address of \<^verbatim>\<open>temp.syncs[0]\<close>, where the fence's primitive is stored afterwards; the theorem
  speaks of the number of wait semaphores, not of what that slot holds in the end.)
\<close>

theorem queue_submit_keeps_repeated_wsi_wait:
  "wait_is_wsi example_device 300 \<and>
   pWaitSemaphores twice_batch = [300, 300] \<and>
   wait_semaphore_count (counted VK_STRUCTURE_TYPE_SUBMIT_INFO example_device [twice_batch]
       (Some 200)) -
     wait_wsi_count (counted VK_STRUCTURE_TYPE_SUBMIT_INFO example_device [twice_batch]
       (Some 200)) = 0 \<and>
   alloc_size (counted VK_STRUCTURE_TYPE_SUBMIT_INFO example_device [twice_batch]
       (Some 200)) = 92 \<and>
   (case vn_queue_submission_prepare_submit example_device [twice_batch] (Some 200) True of
      Inl e \<Rightarrow> False
    | Inr (r, dev', submit) \<Rightarrow>
        r = VK_SUCCESS \<and> map (\<lambda>b. length (pWaitSemaphores b)) (batches submit) = [1]) \<and>
   (case vn_QueueSubmit example_device [twice_batch] (Some 200) True VK_SUCCESS of
      Inl e \<Rightarrow> False
    | Inr (r, dev') \<Rightarrow>
        r = VK_SUCCESS \<and> \<not> wait_is_wsi dev' 300 \<and>
        (case calls dev' of
           [Call_vkQueueSubmit [b] f, Renderer_submit syncs, Roundtrip] \<Rightarrow>
             length (pWaitSemaphores b) = 1 \<and> f = Some 200 \<and> syncs = [(201, 1)]
         | _ \<Rightarrow> False))"
proof -
  have wsi: "wait_is_wsi example_device 300"
    by (simp add: wait_is_wsi_def active_payload_def example_device_simps
        example_semaphore_simps)
  have room: "wait_semaphore_count (counted VK_STRUCTURE_TYPE_SUBMIT_INFO example_device
        [twice_batch] (Some 200)) -
      wait_wsi_count (counted VK_STRUCTURE_TYPE_SUBMIT_INFO example_device [twice_batch]
        (Some 200)) = 0"
    by (simp add: twice_batch_counted)
  have size: "alloc_size (counted VK_STRUCTURE_TYPE_SUBMIT_INFO example_device [twice_batch]
       (Some 200)) = 92"
    by (simp add: alloc_size_def twice_batch_counted counted_fields(1,2) sizeof_batch_def)
  from twice_batch_prepared obtain dev1 submit where
    prep: "vn_queue_submission_prepare VK_STRUCTURE_TYPE_SUBMIT_INFO example_device
       [twice_batch] (Some 200) True = Inr (VK_SUCCESS, dev1, submit)"
    and fields: "batches submit = [twice_batch\<lparr>pWaitSemaphores := [300]\<rparr>]"
      "fence submit = Some 200" "signal_timeline_count submit = 0" "sync_count submit = 1"
      "temp_syncs submit = [(201, 1)]"
    and dev1: "calls dev1 = []" "\<not> wait_is_wsi dev1 300"
    by blast
  have prepared:
    "(case vn_queue_submission_prepare_submit example_device [twice_batch] (Some 200) True of
        Inl e \<Rightarrow> False
      | Inr (r, dev', submit) \<Rightarrow>
          r = VK_SUCCESS \<and> map (\<lambda>b. length (pWaitSemaphores b)) (batches submit) = [1])"
    by (simp add: vn_queue_submission_prepare_submit_def prep fields)
  have run: "vn_QueueSubmit example_device [twice_batch] (Some 200) True VK_SUCCESS =
      Inr (VK_SUCCESS,
           dev1\<lparr>calls := [Call_vkQueueSubmit [twice_batch\<lparr>pWaitSemaphores := [300]\<rparr>]
                             (Some 200),
                           Renderer_submit [(201, 1)], Roundtrip]\<rparr>)"
    by (simp add: vn_QueueSubmit_def vn_queue_submit_def prep fields dev1 call_command_def
        vn_queue_submit_syncs_def emit_def Let_def)
  from dev1(2) have still: "\<not> wait_is_wsi (dev1\<lparr>calls :=
      [Call_vkQueueSubmit [twice_batch\<lparr>pWaitSemaphores := [300]\<rparr>] (Some 200),
       Renderer_submit [(201, 1)], Roundtrip]\<rparr>) 300"
    by (simp add: wait_is_wsi_def)
  from wsi room size prepared still show ?thesis
    by (simp add: run twice_batch_simps)
qed

text \<open>
  A submission whose waits name no WSI-signaled semaphore twice: the batch loses the waits on
  300 and 500 and keeps the one on 600.
\<close>

lemma prepare_filters_example:
  "(case vn_queue_submission_prepare VK_STRUCTURE_TYPE_SUBMIT_INFO example_device
           [wait_batch] None True of
      Inl e \<Rightarrow> False
    | Inr (r, dev', submit) \<Rightarrow>
        r = VK_SUCCESS \<and>
        batches submit = [wait_batch\<lparr>pWaitSemaphores := [600]\<rparr>] \<and>
        semaphores dev' 300 =
          \<lparr>payload = PERMANENT,
           permanent = \<lparr>type = VN_SYNC_TYPE_DEVICE_ONLY, sync = 301\<rparr>,
           temporary = \<lparr>type = VN_SYNC_TYPE_INVALID, sync = 302\<rparr>,
           sem_type = VK_SEMAPHORE_TYPE_BINARY\<rparr> \<and>
        semaphores dev' 500 =
          \<lparr>payload = PERMANENT,
           permanent = \<lparr>type = VN_SYNC_TYPE_SYNC, sync = 501\<rparr>,
           temporary = \<lparr>type = VN_SYNC_TYPE_INVALID, sync = 502\<rparr>,
           sem_type = VK_SEMAPHORE_TYPE_BINARY\<rparr> \<and>
        semaphores dev' 600 = example_semaphores 600 \<and>
        renderer_syncs example_device 501 = SYNC_VALUE 3 \<and>
        renderer_syncs dev' 501 = SYNC_VALUE 0)"
proof -
  have "\<exists>dev' submit. vn_queue_submission_prepare VK_STRUCTURE_TYPE_SUBMIT_INFO
      example_device [wait_batch] None True = Inr (VK_SUCCESS, dev', submit)"
    unfolding vn_queue_submission_prepare_def counted_def [symmetric] Let_def
    by (simp add: vn_queue_submission_alloc_storage_def alloc_size_def sizeof_batch_def
        vn_queue_submission_setup_batches_def counted_fields(1,2,3) wait_batch_counted
        wait_batch_simps vn_queue_submission_filter_batch_wsi_semaphores_def
        vn_queue_submission_setup_batch_syncs_def vn_queue_submission_setup_fence_sync_def
        wait_is_wsi_def active_payload_def example_device_simps example_semaphore_simps
        reset_wsi_semaphores reset_wsi_obj_def Let_def)
  then obtain dev' submit where
    run: "vn_queue_submission_prepare VK_STRUCTURE_TYPE_SUBMIT_INFO example_device
        [wait_batch] None True = Inr (VK_SUCCESS, dev', submit)"
    by blast
  have wsi: "wait_is_wsi example_device 300" "\<not> wait_is_wsi example_device 600"
    "wait_is_wsi example_device 500"
    by (simp_all add: wait_is_wsi_def active_payload_def example_device_simps
        example_semaphore_simps)
  then have once: "distinct (filter (wait_is_wsi example_device)
      (concat (map pWaitSemaphores [wait_batch])))"
    by (simp add: wait_batch_simps)
  note inst = prepare_filters_distinct_wsi_waits [OF run once example_permanent_not_wsi]
  from inst wsi have 1: "batches submit = [wait_batch\<lparr>pWaitSemaphores := [600]\<rparr>]"
    by (simp add: wait_batch_simps)
  from inst have sems: "\<And>s. semaphores dev' s =
      (if s \<in> set (concat (map pWaitSemaphores [wait_batch])) \<and> wait_is_wsi example_device s
       then reset_wsi_obj (semaphores example_device s) else semaphores example_device s)"
    by blast
  have 2: "semaphores dev' 300 =
          \<lparr>payload = PERMANENT,
           permanent = \<lparr>type = VN_SYNC_TYPE_DEVICE_ONLY, sync = 301\<rparr>,
           temporary = \<lparr>type = VN_SYNC_TYPE_INVALID, sync = 302\<rparr>,
           sem_type = VK_SEMAPHORE_TYPE_BINARY\<rparr>"
    by (simp add: sems wsi wait_batch_simps reset_wsi_obj_def example_device_simps
        example_semaphore_simps)
  have 3: "semaphores dev' 500 =
          \<lparr>payload = PERMANENT,
           permanent = \<lparr>type = VN_SYNC_TYPE_SYNC, sync = 501\<rparr>,
           temporary = \<lparr>type = VN_SYNC_TYPE_INVALID, sync = 502\<rparr>,
           sem_type = VK_SEMAPHORE_TYPE_BINARY\<rparr>"
    by (simp add: sems wsi wait_batch_simps reset_wsi_obj_def example_device_simps
        example_semaphore_simps)
  have 4: "semaphores dev' 600 = example_semaphores 600"
    by (simp add: sems wsi example_device_simps)
  from inst have "\<forall>s\<in>set (concat (map pWaitSemaphores [wait_batch])).
      wait_is_wsi example_device s \<and>
      type (permanent (semaphores example_device s)) = VN_SYNC_TYPE_SYNC \<longrightarrow>
      renderer_syncs dev' (sync (permanent (semaphores example_device s))) = SYNC_VALUE 0"
    by blast
  then have 5: "renderer_syncs dev' 501 = SYNC_VALUE 0"
    using wsi by (simp add: wait_batch_simps example_device_simps example_semaphore_simps)
  from run 1 2 3 4 5 show ?thesis
    by (simp add: example_device_simps)
qed

section \<open>A submission without batches\<close>

lemma prepare_no_batches_fence:
  assumes "type (active_payload (fences dev f)) = VN_SYNC_TYPE_SYNC"
  shows "vn_queue_submission_prepare bt dev [] (Some f) True =
     Inr (VK_SUCCESS, dev,
          (counted bt dev [] (Some f))\<lparr>temp_storage := True, batches := [],
             temp_syncs := [(sync (active_payload (fences dev f)), 1)],
             temp_batch_sync_counts := []\<rparr>)"
  unfolding vn_queue_submission_prepare_def counted_def [symmetric] Let_def
  using assms
  by (simp add: vn_queue_submission_alloc_storage_def alloc_size_def counted_fields
      vn_queue_submission_setup_batches_def vn_queue_submission_setup_fence_sync_def)

lemma prepare_no_batches_no_fence:
  "vn_queue_submission_prepare bt dev [] None alloc_ok =
     Inr (VK_SUCCESS, dev, (counted bt dev [] None)\<lparr>temp_storage := False\<rparr>)"
  unfolding vn_queue_submission_prepare_def counted_def [symmetric] Let_def
  by (simp add: vn_queue_submission_alloc_storage_def alloc_size_def counted_fields
      vn_queue_submission_setup_batches_def)

text \<open>
  C7. With no batches and a fence, \<^verbatim>\<open>vn_queue_submission_count_semaphores\<close> computes a
  \<^verbatim>\<open>sync_count\<close> of 1. When the fence's active payload is a primitive and the storage is
  allocated, \<^verbatim>\<open>vn_QueueSubmit\<close> sends the empty submission with the fence by a synchronous
  call; if that returns \<^verbatim>\<open>VK_SUCCESS\<close> it then submits one sync update, the fence's
  primitive with value 1, and a roundtrip, and if it returns an error it submits none.
  With no batches and no fence the synchronous call is all that happens, whatever it
  returns.
\<close>

theorem queue_submit_no_batches:
  "(batches sub = [] \<and> fence sub = Some f \<longrightarrow>
      sync_count (vn_queue_submission_count_semaphores dev sub) = 1) \<and>
   (type (active_payload (fences dev f)) = VN_SYNC_TYPE_SYNC \<longrightarrow>
      vn_QueueSubmit dev [] (Some f) True VK_SUCCESS =
        Inr (VK_SUCCESS,
             dev\<lparr>calls := calls dev @
                    [Call_vkQueueSubmit [] (Some f),
                     Renderer_submit [(sync (active_payload (fences dev f)), 1)],
                     Roundtrip]\<rparr>)) \<and>
   (type (active_payload (fences dev f)) = VN_SYNC_TYPE_SYNC \<and> r \<noteq> VK_SUCCESS \<longrightarrow>
      vn_QueueSubmit dev [] (Some f) True r =
        Inr (r, dev\<lparr>calls := calls dev @ [Call_vkQueueSubmit [] (Some f)]\<rparr>)) \<and>
   vn_QueueSubmit dev [] None alloc_ok r =
     Inr (r, dev\<lparr>calls := calls dev @ [Call_vkQueueSubmit [] None]\<rparr>)"
proof (intro conjI impI)
  assume "batches sub = [] \<and> fence sub = Some f"
  then show "sync_count (vn_queue_submission_count_semaphores dev sub) = 1"
    by (simp add: vn_queue_submission_count_semaphores_def)
next
  assume "type (active_payload (fences dev f)) = VN_SYNC_TYPE_SYNC"
  from prepare_no_batches_fence [OF this]
  show "vn_QueueSubmit dev [] (Some f) True VK_SUCCESS =
        Inr (VK_SUCCESS,
             dev\<lparr>calls := calls dev @
                    [Call_vkQueueSubmit [] (Some f),
                     Renderer_submit [(sync (active_payload (fences dev f)), 1)],
                     Roundtrip]\<rparr>)"
    by (simp add: vn_QueueSubmit_def vn_queue_submit_def counted_fields call_command_def
        vn_queue_submit_syncs_def emit_def)
next
  assume "type (active_payload (fences dev f)) = VN_SYNC_TYPE_SYNC \<and> r \<noteq> VK_SUCCESS"
  with prepare_no_batches_fence [of dev f]
  show "vn_QueueSubmit dev [] (Some f) True r =
        Inr (r, dev\<lparr>calls := calls dev @ [Call_vkQueueSubmit [] (Some f)]\<rparr>)"
    by (simp add: vn_QueueSubmit_def vn_queue_submit_def counted_fields call_command_def
        emit_def)
next
  show "vn_QueueSubmit dev [] None alloc_ok r =
     Inr (r, dev\<lparr>calls := calls dev @ [Call_vkQueueSubmit [] None]\<rparr>)"
    by (cases "r = VK_SUCCESS")
      (simp_all add: vn_QueueSubmit_def vn_queue_submit_def prepare_no_batches_no_fence
        counted_fields call_command_def emit_def)
qed

text \<open>Fence 200 of the example is an unsignaled primitive, number 201.\<close>

theorem queue_submit_no_batches_witness:
  "type (active_payload (fences two_fences 200)) = VN_SYNC_TYPE_SYNC \<and>
   vn_QueueSubmit two_fences [] (Some 200) True VK_SUCCESS =
     Inr (VK_SUCCESS,
          two_fences\<lparr>calls := calls two_fences @
             [Call_vkQueueSubmit [] (Some 200), Renderer_submit [(201, 1)], Roundtrip]\<rparr>) \<and>
   vn_QueueSubmit two_fences [] (Some 200) True VK_ERROR_DEVICE_LOST =
     Inr (VK_ERROR_DEVICE_LOST,
          two_fences\<lparr>calls := calls two_fences @ [Call_vkQueueSubmit [] (Some 200)]\<rparr>)"
proof -
  have active: "type (active_payload (fences two_fences 200)) = VN_SYNC_TYPE_SYNC"
    by (simp add: two_fences_fence_200 active_payload_def)
  have prim: "sync (active_payload (fences two_fences 200)) = 201"
    by (simp add: two_fences_fence_200 active_payload_def)
  note inst = queue_submit_no_batches [of _ 200 two_fences VK_ERROR_DEVICE_LOST]
  from inst active prim show ?thesis by simp
qed


section \<open>Submissions that signal timeline semaphores\<close>



definition fence_sync :: "vn_device \<Rightarrow> nat option \<Rightarrow> (nat \<times> 64 word) list" where
  "fence_sync dev f =
     (case f of None \<Rightarrow> [] | Some h \<Rightarrow> [(sync (active_payload (fences dev h)), 1)])"





















section \<open>Payload slots under the driver's commands\<close>

text \<open>
  The commands that create, read or change a fence or a semaphore, each with the outcomes of
  the allocations and renderer calls it makes, and the device after one of them.
  \<^verbatim>\<open>vn_semaphore_reset_wsi\<close> is not an entry point (a queue submission calls it) but is listed
  for itself too.
\<close>

datatype command =
    Cmd_CreateFence bool bool nat VkResult nat VkResult nat
  | Cmd_fence_signal_wsi nat
  | Cmd_ResetFences "nat list"
  | Cmd_GetFenceStatus nat VkResult
  | Cmd_WaitForFences "nat list" bool "64 word" bool VkResult
  | Cmd_ImportFenceFdKHR nat bool bool int VkResult "64 word"
  | Cmd_GetFenceFdKHR nat bool int
  | Cmd_CreateSemaphore VkSemaphoreType "64 word" bool nat VkResult nat VkResult nat
  | Cmd_semaphore_signal_wsi nat
  | Cmd_semaphore_reset_wsi nat
  | Cmd_GetSemaphoreCounterValue nat VkResult
  | Cmd_SignalSemaphore nat "64 word"
  | Cmd_WaitSemaphores "nat list" "64 word list" bool "64 word" bool VkResult
  | Cmd_ImportSemaphoreFdKHR nat bool bool int VkResult "64 word"
  | Cmd_GetSemaphoreFdKHR nat bool int
  | Cmd_QueueSubmit "vk_batch list" "nat option" bool VkResult
  | Cmd_QueueBindSparse "vk_batch list" "nat option" bool VkResult

text \<open>The device that a call leaves, when it returns.\<close>

definition after :: "fault + 'a \<times> vn_device \<Rightarrow> fault + vn_device" where
  "after r = (case r of Inl e \<Rightarrow> Inl e | Inr (x, dev) \<Rightarrow> Inr dev)"

fun run_command :: "vn_device \<Rightarrow> command \<Rightarrow> fault + vn_device" where
  "run_command dev (Cmd_CreateFence signaled alloc_ok h pr ps tr ts) =
     Inr (snd (snd (vn_CreateFence dev signaled alloc_ok h pr ps tr ts)))"
| "run_command dev (Cmd_fence_signal_wsi h) = Inr (vn_fence_signal_wsi dev h)"
| "run_command dev (Cmd_ResetFences hs) = after (vn_ResetFences dev hs)"
| "run_command dev (Cmd_GetFenceStatus h rr) =
     (case vn_GetFenceStatus dev h rr of Inl e \<Rightarrow> Inl e | Inr r \<Rightarrow> Inr dev)"
| "run_command dev (Cmd_WaitForFences hs waitAll timeout alloc_ok wr) =
     after (vn_WaitForFences dev hs waitAll timeout alloc_ok wr)"
| "run_command dev (Cmd_ImportFenceFdKHR h temporary_bit sync_file fd ir v) =
     Inr (snd (vn_ImportFenceFdKHR dev h temporary_bit sync_file fd ir v))"
| "run_command dev (Cmd_GetFenceFdKHR h sync_file fd) =
     (case vn_GetFenceFdKHR dev h sync_file fd of
        Inl e \<Rightarrow> Inl e | Inr (r, out, dev') \<Rightarrow> Inr dev')"
| "run_command dev (Cmd_CreateSemaphore ty v alloc_ok h pr ps tr ts) =
     Inr (snd (snd (vn_CreateSemaphore dev ty v alloc_ok h pr ps tr ts)))"
| "run_command dev (Cmd_semaphore_signal_wsi h) = Inr (vn_semaphore_signal_wsi dev h)"
| "run_command dev (Cmd_semaphore_reset_wsi h) = Inr (vn_semaphore_reset_wsi dev h)"
| "run_command dev (Cmd_GetSemaphoreCounterValue h rr) =
     (case vn_GetSemaphoreCounterValue dev h rr of Inl e \<Rightarrow> Inl e | Inr r \<Rightarrow> Inr dev)"
| "run_command dev (Cmd_SignalSemaphore h v) = after (vn_SignalSemaphore dev h v)"
| "run_command dev (Cmd_WaitSemaphores hs vs wait_any timeout alloc_ok wr) =
     after (vn_WaitSemaphores dev hs vs wait_any timeout alloc_ok wr)"
| "run_command dev (Cmd_ImportSemaphoreFdKHR h temporary_bit sync_file fd ir v) =
     Inr (snd (vn_ImportSemaphoreFdKHR dev h temporary_bit sync_file fd ir v))"
| "run_command dev (Cmd_GetSemaphoreFdKHR h sync_file fd) =
     (case vn_GetSemaphoreFdKHR dev h sync_file fd of
        Inl e \<Rightarrow> Inl e | Inr (r, out, dev') \<Rightarrow> Inr dev')"
| "run_command dev (Cmd_QueueSubmit bs f alloc_ok cr) =
     after (vn_QueueSubmit dev bs f alloc_ok cr)"
| "run_command dev (Cmd_QueueBindSparse bs f alloc_ok cr) =
     after (vn_QueueBindSparse dev bs f alloc_ok cr)"

lemma afterD: "after r = Inr dev' \<Longrightarrow> \<exists>x. r = Inr (x, dev')"
  by (auto simp: after_def split: sum.splits)

lemma emit_frame:
  "fences (emit e dev) = fences dev" "semaphores (emit e dev) = semaphores dev"
  "renderer_syncs (emit e dev) = renderer_syncs dev"
  by (simp_all add: emit_def)


lemma reset_fences_loop_effect:
  "reset_fences_loop dev hs = Inr dev' \<Longrightarrow>
   semaphores dev' = semaphores dev \<and>
   (\<forall>h. fences dev' h =
      (if h \<in> set hs
       then (fences dev h)\<lparr>temporary := (temporary (fences dev h))\<lparr>type := VN_SYNC_TYPE_INVALID\<rparr>,
                            payload := PERMANENT\<rparr>
       else fences dev h))"
proof (induction hs arbitrary: dev)
  case Nil
  then show ?case by simp
next
  case (Cons h hs)
  let ?obj = "fences dev h"
  let ?d = "(vn_renderer_sync_reset (fst (vn_sync_payload_release dev (temporary ?obj)))
               (sync (permanent ?obj)) 0)
             \<lparr>fences := (fences dev)
                (h := ?obj\<lparr>temporary := (temporary ?obj)\<lparr>type := VN_SYNC_TYPE_INVALID\<rparr>,
                           payload := PERMANENT\<rparr>)\<rparr>"
  from Cons.prems have rec: "reset_fences_loop ?d hs = Inr dev'"
    by (simp add: vn_sync_payload_release_def vn_renderer_sync_reset_def
        vn_renderer_sync_release_def Let_def split: if_splits)
  have d: "semaphores ?d = semaphores dev"
    "fences ?d = (fences dev)
                (h := ?obj\<lparr>temporary := (temporary ?obj)\<lparr>type := VN_SYNC_TYPE_INVALID\<rparr>,
                           payload := PERMANENT\<rparr>)"
    by (simp_all add: vn_sync_payload_release_def vn_renderer_sync_reset_def
        vn_renderer_sync_release_def)
  from Cons.IH [OF rec] show ?case
    unfolding d by auto
qed

lemma submit_timeline_loop_frame:
  "submit_timeline_loop bt d syncs sb bs counts = Inr (d', b, sb') \<Longrightarrow>
   fences d' = fences d \<and> semaphores d' = semaphores d"
  by (induction bt d syncs sb bs counts rule: submit_timeline_loop.induct)
    (auto simp: Let_def vn_queue_submit_syncs_def emit_def split: if_splits)

lemma queue_submit_frame:
  assumes "vn_queue_submit bt dev bs f alloc_ok cr = Inr (r, dev')"
    and p: "vn_queue_submission_prepare bt dev bs f alloc_ok = Inr (VK_SUCCESS, dev1, submit)"
  shows "fences dev' = fences dev1 \<and> semaphores dev' = semaphores dev1"
proof (cases "signal_timeline_count submit = 0")
  case True
  with assms(1) show ?thesis
    unfolding vn_queue_submit_def p
    by (auto simp: Let_def vn_queue_submit_syncs_def emit_def split: if_splits)
next
  case False
  with assms(1) obtain d2 b sb where
    l: "submit_timeline_loop bt dev1 (temp_syncs submit) 0 (batches submit)
          (temp_batch_sync_counts submit) = Inr (d2, b, sb)"
    and d: "fences dev' = fences d2 \<and> semaphores dev' = semaphores d2"
    unfolding vn_queue_submit_def p
    by (auto simp: Let_def vn_queue_submit_syncs_def emit_def split: if_splits sum.splits)
  from submit_timeline_loop_frame [OF l] d show ?thesis by simp
qed

lemma queue_submit_effect:
  assumes "vn_queue_submit bt dev bs f alloc_ok cr = Inr (r, dev')"
  shows "fences dev' = fences dev \<and>
         (\<forall>s. semaphores dev' s = semaphores dev s \<or>
              semaphores dev' s = reset_wsi_obj (semaphores dev s)) \<and>
         (alloc_ok \<longrightarrow>
            (\<forall>s\<in>set (concat (map pWaitSemaphores bs)). wait_is_wsi dev s \<longrightarrow>
               semaphores dev' s = reset_wsi_obj (semaphores dev s)))"
proof -
  from assms obtain pr dev1 submit where
    prep: "vn_queue_submission_prepare bt dev bs f alloc_ok = Inr (pr, dev1, submit)"
    by (auto simp: vn_queue_submit_def split: sum.splits)
  show ?thesis
  proof (cases "pr = VK_SUCCESS")
    case False
    with prep have "dev1 = dev" "\<not> alloc_ok"
      by (auto simp: vn_queue_submission_prepare_def vn_queue_submission_alloc_storage_def
          Let_def split: if_splits sum.splits prod.splits)
    with assms prep False show ?thesis
      by (simp add: vn_queue_submit_def)
  next
    case True
    with prep have p: "vn_queue_submission_prepare bt dev bs f alloc_ok =
        Inr (VK_SUCCESS, dev1, submit)" by simp
    note frame = queue_submit_frame [OF assms p]
    have eff: "fences dev1 = fences dev \<and>
       (\<forall>s. semaphores dev1 s =
          (if s \<in> set (concat (map pWaitSemaphores bs)) \<and> wait_is_wsi dev s
           then reset_wsi_obj (semaphores dev s) else semaphores dev s))"
      using prepare_successD [OF p]
    proof (elim disjE conjE exE)
      assume z: "alloc_size (counted bt dev bs f) = 0" and d: "dev1 = dev"
      from alloc_size_counted_zero [OF z]
      have "length (filter (wait_is_wsi dev) (concat (map pWaitSemaphores bs))) = 0"
        by (simp add: counted_fields)
      then have "\<And>s. s \<in> set (concat (map pWaitSemaphores bs)) \<Longrightarrow> \<not> wait_is_wsi dev s"
        by (auto simp: filter_empty_conv)
      with d show ?thesis by metis
    next
      fix bs' syncs counts fs
      assume loop: "setup_batches_loop ((counted bt dev bs f)\<lparr>temp_storage := True\<rparr>)
          dev 0 0 bs = Inr (dev1, bs', syncs, counts)"
      note e = setup_batches_loop_effect [OF loop]
      have "semaphores dev1 s =
          (if s \<in> set (concat (map pWaitSemaphores bs)) \<and> wait_is_wsi dev s
           then reset_wsi_obj (semaphores dev s) else semaphores dev s)" for s
      proof (cases "s \<in> set (concat (map pWaitSemaphores bs)) \<and> wait_is_wsi dev s")
        case True
        then have "s \<in> set (filter (wait_is_wsi dev) (concat (map pWaitSemaphores bs)))"
          by simp
        then have "wait_wsi_count (counted bt dev bs f) \<noteq> 0"
          unfolding counted_fields by (metis length_0_conv empty_iff list.set(1))
        with e True show ?thesis by simp
      next
        case False
        with e show ?thesis by auto
      qed
      with e show ?thesis by simp
    qed
    from frame eff show ?thesis by auto
  qed
qed


text \<open>
  A payload selector may point to the temporary slot only while that slot is not Invalid.
\<close>

definition slot_ok :: "'a vn_fence_scheme \<Rightarrow> bool" where
  "slot_ok obj \<longleftrightarrow> (payload obj = TEMPORARY \<longrightarrow> type (temporary obj) \<noteq> VN_SYNC_TYPE_INVALID)"

definition payloads_ok :: "vn_device \<Rightarrow> bool" where
  "payloads_ok dev \<longleftrightarrow> (\<forall>h. slot_ok (fences dev h)) \<and> (\<forall>h. slot_ok (semaphores dev h))"

fun creates_fence :: "command \<Rightarrow> nat \<Rightarrow> bool" where
  "creates_fence (Cmd_CreateFence signaled alloc_ok h' pr ps tr ts) h \<longleftrightarrow>
     h' = h \<and> alloc_ok \<and> pr = VK_SUCCESS \<and> tr = VK_SUCCESS"
| "creates_fence c h \<longleftrightarrow> False"

fun creates_semaphore :: "command \<Rightarrow> nat \<Rightarrow> bool" where
  "creates_semaphore (Cmd_CreateSemaphore ty v alloc_ok h' pr ps tr ts) h \<longleftrightarrow>
     h' = h \<and> alloc_ok \<and> pr = VK_SUCCESS \<and> tr = VK_SUCCESS"
| "creates_semaphore c h \<longleftrightarrow> False"

fun sets_fence_temporary :: "command \<Rightarrow> nat \<Rightarrow> bool" where
  "sets_fence_temporary (Cmd_fence_signal_wsi h') h \<longleftrightarrow> h' = h"
| "sets_fence_temporary (Cmd_ImportFenceFdKHR h' temporary_bit sync_file fd ir v) h \<longleftrightarrow>
     h' = h \<and> temporary_bit \<and> ir = VK_SUCCESS"
| "sets_fence_temporary c h \<longleftrightarrow> False"

fun sets_semaphore_temporary :: "command \<Rightarrow> nat \<Rightarrow> bool" where
  "sets_semaphore_temporary (Cmd_semaphore_signal_wsi h') h \<longleftrightarrow> h' = h"
| "sets_semaphore_temporary (Cmd_ImportSemaphoreFdKHR h' temporary_bit sync_file fd ir v) h \<longleftrightarrow>
     h' = h \<and> temporary_bit \<and> ir = VK_SUCCESS"
| "sets_semaphore_temporary c h \<longleftrightarrow> False"

fun resets_fence :: "command \<Rightarrow> nat \<Rightarrow> bool" where
  "resets_fence (Cmd_ResetFences hs) h \<longleftrightarrow> h \<in> set hs"
| "resets_fence (Cmd_GetFenceFdKHR h' sync_file fd) h \<longleftrightarrow> h' = h \<and> sync_file \<and> 0 \<le> fd"
| "resets_fence c h \<longleftrightarrow> False"

fun resets_semaphore :: "vn_device \<Rightarrow> command \<Rightarrow> nat \<Rightarrow> bool" where
  "resets_semaphore dev (Cmd_semaphore_reset_wsi h') h \<longleftrightarrow> h' = h"
| "resets_semaphore dev (Cmd_GetSemaphoreFdKHR h' sync_file fd) h \<longleftrightarrow>
     h' = h \<and> sync_file \<and> 0 \<le> fd"
| "resets_semaphore dev (Cmd_QueueSubmit bs f alloc_ok cr) h \<longleftrightarrow>
     alloc_ok \<and> h \<in> set (concat (map pWaitSemaphores bs)) \<and> wait_is_wsi dev h"
| "resets_semaphore dev (Cmd_QueueBindSparse bs f alloc_ok cr) h \<longleftrightarrow>
     alloc_ok \<and> h \<in> set (concat (map pWaitSemaphores bs)) \<and> wait_is_wsi dev h"
| "resets_semaphore dev c h \<longleftrightarrow> False"

fun is_wait :: "command \<Rightarrow> bool" where
  "is_wait (Cmd_WaitForFences hs waitAll timeout alloc_ok wr) \<longleftrightarrow> True"
| "is_wait (Cmd_GetFenceStatus h rr) \<longleftrightarrow> True"
| "is_wait (Cmd_WaitSemaphores hs vs wait_any timeout alloc_ok wr) \<longleftrightarrow> True"
| "is_wait (Cmd_GetSemaphoreCounterValue h rr) \<longleftrightarrow> True"
| "is_wait c \<longleftrightarrow> False"

text \<open>What a command must keep or establish, seen from the object with handle \<open>h\<close>.\<close>

definition command_respects_payloads ::
  "vn_device \<Rightarrow> command \<Rightarrow> vn_device \<Rightarrow> nat \<Rightarrow> bool" where
  "command_respects_payloads dev c dev' h \<longleftrightarrow>
     (payloads_ok dev \<longrightarrow> payloads_ok dev') \<and>
     (creates_fence c h \<longrightarrow>
        payload (fences dev' h) = PERMANENT \<and>
        type (temporary (fences dev' h)) = VN_SYNC_TYPE_INVALID) \<and>
     (creates_semaphore c h \<longrightarrow>
        payload (semaphores dev' h) = PERMANENT \<and>
        type (temporary (semaphores dev' h)) = VN_SYNC_TYPE_INVALID) \<and>
     (type (temporary (fences dev h)) = VN_SYNC_TYPE_INVALID \<and>
      type (temporary (fences dev' h)) \<noteq> VN_SYNC_TYPE_INVALID \<longrightarrow> sets_fence_temporary c h) \<and>
     (type (temporary (semaphores dev h)) = VN_SYNC_TYPE_INVALID \<and>
      type (temporary (semaphores dev' h)) \<noteq> VN_SYNC_TYPE_INVALID \<longrightarrow>
        sets_semaphore_temporary c h) \<and>
     (resets_fence c h \<longrightarrow>
        payload (fences dev' h) = PERMANENT \<and>
        type (temporary (fences dev' h)) = VN_SYNC_TYPE_INVALID) \<and>
     (resets_semaphore dev c h \<longrightarrow>
        payload (semaphores dev' h) = PERMANENT \<and>
        type (temporary (semaphores dev' h)) = VN_SYNC_TYPE_INVALID) \<and>
     (is_wait c \<longrightarrow> fences dev' = fences dev \<and> semaphores dev' = semaphores dev)"

lemma respects_fences_only:
  assumes "semaphores dev' = semaphores dev"
    and "\<And>g. slot_ok (fences dev g) \<Longrightarrow> slot_ok (fences dev' g)"
    and "creates_fence c h \<Longrightarrow> payload (fences dev' h) = PERMANENT \<and>
        type (temporary (fences dev' h)) = VN_SYNC_TYPE_INVALID"
    and "\<not> creates_semaphore c h"
    and "type (temporary (fences dev h)) = VN_SYNC_TYPE_INVALID \<Longrightarrow>
      type (temporary (fences dev' h)) \<noteq> VN_SYNC_TYPE_INVALID \<Longrightarrow> sets_fence_temporary c h"
    and "resets_fence c h \<Longrightarrow> payload (fences dev' h) = PERMANENT \<and>
        type (temporary (fences dev' h)) = VN_SYNC_TYPE_INVALID"
    and "\<not> resets_semaphore dev c h"
    and "is_wait c \<Longrightarrow> fences dev' = fences dev"
  shows "command_respects_payloads dev c dev' h"
  using assms unfolding command_respects_payloads_def payloads_ok_def by auto

lemma respects_semaphores_only:
  assumes "fences dev' = fences dev"
    and "\<And>g. slot_ok (semaphores dev g) \<Longrightarrow> slot_ok (semaphores dev' g)"
    and "creates_semaphore c h \<Longrightarrow> payload (semaphores dev' h) = PERMANENT \<and>
        type (temporary (semaphores dev' h)) = VN_SYNC_TYPE_INVALID"
    and "\<not> creates_fence c h"
    and "type (temporary (semaphores dev h)) = VN_SYNC_TYPE_INVALID \<Longrightarrow>
      type (temporary (semaphores dev' h)) \<noteq> VN_SYNC_TYPE_INVALID \<Longrightarrow>
      sets_semaphore_temporary c h"
    and "resets_semaphore dev c h \<Longrightarrow> payload (semaphores dev' h) = PERMANENT \<and>
        type (temporary (semaphores dev' h)) = VN_SYNC_TYPE_INVALID"
    and "\<not> resets_fence c h"
    and "is_wait c \<Longrightarrow> semaphores dev' = semaphores dev"
  shows "command_respects_payloads dev c dev' h"
  using assms unfolding command_respects_payloads_def payloads_ok_def by auto


lemma respects_reset_or_same:
  assumes fr: "fences dev' = fences dev"
    and each: "\<And>s. semaphores dev' s = semaphores dev s \<or>
        semaphores dev' s = reset_wsi_obj (semaphores dev s)"
    and res: "\<And>s. resets_semaphore dev c s \<Longrightarrow>
        semaphores dev' s = reset_wsi_obj (semaphores dev s)"
    and no: "\<not> creates_semaphore c h" "\<not> creates_fence c h" "\<not> resets_fence c h"
      "\<not> is_wait c"
  shows "command_respects_payloads dev c dev' h"
proof (intro respects_semaphores_only)
  show "fences dev' = fences dev" by (rule fr)
  show "slot_ok (semaphores dev' g)" if "slot_ok (semaphores dev g)" for g
    using each [of g] that by (auto simp: reset_wsi_obj_def slot_ok_def)
  show "sets_semaphore_temporary c h"
    if "type (temporary (semaphores dev h)) = VN_SYNC_TYPE_INVALID"
      "type (temporary (semaphores dev' h)) \<noteq> VN_SYNC_TYPE_INVALID"
    using each [of h] that by (auto simp: reset_wsi_obj_def)
  show "payload (semaphores dev' h) = PERMANENT \<and>
      type (temporary (semaphores dev' h)) = VN_SYNC_TYPE_INVALID"
    if "resets_semaphore dev c h"
    using res [OF that] by (simp add: reset_wsi_obj_def)
qed (use no in auto)

lemma run_command_respects_payloads:
  assumes run: "run_command dev c = Inr dev'"
  shows "command_respects_payloads dev c dev' h"
proof (cases c)
  case (Cmd_CreateFence signaled alloc_ok h' pr ps tr ts)
  with run show ?thesis
    by (intro respects_fences_only)
      (auto simp: vn_CreateFence_def emit_def slot_ok_def Let_def split: if_splits)
next
  case (Cmd_fence_signal_wsi h')
  with run show ?thesis
    by (intro respects_fences_only)
      (auto simp: vn_fence_signal_wsi_def vn_sync_payload_release_def
        vn_renderer_sync_release_def slot_ok_def Let_def split: if_splits)
next
  case (Cmd_ResetFences hs)
  with run obtain r where "vn_ResetFences dev hs = Inr (r, dev')"
    by (auto dest: afterD)
  then have "reset_fences_loop (emit (Async_vkResetFences hs) dev) hs = Inr dev'"
    by (auto simp: vn_ResetFences_def split: sum.splits)
  from reset_fences_loop_effect [OF this] Cmd_ResetFences show ?thesis
    by (intro respects_fences_only) (auto simp: emit_frame slot_ok_def split: if_splits)
next
  case (Cmd_GetFenceStatus h' rr)
  with run have "dev' = dev" by (auto split: sum.splits)
  with Cmd_GetFenceStatus show ?thesis
    by (intro respects_fences_only) auto
next
  case (Cmd_WaitForFences hs waitAll timeout alloc_ok wr)
  with run obtain r where "vn_WaitForFences dev hs waitAll timeout alloc_ok wr = Inr (r, dev')"
    by (auto dest: afterD)
  then have "fences dev' = fences dev \<and> semaphores dev' = semaphores dev"
    by (auto simp: vn_WaitForFences_def emit_def split: if_splits sum.splits)
  with Cmd_WaitForFences show ?thesis
    by (intro respects_fences_only) auto
next
  case (Cmd_ImportFenceFdKHR h' temporary_bit sync_file fd ir v)
  with run show ?thesis
    by (intro respects_fences_only)
      (auto simp: vn_ImportFenceFdKHR_def vn_renderer_sync_release_def
        vn_renderer_sync_write_def slot_ok_def Let_def split: if_splits)
next
  case (Cmd_GetFenceFdKHR h' sync_file fd)
  show ?thesis
  proof (cases "sync_file \<and> 0 \<le> fd")
    case False
    with run Cmd_GetFenceFdKHR have "dev' = dev"
      by (auto simp: vn_GetFenceFdKHR_def split: if_splits sum.splits)
    with Cmd_GetFenceFdKHR False show ?thesis
      by (intro respects_fences_only) auto
  next
    case True
    with run Cmd_GetFenceFdKHR have
      "reset_fences_loop (emit (Async_vkResetFences [h']) dev) [h'] = Inr dev'"
      by (auto simp: vn_GetFenceFdKHR_def vn_ResetFences_def split: if_splits sum.splits)
    from reset_fences_loop_effect [OF this] Cmd_GetFenceFdKHR show ?thesis
      by (intro respects_fences_only) (auto simp: emit_frame slot_ok_def split: if_splits)
  qed
next
  case (Cmd_CreateSemaphore ty v alloc_ok h' pr ps tr ts)
  with run show ?thesis
    by (intro respects_semaphores_only)
      (auto simp: vn_CreateSemaphore_def emit_def slot_ok_def Let_def split: if_splits)
next
  case (Cmd_semaphore_signal_wsi h')
  with run show ?thesis
    by (intro respects_semaphores_only)
      (auto simp: vn_semaphore_signal_wsi_def vn_sync_payload_release_def
        vn_renderer_sync_release_def slot_ok_def Let_def split: if_splits)
next
  case (Cmd_semaphore_reset_wsi h')
  with run have "dev' = vn_semaphore_reset_wsi dev h'" by simp
  with Cmd_semaphore_reset_wsi show ?thesis
    by (intro respects_semaphores_only)
      (auto simp: reset_wsi_semaphores reset_wsi_frame reset_wsi_obj_def slot_ok_def
        split: if_splits)
next
  case (Cmd_GetSemaphoreCounterValue h' rr)
  with run have "dev' = dev" by (auto split: sum.splits)
  with Cmd_GetSemaphoreCounterValue show ?thesis
    by (intro respects_semaphores_only) auto
next
  case (Cmd_SignalSemaphore h' v)
  with run obtain r where "vn_SignalSemaphore dev h' v = Inr (r, dev')"
    by (auto dest: afterD)
  then have "fences dev' = fences dev \<and> semaphores dev' = semaphores dev"
    by (auto simp: vn_SignalSemaphore_def vn_renderer_sync_write_def emit_def Let_def
        split: if_splits)
  with Cmd_SignalSemaphore show ?thesis
    by (intro respects_semaphores_only) auto
next
  case (Cmd_WaitSemaphores hs vs wait_any timeout alloc_ok wr)
  with run obtain r where
    "vn_WaitSemaphores dev hs vs wait_any timeout alloc_ok wr = Inr (r, dev')"
    by (auto dest: afterD)
  then have "fences dev' = fences dev \<and> semaphores dev' = semaphores dev"
    by (auto simp: vn_WaitSemaphores_def emit_def split: if_splits sum.splits)
  with Cmd_WaitSemaphores show ?thesis
    by (intro respects_semaphores_only) auto
next
  case (Cmd_ImportSemaphoreFdKHR h' temporary_bit sync_file fd ir v)
  with run show ?thesis
    by (intro respects_semaphores_only)
      (auto simp: vn_ImportSemaphoreFdKHR_def vn_renderer_sync_release_def
        vn_renderer_sync_write_def slot_ok_def Let_def split: if_splits)
next
  case (Cmd_GetSemaphoreFdKHR h' sync_file fd)
  with run show ?thesis
    by (intro respects_semaphores_only)
      (auto simp: vn_GetSemaphoreFdKHR_def vn_sync_payload_release_def
        vn_renderer_sync_release_def vn_renderer_sync_reset_def slot_ok_def Let_def
        split: if_splits)
next
  case (Cmd_QueueSubmit bs f alloc_ok cr)
  with run obtain r where "vn_queue_submit VK_STRUCTURE_TYPE_SUBMIT_INFO dev bs f alloc_ok cr =
      Inr (r, dev')"
    by (auto simp: vn_QueueSubmit_def dest: afterD)
  from queue_submit_effect [OF this] Cmd_QueueSubmit show ?thesis
    by (intro respects_reset_or_same) auto
next
  case (Cmd_QueueBindSparse bs f alloc_ok cr)
  with run obtain r where
    "vn_queue_submit VK_STRUCTURE_TYPE_BIND_SPARSE_INFO dev bs f alloc_ok cr = Inr (r, dev')"
    by (auto simp: vn_QueueBindSparse_def dest: afterD)
  from queue_submit_effect [OF this] Cmd_QueueBindSparse show ?thesis
    by (intro respects_reset_or_same) auto
qed


text \<open>
  C4, as stated, fails: a wait does not consume the temporary payload. Fence 100 of the
  example is WSI-signaled; \<^verbatim>\<open>vn_WaitForFences\<close> on it returns \<^verbatim>\<open>VK_SUCCESS\<close> and the fence
  still has its temporary payload, WSI-signaled and active.
\<close>

theorem wait_keeps_temporary_payload:
  "vn_WaitForFences two_fences [100] True 0 True VK_SUCCESS = Inr (VK_SUCCESS, two_fences) \<and>
   payload (fences two_fences 100) = TEMPORARY \<and>
   type (temporary (fences two_fences 100)) = VN_SYNC_TYPE_WSI_SIGNALED"
  by (simp add: vn_WaitForFences_def two_fences_fence_100 active_payload_def)

text \<open>
  C4, amended. After every command that returns, for every handle \<open>h\<close>: the selector of
  the fence and of the semaphore is one of the two slots, and if no selector pointed to an
  Invalid temporary slot before, none does after; a fence or semaphore just created has its
  permanent slot active and its temporary slot Invalid; a temporary slot that was Invalid
  and no longer is was set by \<^verbatim>\<open>vn_fence_signal_wsi\<close>, \<^verbatim>\<open>vn_semaphore_signal_wsi\<close> or a
  successful temporary import on that object; after a reset of the object
  (\<^verbatim>\<open>vn_ResetFences\<close>, the export of a sync file, \<^verbatim>\<open>vn_semaphore_reset_wsi\<close>, a queue
  submission that waits on the semaphore while it is WSI-signaled) the temporary slot is
  Invalid and the permanent slot active; and the waits and reads (\<^verbatim>\<open>vn_WaitForFences\<close>,
  \<^verbatim>\<open>vn_GetFenceStatus\<close>, \<^verbatim>\<open>vn_WaitSemaphores\<close>, \<^verbatim>\<open>vn_GetSemaphoreCounterValue\<close>) change
  no fence and no semaphore.
\<close>

theorem payload_slots_under_commands:
  assumes "run_command dev c = Inr dev'"
  shows "(payload (fences dev' h) = PERMANENT \<or> payload (fences dev' h) = TEMPORARY) \<and>
     (payload (semaphores dev' h) = PERMANENT \<or> payload (semaphores dev' h) = TEMPORARY) \<and>
     (payloads_ok dev \<longrightarrow> payloads_ok dev') \<and>
     (creates_fence c h \<longrightarrow>
        payload (fences dev' h) = PERMANENT \<and>
        type (temporary (fences dev' h)) = VN_SYNC_TYPE_INVALID) \<and>
     (creates_semaphore c h \<longrightarrow>
        payload (semaphores dev' h) = PERMANENT \<and>
        type (temporary (semaphores dev' h)) = VN_SYNC_TYPE_INVALID) \<and>
     (type (temporary (fences dev h)) = VN_SYNC_TYPE_INVALID \<and>
      type (temporary (fences dev' h)) \<noteq> VN_SYNC_TYPE_INVALID \<longrightarrow> sets_fence_temporary c h) \<and>
     (type (temporary (semaphores dev h)) = VN_SYNC_TYPE_INVALID \<and>
      type (temporary (semaphores dev' h)) \<noteq> VN_SYNC_TYPE_INVALID \<longrightarrow>
        sets_semaphore_temporary c h) \<and>
     (resets_fence c h \<longrightarrow>
        payload (fences dev' h) = PERMANENT \<and>
        type (temporary (fences dev' h)) = VN_SYNC_TYPE_INVALID) \<and>
     (resets_semaphore dev c h \<longrightarrow>
        payload (semaphores dev' h) = PERMANENT \<and>
        type (temporary (semaphores dev' h)) = VN_SYNC_TYPE_INVALID) \<and>
     (is_wait c \<longrightarrow> fences dev' = fences dev \<and> semaphores dev' = semaphores dev)"
proof -
  have "payload (fences dev' h) = PERMANENT \<or> payload (fences dev' h) = TEMPORARY"
    by (cases "payload (fences dev' h)") simp_all
  moreover have "payload (semaphores dev' h) = PERMANENT \<or>
      payload (semaphores dev' h) = TEMPORARY"
    by (cases "payload (semaphores dev' h)") simp_all
  moreover note run_command_respects_payloads [OF assms, of h, unfolded command_respects_payloads_def]
  ultimately show ?thesis by blast
qed

lemma two_fences_objects:
  "fences two_fences = no_fence
     (100 := \<lparr>payload = TEMPORARY, permanent = \<lparr>type = VN_SYNC_TYPE_SYNC, sync = 101\<rparr>,
              temporary = \<lparr>type = VN_SYNC_TYPE_WSI_SIGNALED, sync = 102\<rparr>\<rparr>,
      200 := \<lparr>payload = PERMANENT, permanent = \<lparr>type = VN_SYNC_TYPE_SYNC, sync = 201\<rparr>,
              temporary = \<lparr>type = VN_SYNC_TYPE_INVALID, sync = 202\<rparr>\<rparr>)"
  "semaphores two_fences = no_semaphore"
  by (rule ext, simp add: two_fences_def vn_CreateFence_def vn_fence_signal_wsi_def emit_def
      vn_sync_payload_release_def empty_device_def)
    (simp add: two_fences_def vn_CreateFence_def vn_fence_signal_wsi_def emit_def
      vn_sync_payload_release_def empty_device_def)

lemma two_fences_payloads_ok: "payloads_ok two_fences"
  by (simp add: payloads_ok_def slot_ok_def two_fences_objects no_fence_def
      no_semaphore_def)

text \<open>Resetting the WSI-signaled fence 100 of the example.\<close>

theorem payload_slots_under_commands_witness:
  "payloads_ok two_fences \<and>
   type (temporary (fences two_fences 100)) = VN_SYNC_TYPE_WSI_SIGNALED \<and>
   (case run_command two_fences (Cmd_ResetFences [100]) of
      Inl e \<Rightarrow> False
    | Inr dev' \<Rightarrow>
        payloads_ok dev' \<and> payload (fences dev' 100) = PERMANENT \<and>
        type (temporary (fences dev' 100)) = VN_SYNC_TYPE_INVALID)"
proof -
  have "\<exists>dev'. run_command two_fences (Cmd_ResetFences [100]) = Inr dev'"
    by (simp add: after_def vn_ResetFences_def emit_frame two_fences_fence_100
        vn_sync_payload_release_def Let_def)
  then obtain dev' where run: "run_command two_fences (Cmd_ResetFences [100]) = Inr dev'"
    by blast
  from payload_slots_under_commands [OF run, of 100] two_fences_payloads_ok
  have "payloads_ok dev' \<and> payload (fences dev' 100) = PERMANENT \<and>
        type (temporary (fences dev' 100)) = VN_SYNC_TYPE_INVALID"
    by simp
  with run two_fences_payloads_ok show ?thesis
    by (simp add: two_fences_fence_100)
qed

section \<open>The instance: ring submissions and the reply buffer\<close>

text \<open>\<^verbatim>\<open>size_t\<close> on the 64-bit targets of the driver.\<close>

type_synonym size_t = "64 word"

subsection \<open>Command stream encoders\<close>

text \<open>
  Modelled from the spec: the encoder of \<^verbatim>\<open>vn_cs.h\<close>, which is not among the sources.  An
  encoder holds buffers; a buffer has the bytes written at its base, the BO that backs it (none
  for the storage of a local encoder), its offset in that BO and its committed size.
  Committing freezes the written length of the current (last) buffer as its committed size.
\<close>

record vn_cs_encoder_buffer =
  buf_bo :: "nat option"
  buf_base :: "8 word list"
  buf_offset :: nat
  committed_size :: nat

record vn_cs_encoder =
  buffers :: "vn_cs_encoder_buffer list"
  indirect :: bool
  current_buffer_roundtrip :: "32 word"

definition total_committed_size :: "vn_cs_encoder \<Rightarrow> nat" where
  "total_committed_size enc = sum_list (map committed_size (buffers enc))"

definition vn_cs_encoder_get_len :: "vn_cs_encoder \<Rightarrow> nat" where
  "vn_cs_encoder_get_len enc =
     (if buffers enc = [] then 0
      else total_committed_size enc +
           (if committed_size (last (buffers enc)) = 0
            then length (buf_base (last (buffers enc))) else 0))"

definition vn_cs_encoder_is_empty :: "vn_cs_encoder \<Rightarrow> bool" where
  "vn_cs_encoder_is_empty enc \<longleftrightarrow> buffers enc = [] \<or> buf_base (hd (buffers enc)) = []"

definition vn_cs_encoder_commit :: "vn_cs_encoder \<Rightarrow> vn_cs_encoder" where
  "vn_cs_encoder_commit enc =
     (if buffers enc = [] then enc
      else enc\<lparr>buffers := butlast (buffers enc) @
             [(last (buffers enc))\<lparr>committed_size := length (buf_base (last (buffers enc)))\<rparr>]\<rparr>)"

definition vn_cs_encoder_reset :: "vn_cs_encoder \<Rightarrow> vn_cs_encoder" where
  "vn_cs_encoder_reset enc = enc\<lparr>buffers := []\<rparr>"

text \<open>
  Reserving room may allocate; \<open>outcome\<close> is \<open>None\<close> when that fails and otherwise names the
  BO, the offset and the roundtrip number of the buffer that now is the current one.
\<close>

definition vn_cs_encoder_reserve ::
  "vn_cs_encoder \<Rightarrow> (nat \<times> nat \<times> 32 word) option \<Rightarrow> vn_cs_encoder option" where
  "vn_cs_encoder_reserve enc outcome =
     (case outcome of
        None \<Rightarrow> None
      | Some (b, off, rt) \<Rightarrow>
          Some (enc\<lparr>buffers := buffers enc @
                   [\<lparr>buf_bo = Some b, buf_base = [], buf_offset = off, committed_size = 0\<rparr>],
                 current_buffer_roundtrip := rt\<rparr>))"

definition vn_cs_encoder_write :: "vn_cs_encoder \<Rightarrow> 8 word list \<Rightarrow> vn_cs_encoder" where
  "vn_cs_encoder_write enc bytes =
     (if buffers enc = [] then enc
      else enc\<lparr>buffers := butlast (buffers enc) @
             [(last (buffers enc))\<lparr>buf_base := buf_base (last (buffers enc)) @ bytes\<rparr>]\<rparr>)"

text \<open>\<^verbatim>\<open>VN_CS_ENCODER_INITIALIZER\<close> followed by the encoding of one command into it.\<close>

definition local_enc :: "8 word list \<Rightarrow> vn_cs_encoder" where
  "local_enc bytes =
     \<lparr>buffers = [\<lparr>buf_bo = None, buf_base = bytes, buf_offset = 0, committed_size = 0\<rparr>],
      indirect = False, current_buffer_roundtrip = 0\<rparr>"

text \<open>
  Modelled from the spec: the generated encoders of the three control calls that travel on the
  ring.  Their wire format is not in the sources, so the functions below take it as a parameter;
  \<^verbatim>\<open>vn_sizeof_vkExecuteCommandStreamsMESA\<close> is the length of the encoding.  A descriptor is
  resource id, offset and size.
\<close>

record vn_protocol =
  vn_encode_vkExecuteCommandStreamsMESA :: "(nat \<times> nat \<times> nat) list \<Rightarrow> 8 word list"
  vn_encode_vkSetReplyCommandStreamMESA :: "nat \<Rightarrow> size_t \<Rightarrow> 8 word list"
  vn_encode_vkSeekReplyCommandStreamMESA :: "size_t \<Rightarrow> 8 word list"

subsection \<open>The ring and the renderer\<close>

text \<open>
  Modelled from the spec: the ring of \<^verbatim>\<open>vn_ring.h\<close>.  A submission appends its bytes after the
  tail and advances the tail, which is the sequence number of the submission; the ring keeps the
  BOs of the submission.  Whether the renderer has to be notified is the renderer's business
  and comes from outside.
\<close>

record vn_ring =
  ring_data :: "8 word list"
  ring_cur :: "32 word"
  ring_submits :: "(32 word \<times> nat list) list"

definition vn_ring_submit :: "vn_ring \<Rightarrow> nat list \<Rightarrow> 8 word list \<Rightarrow> vn_ring \<times> 32 word" where
  "vn_ring_submit ring bos cs_data =
     (let cur = ring_cur ring + of_nat (length cs_data)
      in (ring\<lparr>ring_data := ring_data ring @ cs_data, ring_cur := cur,
               ring_submits := ring_submits ring @ [(cur, bos)]\<rparr>, cur))"

text \<open>Modelled from the spec: what the instance asks of the renderer, and BO reference counts.\<close>

datatype renderer_call =
    Bo_create_cpu size_t nat
  | NotifyRing "32 word"
  | WriteRingExtra "32 word"

definition vn_renderer_bo_ref :: "nat \<Rightarrow> (nat \<Rightarrow> nat) \<Rightarrow> nat \<Rightarrow> nat" where
  "vn_renderer_bo_ref b refs = refs(b := refs b + 1)"

definition vn_renderer_bo_unref :: "nat \<Rightarrow> (nat \<Rightarrow> nat) \<Rightarrow> nat \<Rightarrow> nat" where
  "vn_renderer_bo_unref b refs = refs(b := refs b - 1)"

text \<open>
  The instance, as far as ring submissions use it: \<^verbatim>\<open>instance->ring.{ring, mutex, upload,
  command_dropped}\<close>, \<^verbatim>\<open>instance->reply.{bo, size, used, ptr}\<close>, the roundtrip counter, and the
  renderer seen through its calls and the reference counts of its BOs. The fields are declared
  in \<^verbatim>\<open>vn_device.h\<close>, which is not among the sources; \<^verbatim>\<open>command_dropped\<close> is taken to be a
  \<^verbatim>\<open>uint32_t\<close>, so that \<^verbatim>\<open>command_dropped++\<close> wraps around at \<open>2^32\<close>.
\<close>

record vn_instance =
  ring :: vn_ring
  ring_mutex :: bool
  ring_upload :: vn_cs_encoder
  ring_command_dropped :: "32 word"
  reply_bo :: "nat option"
  reply_size :: size_t
  reply_used :: size_t
  reply_ptr :: size_t
  roundtrip_next :: "32 word"
  bo_refs :: "nat \<Rightarrow> nat"
  renderer_calls :: "renderer_call list"

text \<open>
  What one ring submission finds outside the driver: whether each allocation it may make
  succeeds (\<^verbatim>\<open>malloc\<close> of the descriptors, \<^verbatim>\<open>malloc\<close> of the execute command,
  \<^verbatim>\<open>vn_ring_get_submit\<close>, \<^verbatim>\<open>vn_cs_encoder_reserve\<close> of the upload buffer), whether the ring
  asks for a notification, and the values that the polling loop loads from the ring's extra
  region.
\<close>

record submit_outcome =
  descs_alloc :: bool
  exec_alloc :: bool
  ring_get_submit :: bool
  upload_reserve :: "(nat \<times> nat \<times> 32 word) option"
  notify :: bool
  extra_loads :: "nat \<Rightarrow> 32 word"

subsection \<open>Preparing and making a ring submission\<close>

text \<open>
  \<^verbatim>\<open>struct vn_instance_submission\<close>: the bytes to put on the ring and the ring-submit structure
  with the BOs it holds. \<^verbatim>\<open>cs_size\<close> is the length of the bytes. The heap is not modelled, so
  \<^verbatim>\<open>vn_instance_submission_cleanup\<close>, which frees a heap copy of the bytes, has nothing to do.
\<close>

record vn_instance_submission =
  cs_data :: "8 word list option"
  submit :: "nat list option"

fun command_stream_descriptions ::
  "vn_cs_encoder_buffer list \<Rightarrow> fault + (nat \<times> nat \<times> nat) list" where
  "command_stream_descriptions [] = Inr []"
| "command_stream_descriptions (buf # bufs) =
     (if committed_size buf \<noteq> 0
      then (case buf_bo buf of
              None \<Rightarrow> Inl NullPointer
            | Some b \<Rightarrow>
                (case command_stream_descriptions bufs of
                   Inl f \<Rightarrow> Inl f
                 | Inr descs \<Rightarrow> Inr ((b, buf_offset buf, committed_size buf) # descs)))
      else command_stream_descriptions bufs)"

text \<open>The result is the data pointer: \<open>None\<close> is \<^verbatim>\<open>NULL\<close>.  \<open>256\<close> is \<^verbatim>\<open>sizeof(local_cs_data)\<close>.\<close>

definition vn_instance_submission_indirect_cs ::
  "vn_protocol \<Rightarrow> vn_cs_encoder \<Rightarrow> submit_outcome \<Rightarrow> fault + 8 word list option" where
  "vn_instance_submission_indirect_cs p cs out =
     (if length (buffers cs) > 8 \<and> \<not> descs_alloc out then Inr None
      else (case command_stream_descriptions (buffers cs) of
              Inl f \<Rightarrow> Inl f
            | Inr descs \<Rightarrow>
                (let exec_data = vn_encode_vkExecuteCommandStreamsMESA p descs
                 in if length exec_data > 256 \<and> \<not> exec_alloc out then Inr None
                    else Inr (Some exec_data))))"

definition vn_instance_submission_direct_cs ::
  "vn_cs_encoder \<Rightarrow> fault + 8 word list option" where
  "vn_instance_submission_direct_cs cs =
     (if length (buffers cs) = 1
      then Inr (Some (take (committed_size (hd (buffers cs))) (buf_base (hd (buffers cs)))))
      else if \<not> vn_cs_encoder_get_len cs \<le> 256 then Inl AssertionFailed
      else Inr (Some (concat (map (\<lambda>buf. take (committed_size buf) (buf_base buf))
                                 (buffers cs)))))"

text \<open>
  \<open>None\<close> is \<^verbatim>\<open>NULL\<close>; otherwise the BOs of the submission, each with one more reference.
\<close>

definition vn_instance_submission_get_ring_submit ::
  "(nat \<Rightarrow> nat) \<Rightarrow> vn_cs_encoder \<Rightarrow> nat option \<Rightarrow> bool \<Rightarrow> submit_outcome \<Rightarrow>
   fault + (nat list \<times> (nat \<Rightarrow> nat)) option" where
  "vn_instance_submission_get_ring_submit refs cs extra_bo direct out =
     (if \<not> ring_get_submit out then Inr None
      else if \<not> direct \<and> None \<in> set (map buf_bo (buffers cs)) then Inl NullPointer
      else (let bos = (if direct then []
                       else concat (map (\<lambda>buf. case buf_bo buf of None \<Rightarrow> [] | Some b \<Rightarrow> [b])
                                        (buffers cs)))
                      @ (case extra_bo of None \<Rightarrow> [] | Some b \<Rightarrow> [b])
            in Inr (Some (bos, fold vn_renderer_bo_ref bos refs))))"

definition vn_instance_submission_prepare ::
  "vn_protocol \<Rightarrow> (nat \<Rightarrow> nat) \<Rightarrow> vn_cs_encoder \<Rightarrow> nat option \<Rightarrow> bool \<Rightarrow> submit_outcome \<Rightarrow>
   fault + VkResult \<times> vn_instance_submission \<times> (nat \<Rightarrow> nat)" where
  "vn_instance_submission_prepare p refs cs extra_bo direct out =
     (case (if direct then vn_instance_submission_direct_cs cs
            else vn_instance_submission_indirect_cs p cs out) of
        Inl f \<Rightarrow> Inl f
      | Inr None \<Rightarrow> Inr (VK_ERROR_OUT_OF_HOST_MEMORY, \<lparr>cs_data = None, submit = None\<rparr>, refs)
      | Inr (Some d) \<Rightarrow>
          (case vn_instance_submission_get_ring_submit refs cs extra_bo direct out of
             Inl f \<Rightarrow> Inl f
           | Inr None \<Rightarrow>
               Inr (VK_ERROR_OUT_OF_HOST_MEMORY, \<lparr>cs_data = Some d, submit = None\<rparr>, refs)
           | Inr (Some (bos, refs')) \<Rightarrow>
               Inr (VK_SUCCESS, \<lparr>cs_data = Some d, submit = Some bos\<rparr>, refs')))"

definition vn_instance_submission_can_direct :: "vn_cs_encoder \<Rightarrow> bool" where
  "vn_instance_submission_can_direct cs \<longleftrightarrow> vn_cs_encoder_get_len cs \<le> 256"

text \<open>The result is the encoder to submit instead: \<open>None\<close> is \<^verbatim>\<open>NULL\<close>.\<close>

definition vn_instance_ring_cs_upload_locked ::
  "vn_instance \<Rightarrow> vn_cs_encoder \<Rightarrow> submit_outcome \<Rightarrow>
   fault + vn_cs_encoder option \<times> vn_instance" where
  "vn_instance_ring_cs_upload_locked instance cs out =
     (if \<not> (\<not> indirect cs \<and> length (buffers cs) = 1) then Inl AssertionFailed
      else if total_committed_size cs \<noteq> vn_cs_encoder_get_len cs then Inl AssertionFailed
      else (let upload = vn_cs_encoder_reset (ring_upload instance)
            in case vn_cs_encoder_reserve upload (upload_reserve out) of
                 None \<Rightarrow> Inr (None, instance\<lparr>ring_upload := upload\<rparr>)
               | Some reserved \<Rightarrow>
                   (let upload' = vn_cs_encoder_commit
                          (vn_cs_encoder_write reserved
                             (take (total_committed_size cs) (buf_base (hd (buffers cs)))))
                    in case vn_instance_wait_roundtrip (extra_loads out)
                              (current_buffer_roundtrip upload') 0 of
                         None \<Rightarrow> Inl Blocked
                       | Some n \<Rightarrow> Inr (Some upload', instance\<lparr>ring_upload := upload'\<rparr>))))"

text \<open>
  The result, the sequence number of the submission when there is one, and the instance
  afterwards.
\<close>

definition vn_instance_ring_submit_locked ::
  "vn_protocol \<Rightarrow> vn_instance \<Rightarrow> vn_cs_encoder \<Rightarrow> nat option \<Rightarrow> submit_outcome \<Rightarrow>
   fault + VkResult \<times> 32 word option \<times> vn_instance" where
  "vn_instance_ring_submit_locked p instance cs extra_bo out =
     (let direct = vn_instance_submission_can_direct cs
      in case (if \<not> direct \<and> \<not> indirect cs
               then vn_instance_ring_cs_upload_locked instance cs out
               else Inr (Some cs, instance)) of
           Inl f \<Rightarrow> Inl f
         | Inr (None, instance') \<Rightarrow> Inr (VK_ERROR_OUT_OF_HOST_MEMORY, None, instance')
         | Inr (Some cs', instance') \<Rightarrow>
             if \<not> direct \<and> \<not> indirect cs \<and> \<not> indirect cs' then Inl AssertionFailed
             else (case vn_instance_submission_prepare p (bo_refs instance') cs' extra_bo
                          direct out of
                     Inl f \<Rightarrow> Inl f
                   | Inr (result, submission, refs) \<Rightarrow>
                       if result \<noteq> VK_SUCCESS then Inr (result, None, instance')
                       else (case (cs_data submission, submit submission) of
                               (Some d, Some bos) \<Rightarrow>
                                 (let (ring', seqno) = vn_ring_submit (ring instance') bos d;
                                      calls = renderer_calls instance' @
                                              (if notify out then [NotifyRing seqno] else [])
                                  in Inr (VK_SUCCESS, Some seqno,
                                          instance'\<lparr>ring := ring', bo_refs := refs,
                                                    renderer_calls := calls\<rparr>))
                             | _ \<Rightarrow> Inl NullPointer)))"

subsection \<open>The reply buffer\<close>

text \<open>
  The doubling loop of \<^verbatim>\<open>vn_instance_grow_reply_bo_locked\<close>.  The outer option is whether the loop
  is left at all; inside, \<open>None\<close> is the \<^verbatim>\<open>return false\<close> taken when the size has been shifted
  to zero.
\<close>

partial_function (option) grow_bo_size :: "size_t \<Rightarrow> size_t \<Rightarrow> size_t option option" where
  "grow_bo_size bo_size sz =
     (if bo_size < sz
      then (let bo_size' = push_bit 1 bo_size
            in if bo_size' = 0 then Some None else grow_bo_size bo_size' sz)
      else Some (Some bo_size))"

text \<open>
  What a growth finds outside the driver: the result of \<^verbatim>\<open>vn_renderer_bo_create_cpu\<close> with the
  BO it makes, and the address at which \<^verbatim>\<open>vn_renderer_bo_map\<close> maps it (\<open>None\<close> is \<^verbatim>\<open>NULL\<close>).
\<close>

record grow_outcome =
  bo_create_result :: VkResult
  bo_created :: nat
  bo_map :: "size_t option"

definition min_bo_size :: size_t where
  "min_bo_size = push_bit 20 1"

definition vn_instance_grow_reply_bo_locked ::
  "vn_instance \<Rightarrow> size_t \<Rightarrow> grow_outcome \<Rightarrow> fault + bool \<times> vn_instance" where
  "vn_instance_grow_reply_bo_locked instance sz out =
     (case grow_bo_size (if reply_size instance \<noteq> 0 then reply_size instance else min_bo_size)
             sz of
        None \<Rightarrow> Inl Blocked
      | Some None \<Rightarrow> Inr (False, instance)
      | Some (Some bo_size) \<Rightarrow>
          (let instance1 = instance\<lparr>renderer_calls :=
                 renderer_calls instance @ [Bo_create_cpu bo_size (bo_created out)]\<rparr>
           in if bo_create_result out \<noteq> VK_SUCCESS then Inr (False, instance1)
              else (let instance2 = instance1\<lparr>bo_refs := (bo_refs instance1)(bo_created out := 1)\<rparr>
                    in case bo_map out of
                         None \<Rightarrow>
                           Inr (False, instance2\<lparr>bo_refs :=
                                  vn_renderer_bo_unref (bo_created out) (bo_refs instance2)\<rparr>)
                       | Some ptr \<Rightarrow>
                           (let refs = (case reply_bo instance2 of
                                          None \<Rightarrow> bo_refs instance2
                                        | Some old \<Rightarrow> vn_renderer_bo_unref old (bo_refs instance2))
                            in Inr (True, instance2\<lparr>bo_refs := refs,
                                                    reply_bo := Some (bo_created out),
                                                    reply_size := bo_size,
                                                    reply_used := 0,
                                                    reply_ptr := ptr\<rparr>)))))"

text \<open>
  \<^verbatim>\<open>vn_instance_roundtrip\<close>: the next roundtrip number goes to the renderer, and when the
  renderer took it the instance polls for it.
\<close>

definition vn_instance_submit_roundtrip ::
  "vn_instance \<Rightarrow> VkResult \<Rightarrow> VkResult \<times> 32 word \<times> vn_instance" where
  "vn_instance_submit_roundtrip instance submit_result =
     (let seqno = roundtrip_next instance
      in (submit_result, seqno,
          instance\<lparr>roundtrip_next := seqno + 1,
                   renderer_calls := renderer_calls instance @ [WriteRingExtra seqno]\<rparr>))"

definition vn_instance_roundtrip ::
  "vn_instance \<Rightarrow> VkResult \<Rightarrow> (nat \<Rightarrow> 32 word) \<Rightarrow> fault + vn_instance" where
  "vn_instance_roundtrip instance submit_result loads =
     (case vn_instance_submit_roundtrip instance submit_result of
        (result, seqno, instance') \<Rightarrow>
          if result = VK_SUCCESS
          then (case vn_instance_wait_roundtrip loads seqno 0 of
                  None \<Rightarrow> Inl Blocked
                | Some n \<Rightarrow> Inr instance')
          else Inr instance')"

text \<open>
  What a request for reply space finds outside the driver: the outcome of a growth, of the
  roundtrip that follows it, and of the two ring submissions the function makes (the new
  reply stream, the seek).
\<close>

record reply_outcome =
  grow :: grow_outcome
  roundtrip_result :: VkResult
  roundtrip_loads :: "nat \<Rightarrow> 32 word"
  set_reply_submit :: submit_outcome
  seek_submit :: submit_outcome

text \<open>The result is the reply BO (\<open>None\<close> is \<^verbatim>\<open>NULL\<close>) and the address stored through \<^verbatim>\<open>ptr\<close>.\<close>

definition vn_instance_get_reply_bo_locked ::
  "vn_protocol \<Rightarrow> vn_instance \<Rightarrow> size_t \<Rightarrow> reply_outcome \<Rightarrow>
   fault + nat option \<times> size_t option \<times> vn_instance" where
  "vn_instance_get_reply_bo_locked p instance sz out =
     (case (if reply_used instance + sz > reply_size instance
            then (case vn_instance_grow_reply_bo_locked instance sz (grow out) of
                    Inl f \<Rightarrow> Inl f
                  | Inr (False, instance') \<Rightarrow> Inr (False, instance')
                  | Inr (True, instance') \<Rightarrow>
                      (case reply_bo instance' of
                         None \<Rightarrow> Inl NullPointer
                       | Some b \<Rightarrow>
                           (let enc = vn_cs_encoder_commit (local_enc
                                  (vn_encode_vkSetReplyCommandStreamMESA p b (reply_size instance')))
                            in case vn_instance_roundtrip instance' (roundtrip_result out)
                                      (roundtrip_loads out) of
                                 Inl f \<Rightarrow> Inl f
                               | Inr instance'' \<Rightarrow>
                                   (case vn_instance_ring_submit_locked p instance'' enc None
                                           (set_reply_submit out) of
                                      Inl f \<Rightarrow> Inl f
                                    | Inr (result, seqno, instance''') \<Rightarrow>
                                        Inr (True, instance''')))))
            else Inr (True, instance)) of
        Inl f \<Rightarrow> Inl f
      | Inr (False, instance') \<Rightarrow> Inr (None, None, instance')
      | Inr (True, instance') \<Rightarrow>
          (let offset = reply_used instance';
               enc = vn_cs_encoder_commit (local_enc
                       (vn_encode_vkSeekReplyCommandStreamMESA p offset))
           in case vn_instance_ring_submit_locked p instance' enc None (seek_submit out) of
                Inl f \<Rightarrow> Inl f
              | Inr (result, seqno, instance'') \<Rightarrow>
                  (case reply_bo instance'' of
                     None \<Rightarrow> Inl NullPointer
                   | Some b \<Rightarrow>
                       Inr (Some b, Some (reply_ptr instance'' + offset),
                            instance''\<lparr>reply_used := reply_used instance'' + sz,
                                       bo_refs := vn_renderer_bo_ref b (bo_refs instance'')\<rparr>))))"

subsection \<open>Submitting a command\<close>

text \<open>
  \<^verbatim>\<open>struct vn_instance_submit_command\<close>: the command, the size of the reply the caller expects,
  and what the call hands back, the reply BO and the address of the reply.  Taking a mutex that
  is held never returns.  The wait for the ring that ends a successful call with a reply
  changes none of the state below and is left out.
\<close>

record vn_instance_submit_command =
  command :: vn_cs_encoder
  cmd_reply_size :: size_t
  cmd_reply_bo :: "nat option"
  cmd_reply :: "size_t option"

definition vn_instance_submit_command ::
  "vn_protocol \<Rightarrow> vn_instance \<Rightarrow> vn_instance_submit_command \<Rightarrow> reply_outcome \<Rightarrow>
   submit_outcome \<Rightarrow> fault + vn_instance_submit_command \<times> vn_instance" where
  "vn_instance_submit_command p instance sub rout out =
     (let sub0 = sub\<lparr>cmd_reply_bo := None\<rparr>;
          locked = instance\<lparr>ring_mutex := True\<rparr>;
          fail = (\<lambda>s i. Inr (s, i\<lparr>ring_command_dropped := ring_command_dropped i + 1,
                                 ring_mutex := False\<rparr>))
      in if ring_mutex instance then Inl Blocked
         else if vn_cs_encoder_is_empty (command sub0) then fail sub0 locked
         else (let sub1 = sub0\<lparr>command := vn_cs_encoder_commit (command sub0)\<rparr>
               in case (if cmd_reply_size sub1 \<noteq> 0
                        then vn_instance_get_reply_bo_locked p locked (cmd_reply_size sub1) rout
                        else Inr (None, None, locked)) of
                    Inl f \<Rightarrow> Inl f
                  | Inr (b, ptr, instance1) \<Rightarrow>
                      if cmd_reply_size sub1 \<noteq> 0 \<and> b = None
                      then fail (sub1\<lparr>cmd_reply_bo := None\<rparr>) instance1
                      else (case vn_instance_ring_submit_locked p instance1 (command sub1) b out of
                              Inl f \<Rightarrow> Inl f
                            | Inr (result, seqno, instance2) \<Rightarrow>
                                Inr (sub1\<lparr>cmd_reply_bo := b, cmd_reply := ptr\<rparr>,
                                     instance2\<lparr>ring_mutex := False\<rparr>))))"


section \<open>A ring submission whose allocation fails\<close>

text \<open>
  The allocations of \<^verbatim>\<open>vn_instance_submission_prepare\<close> that fail: the descriptors are more than
  the eight that fit the local array and their \<^verbatim>\<open>malloc\<close> fails, or the execute command is
  longer than the 256 bytes of local data and its \<^verbatim>\<open>malloc\<close> fails, or \<^verbatim>\<open>vn_ring_get_submit\<close>
  fails.
\<close>

definition prepare_allocation_fails ::
  "vn_protocol \<Rightarrow> vn_cs_encoder \<Rightarrow> bool \<Rightarrow> submit_outcome \<Rightarrow> bool" where
  "prepare_allocation_fails p cs direct out \<longleftrightarrow>
     (\<not> direct \<and> 8 < length (buffers cs) \<and> \<not> descs_alloc out) \<or>
     (\<not> direct \<and> \<not> exec_alloc out \<and>
      (case command_stream_descriptions (buffers cs) of
         Inl f \<Rightarrow> False
       | Inr descs \<Rightarrow> 256 < length (vn_encode_vkExecuteCommandStreamsMESA p descs))) \<or>
     \<not> ring_get_submit out"

text \<open>
  The allocations of a whole ring submission that fail: reserving the upload buffer when the
  command has to be uploaded, or one of the above for the encoder that is then prepared.
\<close>

definition allocation_fails ::
  "vn_protocol \<Rightarrow> vn_instance \<Rightarrow> vn_cs_encoder \<Rightarrow> submit_outcome \<Rightarrow> bool" where
  "allocation_fails p instance cs out \<longleftrightarrow>
     (if vn_instance_submission_can_direct cs \<or> indirect cs
      then prepare_allocation_fails p cs (vn_instance_submission_can_direct cs) out
      else (case vn_instance_ring_cs_upload_locked instance cs out of
              Inl f \<Rightarrow> False
            | Inr (None, instance') \<Rightarrow> True
            | Inr (Some cs', instance') \<Rightarrow> prepare_allocation_fails p cs' False out))"

lemma prepare_not_success:
  assumes "vn_instance_submission_prepare p refs cs extra_bo direct out =
           Inr (result, submission, refs')"
      and "result \<noteq> VK_SUCCESS"
  shows "result = VK_ERROR_OUT_OF_HOST_MEMORY \<and> refs' = refs"
  using assms
  by (auto simp: vn_instance_submission_prepare_def
           split: sum.splits option.splits if_splits prod.splits)

lemma prepare_allocation_fails_result:
  assumes "vn_instance_submission_prepare p refs cs extra_bo direct out =
           Inr (result, submission, refs')"
      and "prepare_allocation_fails p cs direct out"
  shows "result = VK_ERROR_OUT_OF_HOST_MEMORY"
  using assms
  by (auto simp: vn_instance_submission_prepare_def prepare_allocation_fails_def
                 vn_instance_submission_indirect_cs_def Let_def
                 vn_instance_submission_get_ring_submit_def
           split: sum.splits option.splits if_splits prod.splits)

lemma upload_frame:
  assumes "vn_instance_ring_cs_upload_locked instance cs out = Inr (r, instance')"
  shows "ring instance' = ring instance \<and> bo_refs instance' = bo_refs instance \<and>
         renderer_calls instance' = renderer_calls instance"
  using assms
  by (auto simp: vn_instance_ring_cs_upload_locked_def Let_def
           split: option.splits if_splits)

text \<open>
  When an allocation fails and the call returns, it returns \<^verbatim>\<open>VK_ERROR_OUT_OF_HOST_MEMORY\<close> and
  has left the ring, the renderer and the reference counts alone.
\<close>

lemma ring_submit_failure_frame:
  assumes "vn_instance_ring_submit_locked p instance cs extra_bo out =
           Inr (result, seqno, instance')"
      and "allocation_fails p instance cs out"
  shows "result = VK_ERROR_OUT_OF_HOST_MEMORY \<and> seqno = None \<and>
         ring instance' = ring instance \<and>
         renderer_calls instance' = renderer_calls instance \<and>
         bo_refs instance' = bo_refs instance"
proof (cases "vn_instance_submission_can_direct cs \<or> indirect cs")
  case True
  with assms(2) have fails:
    "prepare_allocation_fails p cs (vn_instance_submission_can_direct cs) out"
    by (simp add: allocation_fails_def)
  from assms(1) True obtain r submission refs where
    prep: "vn_instance_submission_prepare p (bo_refs instance) cs extra_bo
             (vn_instance_submission_can_direct cs) out = Inr (r, submission, refs)"
    by (auto simp: vn_instance_ring_submit_locked_def Let_def split: sum.splits prod.splits)
  from prepare_allocation_fails_result [OF prep fails]
  have r: "r = VK_ERROR_OUT_OF_HOST_MEMORY" .
  with assms(1) True prep show ?thesis
    by (auto simp: vn_instance_ring_submit_locked_def Let_def)
next
  case False
  show ?thesis
  proof (cases "vn_instance_ring_cs_upload_locked instance cs out")
    case (Inl f)
    with assms(1) False show ?thesis
      by (auto simp: vn_instance_ring_submit_locked_def Let_def)
  next
    case (Inr res)
    obtain cso instance1 where res: "res = (cso, instance1)"
      by (cases res)
    from upload_frame [OF Inr [unfolded res]]
    have frame: "ring instance1 = ring instance" "bo_refs instance1 = bo_refs instance"
      "renderer_calls instance1 = renderer_calls instance"
      by simp_all
    show ?thesis
    proof (cases cso)
      case None
      with assms(1) False Inr res frame show ?thesis
        by (auto simp: vn_instance_ring_submit_locked_def Let_def)
    next
      case (Some cs')
      with assms(2) False Inr res have fails: "prepare_allocation_fails p cs' False out"
        by (simp add: allocation_fails_def)
      from assms(1) False Inr res Some obtain r submission refs where
        prep: "vn_instance_submission_prepare p (bo_refs instance1) cs' extra_bo False out =
               Inr (r, submission, refs)"
        by (auto simp: vn_instance_ring_submit_locked_def Let_def
                 split: sum.splits prod.splits if_splits)
      from prepare_allocation_fails_result [OF prep fails]
      have r: "r = VK_ERROR_OUT_OF_HOST_MEMORY" .
      with assms(1) False Inr res Some prep frame show ?thesis
        by (auto simp: vn_instance_ring_submit_locked_def Let_def split: if_splits)
    qed
  qed
qed


text \<open>
  What keeps a ring submission from ending without a result. A command that goes directly
  needs nothing. An encoder that is uploaded has one buffer, all of it committed (the code
  asserts this); if the upload buffer can be reserved, the upload encoder is an indirect one
  (asserted too) and the renderer at some time answers the roundtrip of that buffer, for which
  the call waits. An indirect encoder has a BO behind each of its buffers.
\<close>

definition buffers_have_bo :: "vn_cs_encoder \<Rightarrow> bool" where
  "buffers_have_bo cs \<longleftrightarrow> (\<forall>buf\<in>set (buffers cs). buf_bo buf \<noteq> None)"

definition submittable :: "vn_instance \<Rightarrow> vn_cs_encoder \<Rightarrow> submit_outcome \<Rightarrow> bool" where
  "submittable instance cs out \<longleftrightarrow>
     vn_instance_submission_can_direct cs \<or>
     (if indirect cs then buffers_have_bo cs
      else length (buffers cs) = 1 \<and> total_committed_size cs = vn_cs_encoder_get_len cs \<and>
           (case upload_reserve out of
              None \<Rightarrow> True
            | Some (b, off, rt) \<Rightarrow>
                indirect (ring_upload instance) \<and>
                (\<exists>k. roundtrip_reached (extra_loads out k) rt)))"

lemma command_stream_descriptions_returns:
  "\<forall>buf\<in>set bufs. buf_bo buf \<noteq> None \<Longrightarrow> \<exists>descs. command_stream_descriptions bufs = Inr descs"
  by (induction bufs) auto

lemma prepare_returns:
  assumes "direct \<longrightarrow> vn_cs_encoder_get_len cs \<le> 256"
      and "\<not> direct \<longrightarrow> buffers_have_bo cs"
  shows "\<exists>result submission refs'.
           vn_instance_submission_prepare p refs cs extra_bo direct out =
           Inr (result, submission, refs')"
proof (cases direct)
  case True
  with assms(1) show ?thesis
    by (auto simp: vn_instance_submission_prepare_def vn_instance_submission_direct_cs_def
        vn_instance_submission_get_ring_submit_def Let_def)
next
  case False
  with assms(2) have bo: "\<forall>buf\<in>set (buffers cs). buf_bo buf \<noteq> None"
    by (simp add: buffers_have_bo_def)
  from command_stream_descriptions_returns [OF bo] obtain descs where
    descs: "command_stream_descriptions (buffers cs) = Inr descs"
    by blast
  from bo have none: "None \<notin> buf_bo ` set (buffers cs)"
    by auto
  from False descs none show ?thesis
    by (auto simp: vn_instance_submission_prepare_def vn_instance_submission_indirect_cs_def
        vn_instance_submission_get_ring_submit_def Let_def)
qed

lemma upload_returns:
  assumes "\<not> indirect cs" "length (buffers cs) = 1"
      and "total_committed_size cs = vn_cs_encoder_get_len cs"
      and "upload_reserve out = Some (b, off, rt)"
      and "indirect (ring_upload instance)"
      and "roundtrip_reached (extra_loads out k) rt"
  shows "\<exists>cs'. vn_instance_ring_cs_upload_locked instance cs out =
                  Inr (Some cs', instance\<lparr>ring_upload := cs'\<rparr>) \<and>
               indirect cs' \<and> buffers_have_bo cs'"
proof -
  from wait_roundtrip_terminates [of 0 k "extra_loads out" rt] assms(6)
  obtain n where "vn_instance_wait_roundtrip (extra_loads out) rt 0 = Some n"
    by auto
  with assms(1-5) show ?thesis
    by (simp add: vn_instance_ring_cs_upload_locked_def vn_cs_encoder_reset_def
        vn_cs_encoder_reserve_def vn_cs_encoder_write_def vn_cs_encoder_commit_def
        buffers_have_bo_def Let_def)
qed

text \<open>
  C6. When an allocation of a ring submission fails (the descriptor array, the buffer of
  the execute command, the ring-submit structure, the reservation in the upload buffer),
  \<^verbatim>\<open>vn_instance_ring_submit_locked\<close> returns \<^verbatim>\<open>VK_ERROR_OUT_OF_HOST_MEMORY\<close> with no sequence
  number, and the ring (its bytes, its tail, the submissions it holds), the calls made to the
  renderer (so no notification) and the reference count of every BO are what they were before
  the call.
\<close>

theorem ring_submit_allocation_failure:
  assumes fails: "allocation_fails p instance cs out"
      and ok: "submittable instance cs out"
  shows "\<exists>instance'.
           vn_instance_ring_submit_locked p instance cs extra_bo out =
             Inr (VK_ERROR_OUT_OF_HOST_MEMORY, None, instance') \<and>
           ring instance' = ring instance \<and>
           renderer_calls instance' = renderer_calls instance \<and>
           bo_refs instance' = bo_refs instance"
proof -
  have "\<exists>result seqno instance'.
          vn_instance_ring_submit_locked p instance cs extra_bo out =
          Inr (result, seqno, instance')"
  proof (cases "vn_instance_submission_can_direct cs \<or> indirect cs")
    case True
    with fails have pf:
      "prepare_allocation_fails p cs (vn_instance_submission_can_direct cs) out"
      by (simp add: allocation_fails_def)
    from True ok have
      "vn_instance_submission_can_direct cs \<longrightarrow> vn_cs_encoder_get_len cs \<le> 256"
      "\<not> vn_instance_submission_can_direct cs \<longrightarrow> buffers_have_bo cs"
      by (auto simp: submittable_def vn_instance_submission_can_direct_def)
    from prepare_returns [OF this] obtain result submission refs' where
      prep: "vn_instance_submission_prepare p (bo_refs instance) cs extra_bo
               (vn_instance_submission_can_direct cs) out = Inr (result, submission, refs')"
      by blast
    from prepare_allocation_fails_result [OF prep pf]
    have "result = VK_ERROR_OUT_OF_HOST_MEMORY" .
    with True prep show ?thesis
      by (auto simp: vn_instance_ring_submit_locked_def Let_def)
  next
    case False
    with ok have one: "length (buffers cs) = 1"
      and all: "total_committed_size cs = vn_cs_encoder_get_len cs"
      and res: "case upload_reserve out of
                  None \<Rightarrow> True
                | Some (b, off, rt) \<Rightarrow>
                    indirect (ring_upload instance) \<and>
                    (\<exists>k. roundtrip_reached (extra_loads out k) rt)"
      by (simp_all add: submittable_def)
    show ?thesis
    proof (cases "upload_reserve out")
      case None
      with False one all show ?thesis
        by (simp add: vn_instance_ring_submit_locked_def vn_instance_ring_cs_upload_locked_def
            vn_cs_encoder_reserve_def Let_def)
    next
      case (Some r)
      obtain b off rt where r: "r = (b, off, rt)"
        by (cases r)
      from res Some r obtain k where
        up: "indirect (ring_upload instance)" and
        reached: "roundtrip_reached (extra_loads out k) rt"
        by auto
      from False have ni: "\<not> indirect cs" by simp
      from upload_returns [OF ni one all Some [unfolded r] up reached] obtain cs' where
        upload: "vn_instance_ring_cs_upload_locked instance cs out =
                   Inr (Some cs', instance\<lparr>ring_upload := cs'\<rparr>)"
        and cs': "indirect cs'" "buffers_have_bo cs'"
        by blast
      from fails False upload have pf: "prepare_allocation_fails p cs' False out"
        by (simp add: allocation_fails_def)
      from cs'(2) have "False \<longrightarrow> vn_cs_encoder_get_len cs' \<le> 256"
        "\<not> False \<longrightarrow> buffers_have_bo cs'"
        by simp_all
      from prepare_returns [OF this] obtain result submission refs' where
        prep: "vn_instance_submission_prepare p (bo_refs (instance\<lparr>ring_upload := cs'\<rparr>)) cs'
                 extra_bo False out = Inr (result, submission, refs')"
        by blast
      from prepare_allocation_fails_result [OF prep pf]
      have "result = VK_ERROR_OUT_OF_HOST_MEMORY" .
      with False upload cs'(1) prep show ?thesis
        by (auto simp: vn_instance_ring_submit_locked_def Let_def)
    qed
  qed
  then obtain result seqno instance' where
    run: "vn_instance_ring_submit_locked p instance cs extra_bo out =
          Inr (result, seqno, instance')"
    by blast
  from ring_submit_failure_frame [OF run fails] run show ?thesis
    by simp
qed

subsection \<open>Example instance\<close>

definition example_protocol :: vn_protocol where
  "example_protocol =
     \<lparr>vn_encode_vkExecuteCommandStreamsMESA = (\<lambda>descs. 3 # map (\<lambda>d. of_nat (fst d)) descs),
      vn_encode_vkSetReplyCommandStreamMESA = (\<lambda>b s. [4, of_nat b]),
      vn_encode_vkSeekReplyCommandStreamMESA = (\<lambda>off. [5, ucast off])\<rparr>"

definition example_instance :: vn_instance where
  "example_instance =
     \<lparr>ring = \<lparr>ring_data = [], ring_cur = 0, ring_submits = []\<rparr>,
      ring_mutex = False,
      ring_upload = \<lparr>buffers = [], indirect = True, current_buffer_roundtrip = 0\<rparr>,
      ring_command_dropped = 0,
      reply_bo = None, reply_size = 0, reply_used = 0, reply_ptr = 0,
      roundtrip_next = 10,
      bo_refs = (\<lambda>b. 0),
      renderer_calls = []\<rparr>"

text \<open>A command of 300 bytes in one buffer: too long to go directly, so it is uploaded.\<close>

definition large_command :: vn_cs_encoder where
  "large_command =
     \<lparr>buffers = [\<lparr>buf_bo = None, buf_base = replicate 300 7, buf_offset = 0,
                  committed_size = 300\<rparr>],
      indirect = False, current_buffer_roundtrip = 0\<rparr>"

text \<open>Every allocation succeeds but the one of \<^verbatim>\<open>vn_ring_get_submit\<close>.\<close>

definition no_ring_submit :: submit_outcome where
  "no_ring_submit =
     \<lparr>descs_alloc = True, exec_alloc = True, ring_get_submit = False,
      upload_reserve = Some (700, 0, 5), notify = True, extra_loads = (\<lambda>n. 5)\<rparr>"

definition uploaded :: vn_cs_encoder where
  "uploaded =
     \<lparr>buffers = [\<lparr>buf_bo = Some 700, buf_base = replicate 300 7, buf_offset = 0,
                  committed_size = 300\<rparr>],
      indirect = True, current_buffer_roundtrip = 5\<rparr>"

lemma large_command_upload:
  "vn_instance_ring_cs_upload_locked example_instance large_command no_ring_submit =
   Inr (Some uploaded, example_instance\<lparr>ring_upload := uploaded\<rparr>)"
  by (simp add: vn_instance_ring_cs_upload_locked_def large_command_def no_ring_submit_def
      example_instance_def uploaded_def total_committed_size_def vn_cs_encoder_get_len_def
      vn_cs_encoder_reset_def vn_cs_encoder_reserve_def vn_cs_encoder_write_def
      vn_cs_encoder_commit_def vn_instance_wait_roundtrip.simps roundtrip_reached_def Let_def)

lemma large_command_not_direct:
  "\<not> vn_instance_submission_can_direct large_command \<and> \<not> indirect large_command"
  by (simp add: vn_instance_submission_can_direct_def large_command_def
      vn_cs_encoder_get_len_def total_committed_size_def)

text \<open>
  The other three allocations: the upload buffer cannot be reserved; an indirect command
  of nine buffers of 40 bytes finds no memory for its nine descriptors; the same command,
  under a wire format of 32 bytes a descriptor, finds none for the 320 bytes of its execute
  command.
\<close>

definition no_upload :: submit_outcome where
  "no_upload =
     \<lparr>descs_alloc = True, exec_alloc = True, ring_get_submit = True,
      upload_reserve = None, notify = True, extra_loads = (\<lambda>n. 5)\<rparr>"

definition no_descs :: submit_outcome where
  "no_descs =
     \<lparr>descs_alloc = False, exec_alloc = True, ring_get_submit = True,
      upload_reserve = Some (700, 0, 5), notify = True, extra_loads = (\<lambda>n. 5)\<rparr>"

definition no_exec :: submit_outcome where
  "no_exec =
     \<lparr>descs_alloc = True, exec_alloc = False, ring_get_submit = True,
      upload_reserve = Some (700, 0, 5), notify = True, extra_loads = (\<lambda>n. 5)\<rparr>"

definition chunk :: vn_cs_encoder_buffer where
  "chunk = \<lparr>buf_bo = Some 900, buf_base = replicate 40 1, buf_offset = 0, committed_size = 40\<rparr>"

definition chunked_command :: vn_cs_encoder where
  "chunked_command = \<lparr>buffers = replicate 9 chunk, indirect = True, current_buffer_roundtrip = 0\<rparr>"

definition wide_protocol :: vn_protocol where
  "wide_protocol =
     \<lparr>vn_encode_vkExecuteCommandStreamsMESA = (\<lambda>descs. replicate (32 + 32 * length descs) 3),
      vn_encode_vkSetReplyCommandStreamMESA = (\<lambda>b s. [4, of_nat b]),
      vn_encode_vkSeekReplyCommandStreamMESA = (\<lambda>off. [5, ucast off])\<rparr>"

lemma chunk_descriptions:
  "command_stream_descriptions (replicate n chunk) = Inr (replicate n (900, 0, 40))"
  by (induction n) (simp_all add: chunk_def)

lemma chunked_command_indirect:
  "\<not> vn_instance_submission_can_direct chunked_command \<and> indirect chunked_command \<and>
   length (buffers chunked_command) = 9 \<and> buffers_have_bo chunked_command"
  by (simp add: vn_instance_submission_can_direct_def chunked_command_def
      vn_cs_encoder_get_len_def total_committed_size_def sum_list_replicate chunk_def
      buffers_have_bo_def)

lemma large_command_no_upload:
  "vn_instance_ring_cs_upload_locked example_instance large_command no_upload =
   Inr (None, example_instance)"
  by (simp add: vn_instance_ring_cs_upload_locked_def large_command_def no_upload_def
      example_instance_def total_committed_size_def vn_cs_encoder_get_len_def
      vn_cs_encoder_reset_def vn_cs_encoder_reserve_def Let_def)

theorem ring_submit_allocation_failure_witness:
  "vn_instance_ring_submit_locked example_protocol example_instance large_command None
     no_ring_submit =
   Inr (VK_ERROR_OUT_OF_HOST_MEMORY, None, example_instance\<lparr>ring_upload := uploaded\<rparr>) \<and>
   allocation_fails example_protocol example_instance large_command no_ring_submit \<and>
   submittable example_instance large_command no_ring_submit \<and>
   ring (example_instance\<lparr>ring_upload := uploaded\<rparr>) = ring example_instance \<and>
   renderer_calls (example_instance\<lparr>ring_upload := uploaded\<rparr>) =
     renderer_calls example_instance \<and>
   bo_refs (example_instance\<lparr>ring_upload := uploaded\<rparr>) = bo_refs example_instance \<and>
   vn_instance_ring_submit_locked example_protocol example_instance large_command None
     no_upload = Inr (VK_ERROR_OUT_OF_HOST_MEMORY, None, example_instance) \<and>
   allocation_fails example_protocol example_instance large_command no_upload \<and>
   submittable example_instance large_command no_upload \<and>
   vn_instance_ring_submit_locked example_protocol example_instance chunked_command None
     no_descs = Inr (VK_ERROR_OUT_OF_HOST_MEMORY, None, example_instance) \<and>
   allocation_fails example_protocol example_instance chunked_command no_descs \<and>
   submittable example_instance chunked_command no_descs \<and>
   vn_instance_ring_submit_locked wide_protocol example_instance chunked_command None
     no_exec = Inr (VK_ERROR_OUT_OF_HOST_MEMORY, None, example_instance) \<and>
   allocation_fails wide_protocol example_instance chunked_command no_exec \<and>
   submittable example_instance chunked_command no_exec"
proof -
  have prep_fails: "prepare_allocation_fails example_protocol uploaded False no_ring_submit"
    by (simp add: prepare_allocation_fails_def no_ring_submit_def)
  have fails: "allocation_fails example_protocol example_instance large_command no_ring_submit"
    using large_command_not_direct prep_fails
    by (simp add: allocation_fails_def large_command_upload)
  have prep: "vn_instance_submission_prepare example_protocol (bo_refs example_instance)
                uploaded None False no_ring_submit =
              Inr (VK_ERROR_OUT_OF_HOST_MEMORY,
                   \<lparr>cs_data = Some [3, of_nat 700], submit = None\<rparr>, bo_refs example_instance)"
    by (simp add: vn_instance_submission_prepare_def vn_instance_submission_indirect_cs_def
        vn_instance_submission_get_ring_submit_def uploaded_def example_protocol_def
        no_ring_submit_def)
  have run: "vn_instance_ring_submit_locked example_protocol example_instance large_command
               None no_ring_submit =
             Inr (VK_ERROR_OUT_OF_HOST_MEMORY, None,
                  example_instance\<lparr>ring_upload := uploaded\<rparr>)"
    using large_command_not_direct prep
    by (simp add: vn_instance_ring_submit_locked_def large_command_upload uploaded_def)
  have ok: "submittable example_instance large_command no_ring_submit"
  proof -
    have "roundtrip_reached (extra_loads no_ring_submit 0) 5"
      by (simp add: no_ring_submit_def roundtrip_reached_def)
    then have "\<exists>k. roundtrip_reached (extra_loads no_ring_submit k) 5"
      by blast
    moreover have "upload_reserve no_ring_submit = Some (700, 0, 5)"
      "indirect (ring_upload example_instance)"
      "length (buffers large_command) = 1"
      "total_committed_size large_command = vn_cs_encoder_get_len large_command"
      by (simp_all add: no_ring_submit_def example_instance_def large_command_def
          total_committed_size_def vn_cs_encoder_get_len_def)
    ultimately show ?thesis
      using large_command_not_direct by (simp add: submittable_def)
  qed
  note b = ring_submit_allocation_failure [OF fails ok, of None]
  have fails_a: "allocation_fails example_protocol example_instance large_command no_upload"
    using large_command_not_direct
    by (simp add: allocation_fails_def large_command_no_upload)
  have ok_a: "submittable example_instance large_command no_upload"
    using large_command_not_direct
    by (simp add: submittable_def no_upload_def large_command_def total_committed_size_def
        vn_cs_encoder_get_len_def)
  have run_a: "vn_instance_ring_submit_locked example_protocol example_instance large_command
      None no_upload = Inr (VK_ERROR_OUT_OF_HOST_MEMORY, None, example_instance)"
    using large_command_not_direct
    by (simp add: vn_instance_ring_submit_locked_def large_command_no_upload)
  have fails_c: "allocation_fails example_protocol example_instance chunked_command no_descs"
    using chunked_command_indirect
    by (simp add: allocation_fails_def prepare_allocation_fails_def no_descs_def)
  have ok_c: "submittable example_instance chunked_command no_descs"
    "submittable example_instance chunked_command no_exec"
    using chunked_command_indirect by (simp_all add: submittable_def)
  have run_c: "vn_instance_ring_submit_locked example_protocol example_instance
      chunked_command None no_descs = Inr (VK_ERROR_OUT_OF_HOST_MEMORY, None, example_instance)"
    using chunked_command_indirect
    by (simp add: vn_instance_ring_submit_locked_def vn_instance_submission_prepare_def
        vn_instance_submission_indirect_cs_def no_descs_def)
  have long: "256 < length (vn_encode_vkExecuteCommandStreamsMESA wide_protocol
      (replicate 9 (900, 0, 40)))"
    by (simp add: wide_protocol_def)
  have descs: "command_stream_descriptions (buffers chunked_command) =
      Inr (replicate 9 (900, 0, 40))"
    by (simp add: chunked_command_def chunk_descriptions)
  have fails_d: "allocation_fails wide_protocol example_instance chunked_command no_exec"
    using chunked_command_indirect long
    by (simp add: allocation_fails_def prepare_allocation_fails_def descs) (simp add: no_exec_def)
  have run_d: "vn_instance_ring_submit_locked wide_protocol example_instance
      chunked_command None no_exec = Inr (VK_ERROR_OUT_OF_HOST_MEMORY, None, example_instance)"
    using chunked_command_indirect long
    by (simp add: vn_instance_ring_submit_locked_def vn_instance_submission_prepare_def
        vn_instance_submission_indirect_cs_def descs Let_def) (simp add: no_exec_def)
  note a = ring_submit_allocation_failure [OF fails_a ok_a, of None]
  note c = ring_submit_allocation_failure [OF fails_c ok_c(1), of None]
  note d = ring_submit_allocation_failure [OF fails_d ok_c(2), of None]
  from b run fails ok have first:
    "ring (example_instance\<lparr>ring_upload := uploaded\<rparr>) = ring example_instance \<and>
     renderer_calls (example_instance\<lparr>ring_upload := uploaded\<rparr>) =
       renderer_calls example_instance \<and>
     bo_refs (example_instance\<lparr>ring_upload := uploaded\<rparr>) = bo_refs example_instance"
    by simp
  from a c d have others:
    "\<exists>i. vn_instance_ring_submit_locked example_protocol example_instance large_command None
       no_upload = Inr (VK_ERROR_OUT_OF_HOST_MEMORY, None, i)"
    "\<exists>i. vn_instance_ring_submit_locked example_protocol example_instance chunked_command
       None no_descs = Inr (VK_ERROR_OUT_OF_HOST_MEMORY, None, i)"
    "\<exists>i. vn_instance_ring_submit_locked wide_protocol example_instance chunked_command None
       no_exec = Inr (VK_ERROR_OUT_OF_HOST_MEMORY, None, i)"
    by blast+
  from run fails ok first run_a fails_a ok_a run_c fails_c ok_c run_d fails_d others
  show ?thesis
    by simp
qed

section \<open>Growing the reply buffer\<close>

subsection \<open>The doubling loop\<close>

lemma unat_two_power: "k < 64 \<Longrightarrow> unat ((2::64 word) ^ k) = 2 ^ k"
proof -
  assume k: "k < 64"
  have "(2::64 word) ^ k = of_nat (2 ^ k)" by simp
  then have "unat ((2::64 word) ^ k) = 2 ^ k mod 2 ^ 64"
    by (simp only: unat_of_nat) simp
  moreover from k have "(2::nat) ^ k < 2 ^ 64"
    by (rule power_strict_increasing) simp
  ultimately show ?thesis by simp
qed

lemma grow_bo_size_returns_aux:
  "k \<le> 64 \<Longrightarrow> take_bit k b = 0 \<Longrightarrow> \<exists>r. grow_bo_size b sz = Some r"
proof (induction "64 - k" arbitrary: k b)
  case 0
  then have "k = 64" by simp
  with 0 take_bit_length_eq [of b] have "b = 0" by simp
  then show ?case
    by (simp add: grow_bo_size.simps)
next
  case (Suc n)
  then have k: "Suc k \<le> 64" and n: "n = 64 - Suc k" by simp_all
  have "take_bit (Suc k) (push_bit 1 b) = push_bit 1 (take_bit k b)"
    by (simp only: take_bit_push_bit diff_Suc_1)
  with Suc.prems have "take_bit (Suc k) (push_bit 1 b) = 0" by simp
  from Suc.hyps(1) [OF n k this] obtain r where "grow_bo_size (push_bit 1 b) sz = Some r"
    by blast
  then show ?case
    by (subst grow_bo_size.simps) (simp add: Let_def)
qed

lemma grow_bo_size_returns: "\<exists>r. grow_bo_size b sz = Some r"
  using grow_bo_size_returns_aux [of 0 b sz] by simp

lemma grow_bo_size_power:
  assumes "k < 64" and "unat sz \<le> 2 ^ 63"
  shows "\<exists>j. k \<le> j \<and> j < 64 \<and> grow_bo_size (2 ^ k) sz = Some (Some (2 ^ j)) \<and>
             unat sz \<le> 2 ^ j \<and> (j = k \<or> 2 ^ (j - 1) < unat sz)"
  using assms
proof (induction "63 - k" arbitrary: k)
  case 0
  then have k: "k = 63" by simp
  with 0 have "\<not> (2::64 word) ^ k < sz"
    by (simp add: word_less_nat_alt unat_two_power)
  then have "grow_bo_size (2 ^ k) sz = Some (Some (2 ^ k))"
    by (subst grow_bo_size.simps) simp
  with 0 k show ?case by auto
next
  case (Suc n)
  then have k: "Suc k < 64" and n: "n = 63 - Suc k" by simp_all
  show ?case
  proof (cases "(2::64 word) ^ k < sz")
    case False
    then have "grow_bo_size (2 ^ k) sz = Some (Some (2 ^ k))"
      by (subst grow_bo_size.simps) simp
    moreover from False Suc.prems have "\<not> 2 ^ k < unat sz"
      by (simp add: word_less_nat_alt unat_two_power)
    ultimately show ?thesis using Suc.prems by auto
  next
    case True
    with Suc.prems have lt: "2 ^ k < unat sz"
      by (simp add: word_less_nat_alt unat_two_power)
    from Suc.hyps(1) [OF n k Suc.prems(2)] obtain j where
      j: "Suc k \<le> j" "j < 64" "grow_bo_size (2 ^ Suc k) sz = Some (Some (2 ^ j))"
         "unat sz \<le> 2 ^ j" "j = Suc k \<or> 2 ^ (j - 1) < unat sz"
      by blast
    have nz: "(2::64 word) ^ Suc k \<noteq> 0"
      using k by (simp only: exp_eq_zero_iff) simp
    have step: "push_bit 1 ((2::64 word) ^ k) = 2 ^ Suc k"
      by (simp add: push_bit_eq_mult)
    have "grow_bo_size (2 ^ k) sz =
          (if (2::64 word) ^ k < sz
           then (let bo_size' = push_bit 1 ((2::64 word) ^ k)
                 in if bo_size' = 0 then Some None else grow_bo_size bo_size' sz)
           else Some (Some (2 ^ k)))"
      by (rule grow_bo_size.simps)
    also have "\<dots> = grow_bo_size (2 ^ Suc k) sz"
      unfolding step Let_def using True nz by (simp del: power_Suc)
    finally have run: "grow_bo_size (2 ^ k) sz = Some (Some (2 ^ j))"
      using j(3) by simp
    have prev: "2 ^ (j - 1) < unat sz"
      using j(5) lt by auto
    note upper = j(4)
    from j(1,2) run prev upper show ?thesis
      by (intro exI [of _ j]) auto
  qed
qed

lemma grow_bo_size_overflow:
  assumes "k < 64" and "2 ^ 63 < unat sz"
  shows "grow_bo_size (2 ^ k) sz = Some None"
  using assms
proof (induction "63 - k" arbitrary: k)
  case 0
  then have k: "k = 63" by simp
  with 0 have lt: "(2::64 word) ^ k < sz"
    by (simp add: word_less_nat_alt unat_two_power)
  have "push_bit 1 ((2::64 word) ^ k) = 2 ^ 64"
    using k by (simp add: push_bit_eq_mult)
  then have z: "push_bit 1 ((2::64 word) ^ k) = 0" by simp
  have "grow_bo_size (2 ^ k) sz =
        (if (2::64 word) ^ k < sz
         then (let bo_size' = push_bit 1 ((2::64 word) ^ k)
               in if bo_size' = 0 then Some None else grow_bo_size bo_size' sz)
         else Some (Some (2 ^ k)))"
    by (rule grow_bo_size.simps)
  also have "\<dots> = Some None"
    unfolding z Let_def using lt by simp
  finally show ?case .
next
  case (Suc n)
  then have k: "Suc k < 64" and n: "n = 63 - Suc k" by simp_all
  have "(2::nat) ^ k \<le> 2 ^ 63"
    using Suc.prems(1) by (intro power_increasing) simp_all
  with Suc.prems have lt: "(2::64 word) ^ k < sz"
    by (simp add: word_less_nat_alt unat_two_power)
  have nz: "(2::64 word) ^ Suc k \<noteq> 0"
    using k by (simp only: exp_eq_zero_iff) simp
  have step: "push_bit 1 ((2::64 word) ^ k) = 2 ^ Suc k"
    by (simp add: push_bit_eq_mult)
  have "grow_bo_size (2 ^ k) sz =
        (if (2::64 word) ^ k < sz
         then (let bo_size' = push_bit 1 ((2::64 word) ^ k)
               in if bo_size' = 0 then Some None else grow_bo_size bo_size' sz)
         else Some (Some (2 ^ k)))"
    by (rule grow_bo_size.simps)
  also have "\<dots> = grow_bo_size (2 ^ Suc k) sz"
    unfolding step Let_def using lt nz by (simp del: power_Suc)
  finally show ?case
    using Suc.hyps(1) [OF n k Suc.prems(2)] by simp
qed


subsection \<open>One growth\<close>

text \<open>
  The reply state that growths produce: no buffer yet, or a capacity \<open>2^k\<close> with
  \<open>20 \<le> k < 64\<close>; and no more used than there is.
\<close>

definition reply_ok :: "vn_instance \<Rightarrow> bool" where
  "reply_ok instance \<longleftrightarrow>
     (reply_size instance = 0 \<or> (\<exists>k\<in>{20..<64}. reply_size instance = 2 ^ k)) \<and>
     reply_used instance \<le> reply_size instance"

lemma min_bo_size_power: "min_bo_size = 2 ^ 20"
  by (simp add: min_bo_size_def)

lemma reply_ok_start:
  assumes ok: "reply_ok instance"
  shows "\<exists>k. 20 \<le> k \<and> k < 64 \<and>
           (if reply_size instance \<noteq> 0 then reply_size instance else min_bo_size) = 2 ^ k \<and>
           (reply_size instance = 0 \<or> reply_size instance = 2 ^ k)"
proof (cases "reply_size instance = 0")
  case True
  then show ?thesis
    by (intro exI [of _ 20]) (simp add: min_bo_size_power)
next
  case False
  with ok have "\<exists>k\<in>{20..<64}. reply_size instance = 2 ^ k"
    by (simp add: reply_ok_def)
  then obtain k where "20 \<le> k" "k < 64" "reply_size instance = 2 ^ k"
    by auto
  with False show ?thesis
    by (intro exI [of _ k]) simp
qed

lemma grow_reply_bo_false:
  assumes "vn_instance_grow_reply_bo_locked instance sz out = Inr (False, instance')"
  shows "reply_bo instance' = reply_bo instance \<and> reply_size instance' = reply_size instance \<and>
         reply_used instance' = reply_used instance \<and> reply_ptr instance' = reply_ptr instance \<and>
         ring instance' = ring instance \<and> ring_mutex instance' = ring_mutex instance \<and>
         ring_command_dropped instance' = ring_command_dropped instance"
  using assms
  by (auto simp: vn_instance_grow_reply_bo_locked_def Let_def
           split: option.splits if_splits)

lemma get_reply_bo_null:
  assumes "vn_instance_get_reply_bo_locked p instance sz out = Inr (None, ptr, instance')"
  shows "reply_used instance + sz > reply_size instance \<and>
         vn_instance_grow_reply_bo_locked instance sz (grow out) = Inr (False, instance')"
  using assms
  by (auto simp: vn_instance_get_reply_bo_locked_def Let_def
           split: sum.splits option.splits if_splits prod.splits bool.splits)

lemma grow_reply_bo_returns:
  "\<exists>r. vn_instance_grow_reply_bo_locked instance sz out = Inr r"
proof -
  obtain r where
    "grow_bo_size (if reply_size instance \<noteq> 0 then reply_size instance else min_bo_size) sz =
     Some r"
    using grow_bo_size_returns by blast
  then show ?thesis
    by (cases r) (auto simp: vn_instance_grow_reply_bo_locked_def Let_def split: option.splits)
qed

text \<open>
  A request larger than the capacity and of at most \<open>2^63\<close> bytes, when the renderer makes and
  maps the BO: the new capacity is \<open>2^j\<close>, at least the request, and it is the 1 MiB floor or
  its half is less than the request; nothing is used; the BO and its mapping are the new ones.
\<close>

lemma grow_reply_bo_grows:
  assumes ok: "reply_ok instance"
      and larger: "reply_size instance < sz"
      and fits: "unat sz \<le> 2 ^ 63"
      and create: "bo_create_result out = VK_SUCCESS"
      and mapped: "bo_map out = Some ptr"
  shows "\<exists>j instance'. 20 \<le> j \<and> j < 64 \<and>
           vn_instance_grow_reply_bo_locked instance sz out = Inr (True, instance') \<and>
           reply_size instance' = 2 ^ j \<and> unat sz \<le> 2 ^ j \<and>
           (j = 20 \<or> 2 ^ (j - 1) < unat sz) \<and>
           reply_used instance' = 0 \<and> reply_bo instance' = Some (bo_created out) \<and>
           reply_ptr instance' = ptr"
proof -
  from reply_ok_start [OF ok] obtain k where k: "20 \<le> k" "k < 64"
    and start: "(if reply_size instance \<noteq> 0 then reply_size instance else min_bo_size) = 2 ^ k"
    and below: "reply_size instance = 0 \<or> reply_size instance = 2 ^ k"
    by blast
  from grow_bo_size_power [OF k(2) fits] obtain j where
    j: "k \<le> j" "j < 64" "grow_bo_size (2 ^ k) sz = Some (Some (2 ^ j))"
       "unat sz \<le> 2 ^ j" "j = k \<or> 2 ^ (j - 1) < unat sz"
    by blast
  have first: "j = 20 \<or> 2 ^ (j - 1) < unat sz"
  proof (cases "reply_size instance = 0")
    case True
    with start have "k = 20 \<or> (2::64 word) ^ k = 2 ^ 20"
      by (simp add: min_bo_size_power)
    moreover have "(2::64 word) ^ k = 2 ^ 20 \<Longrightarrow> k = 20"
    proof -
      assume "(2::64 word) ^ k = 2 ^ 20"
      then have "unat ((2::64 word) ^ k) = unat ((2::64 word) ^ 20)"
        by (rule arg_cong)
      moreover have "unat ((2::64 word) ^ k) = 2 ^ k"
        using k(2) by (rule unat_two_power)
      moreover have "unat ((2::64 word) ^ 20) = 2 ^ 20"
        by (rule unat_two_power) simp
      ultimately have "(2::nat) ^ k = 2 ^ 20"
        by (simp only:)
      then show "k = 20"
        using power_inject_exp [of "2::nat" k 20] by simp
    qed
    ultimately have "k = 20" by blast
    with j(5) show ?thesis by blast
  next
    case False
    with below have "reply_size instance = 2 ^ k" by simp
    with larger k(2) have "2 ^ k < unat sz"
      by (simp add: word_less_nat_alt unat_two_power)
    with j(4) have "(2::nat) ^ k < 2 ^ j"
      by (rule less_le_trans [rotated])
    then have "k < j"
      using power_strict_increasing_iff [of "2::nat" k j] by simp
    with j(5) show ?thesis by simp
  qed
  from start j(3) create mapped
  have "\<exists>instance'. vn_instance_grow_reply_bo_locked instance sz out = Inr (True, instance') \<and>
          reply_size instance' = 2 ^ j \<and> reply_used instance' = 0 \<and>
          reply_bo instance' = Some (bo_created out) \<and> reply_ptr instance' = ptr"
    by (simp add: vn_instance_grow_reply_bo_locked_def Let_def)
  with k(1) j(1,2,4) first show ?thesis
    by (intro exI [of _ j]) auto
qed

text \<open>
  The growth returns false when doubling overflows, when the renderer makes no BO, and when
  the BO cannot be mapped; and whenever it returns false, the reply BO, its capacity, the used
  count and the mapping are what they were (lemma \<open>grow_reply_bo_false\<close> above).
\<close>

lemma grow_reply_bo_overflow:
  assumes ok: "reply_ok instance" and huge: "2 ^ 63 < unat sz"
  shows "vn_instance_grow_reply_bo_locked instance sz out = Inr (False, instance)"
proof -
  from reply_ok_start [OF ok] obtain k where k: "k < 64"
    and start: "(if reply_size instance \<noteq> 0 then reply_size instance else min_bo_size) = 2 ^ k"
    by blast
  from grow_bo_size_overflow [OF k huge] start show ?thesis
    by (simp add: vn_instance_grow_reply_bo_locked_def)
qed

lemma grow_reply_bo_no_bo:
  assumes "bo_create_result out \<noteq> VK_SUCCESS \<or> bo_map out = None"
  shows "\<exists>instance'. vn_instance_grow_reply_bo_locked instance sz out = Inr (False, instance')"
proof -
  obtain r where
    "grow_bo_size (if reply_size instance \<noteq> 0 then reply_size instance else min_bo_size) sz =
     Some r"
    using grow_bo_size_returns by blast
  with assms show ?thesis
    by (cases r) (auto simp: vn_instance_grow_reply_bo_locked_def Let_def)
qed

subsection \<open>The request that starts a growth\<close>

text \<open>
  \<^verbatim>\<open>vn_instance_get_reply_bo_locked\<close> grows the buffer when \<^verbatim>\<open>reply.used + size > reply.size\<close>, a
  sum in \<^verbatim>\<open>size_t\<close>.  A request larger than the capacity and of at most \<open>2^63\<close> bytes passes
  that test.
\<close>

lemma reply_request_starts_growth:
  assumes ok: "reply_ok instance"
      and larger: "reply_size instance < sz"
      and fits: "unat sz \<le> 2 ^ 63"
  shows "reply_used instance + sz > reply_size instance"
proof -
  from ok have "unat (reply_used instance) \<le> unat (reply_size instance)"
    by (simp add: reply_ok_def word_le_nat_alt)
  moreover from larger have lt: "unat (reply_size instance) < unat sz"
    by (simp add: word_less_nat_alt)
  ultimately have "unat (reply_used instance) + unat sz < 2 ^ 64"
    using fits by simp
  then have "unat (reply_used instance + sz) = unat (reply_used instance) + unat sz"
    by (simp add: unat_add_lem [THEN iffD1])
  with lt show ?thesis
    by (simp add: word_less_nat_alt)
qed


subsection \<open>A request whose sum with the used count wraps around\<close>

definition every_allocation :: submit_outcome where
  "every_allocation =
     \<lparr>descs_alloc = True, exec_alloc = True, ring_get_submit = True,
      upload_reserve = Some (700, 0, 5), notify = True, extra_loads = (\<lambda>n. 5)\<rparr>"

definition good_reply_outcome :: reply_outcome where
  "good_reply_outcome =
     \<lparr>grow = \<lparr>bo_create_result = VK_SUCCESS, bo_created = 800, bo_map = Some 4096\<rparr>,
      roundtrip_result = VK_SUCCESS, roundtrip_loads = (\<lambda>n. 10),
      set_reply_submit = every_allocation, seek_submit = every_allocation\<rparr>"

text \<open>
  The instance after a first request of \<open>2^20\<close> bytes: a reply buffer of 1 MiB, all of it used.
\<close>

definition full_instance :: vn_instance where
  "full_instance =
     \<lparr>ring = \<lparr>ring_data = [4, 32, 5, 0], ring_cur = 4, ring_submits = [(2, []), (4, [])]\<rparr>,
      ring_mutex = False,
      ring_upload = \<lparr>buffers = [], indirect = True, current_buffer_roundtrip = 0\<rparr>,
      ring_command_dropped = 0,
      reply_bo = Some 800, reply_size = 2 ^ 20, reply_used = 2 ^ 20, reply_ptr = 4096,
      roundtrip_next = 11,
      bo_refs = (\<lambda>b. 0)(800 := 2),
      renderer_calls = [Bo_create_cpu (2 ^ 20) 800, WriteRingExtra 10, NotifyRing 2,
                        NotifyRing 4]\<rparr>"

text \<open>A request of \<open>2^64 - 2^20\<close> bytes, and the instance after it.\<close>

definition huge_request :: size_t where
  "huge_request = 0xFFFFFFFFFFF00000"

definition wrapped_instance :: vn_instance where
  "wrapped_instance =
     \<lparr>ring = \<lparr>ring_data = [4, 32, 5, 0, 5, 0], ring_cur = 6,
              ring_submits = [(2, []), (4, []), (6, [])]\<rparr>,
      ring_mutex = False,
      ring_upload = \<lparr>buffers = [], indirect = True, current_buffer_roundtrip = 0\<rparr>,
      ring_command_dropped = 0,
      reply_bo = Some 800, reply_size = 2 ^ 20, reply_used = 0, reply_ptr = 4096,
      roundtrip_next = 11,
      bo_refs = (\<lambda>b. 0)(800 := 3),
      renderer_calls = [Bo_create_cpu (2 ^ 20) 800, WriteRingExtra 10, NotifyRing 2,
                        NotifyRing 4, NotifyRing 6]\<rparr>"

lemma control_call_submit:
  "vn_instance_ring_submit_locked p instance (vn_cs_encoder_commit (local_enc [x, y])) None
     every_allocation =
   Inr (VK_SUCCESS, Some (ring_cur (ring instance) + 2),
        instance\<lparr>ring := \<lparr>ring_data = ring_data (ring instance) @ [x, y],
                          ring_cur = ring_cur (ring instance) + 2,
                          ring_submits = ring_submits (ring instance) @
                            [(ring_cur (ring instance) + 2, [])]\<rparr>,
                 bo_refs := bo_refs instance,
                 renderer_calls := renderer_calls instance @
                   [NotifyRing (ring_cur (ring instance) + 2)]\<rparr>)"
  by (simp add: vn_instance_ring_submit_locked_def vn_instance_submission_can_direct_def
      vn_cs_encoder_commit_def local_enc_def vn_cs_encoder_get_len_def total_committed_size_def
      vn_instance_submission_prepare_def vn_instance_submission_direct_cs_def
      vn_instance_submission_get_ring_submit_def every_allocation_def vn_ring_submit_def
      Let_def)

lemma first_request:
  "vn_instance_get_reply_bo_locked example_protocol example_instance (2 ^ 20)
     good_reply_outcome = Inr (Some 800, Some 4096, full_instance)"
proof -
  have loop: "grow_bo_size min_bo_size 1048576 = Some (Some 1048576)"
    by (subst grow_bo_size.simps) (simp add: min_bo_size_def)
  have grown: "vn_instance_grow_reply_bo_locked example_instance (2 ^ 20)
                 (grow good_reply_outcome) =
               Inr (True, example_instance\<lparr>
                 renderer_calls := [Bo_create_cpu (2 ^ 20) 800],
                 bo_refs := (\<lambda>b. 0)(800 := 1),
                 reply_bo := Some 800, reply_size := 2 ^ 20, reply_used := 0,
                 reply_ptr := 4096\<rparr>)"
    by (simp add: vn_instance_grow_reply_bo_locked_def loop example_instance_def
        good_reply_outcome_def Let_def)
  have two: "Suc (Suc 0) = 2"
    by simp
  have trip: "vn_instance_wait_roundtrip (\<lambda>n. 10) 10 0 = Some 0"
    by (simp add: vn_instance_wait_roundtrip.simps roundtrip_reached_def)
  show ?thesis
    unfolding vn_instance_get_reply_bo_locked_def grown
    by (simp add: example_instance_def good_reply_outcome_def example_protocol_def
        vn_instance_roundtrip_def vn_instance_submit_roundtrip_def trip control_call_submit
        full_instance_def vn_renderer_bo_ref_def Let_def two)
qed

text \<open>
  C5, at a request that it covers and the code treats otherwise. After a first request
  of \<open>2^20\<close> bytes the buffer has 1 MiB, all used.  The second request asks for
  \<open>2^64 - 2^20\<close> bytes: above the capacity, and above \<open>2^63\<close>, so a growth would return false
  (lemma \<open>grow_reply_bo_overflow\<close>).  But \<^verbatim>\<open>reply.used + size\<close> is \<open>2^20 + (2^64 - 2^20)\<close>, zero
  in \<^verbatim>\<open>size_t\<close>, so the function does not grow the buffer: the renderer is asked for no BO, the
  1 MiB buffer is returned with the address of its end, and the used count becomes zero.
\<close>

theorem reply_request_wraps:
  "vn_instance_get_reply_bo_locked example_protocol example_instance (2 ^ 20)
     good_reply_outcome = Inr (Some 800, Some 4096, full_instance) \<and>
   reply_ok full_instance \<and>
   reply_size full_instance = 2 ^ 20 \<and>
   reply_size full_instance < huge_request \<and>
   reply_used full_instance + huge_request = 0 \<and>
   vn_instance_grow_reply_bo_locked full_instance huge_request (grow good_reply_outcome) =
     Inr (False, full_instance) \<and>
   vn_instance_get_reply_bo_locked example_protocol full_instance huge_request
     good_reply_outcome = Inr (Some 800, Some (4096 + 2 ^ 20), wrapped_instance) \<and>
   reply_size wrapped_instance = 2 ^ 20 \<and>
   reply_used wrapped_instance = 0 \<and>
   renderer_calls wrapped_instance = renderer_calls full_instance @ [NotifyRing 6]"
proof -
  have "\<exists>k\<in>{20..<64}. reply_size full_instance = 2 ^ k"
    by (intro bexI [of _ 20]) (simp_all add: full_instance_def)
  then have ok: "reply_ok full_instance"
    unfolding reply_ok_def by (simp add: full_instance_def)
  have huge: "2 ^ 63 < unat huge_request"
    by (simp add: huge_request_def)
  have second: "vn_instance_get_reply_bo_locked example_protocol full_instance huge_request
                  good_reply_outcome = Inr (Some 800, Some (4096 + 2 ^ 20), wrapped_instance)"
    unfolding vn_instance_get_reply_bo_locked_def
    by (simp add: full_instance_def huge_request_def good_reply_outcome_def
        example_protocol_def control_call_submit wrapped_instance_def vn_renderer_bo_ref_def
        Let_def)
  have rest: "reply_size full_instance = 2 ^ 20"
    "reply_size full_instance < huge_request"
    "reply_used full_instance + huge_request = 0"
    "reply_size wrapped_instance = 2 ^ 20"
    "reply_used wrapped_instance = 0"
    "renderer_calls wrapped_instance = renderer_calls full_instance @ [NotifyRing 6]"
    by (simp_all add: full_instance_def wrapped_instance_def huge_request_def)
  from first_request ok grow_reply_bo_overflow [OF ok huge] second rest show ?thesis
    by simp
qed


section \<open>Dropped commands\<close>

lemma get_reply_bo_fails:
  assumes "reply_used instance + sz > reply_size instance"
      and "vn_instance_grow_reply_bo_locked instance sz (grow out) = Inr (False, instance')"
  shows "vn_instance_get_reply_bo_locked p instance sz out = Inr (None, None, instance')"
  using assms by (simp add: vn_instance_get_reply_bo_locked_def)

text \<open>
  C10. When \<^verbatim>\<open>vn_instance_submit_command\<close> is called, the ring mutex being free, with an
  empty command encoder, or with a reply size for which \<^verbatim>\<open>vn_instance_get_reply_bo_locked\<close>
  returns \<^verbatim>\<open>NULL\<close>, the call returns with \<^verbatim>\<open>submit->reply_bo\<close> \<^verbatim>\<open>NULL\<close>, the ring as it was, the
  mutex released and \<^verbatim>\<open>command_dropped\<close> one more than before.
\<close>

theorem submit_command_dropped:
  assumes "\<not> ring_mutex instance"
      and "vn_cs_encoder_is_empty (command sub) \<or>
           (cmd_reply_size sub \<noteq> 0 \<and>
            (\<exists>ptr instance1.
               vn_instance_get_reply_bo_locked p (instance\<lparr>ring_mutex := True\<rparr>)
                 (cmd_reply_size sub) rout = Inr (None, ptr, instance1)))"
  shows "\<exists>sub' instance'.
           vn_instance_submit_command p instance sub rout out = Inr (sub', instance') \<and>
           cmd_reply_bo sub' = None \<and>
           ring instance' = ring instance \<and>
           \<not> ring_mutex instance' \<and>
           ring_command_dropped instance' = ring_command_dropped instance + 1"
proof (cases "vn_cs_encoder_is_empty (command sub)")
  case True
  with assms(1) show ?thesis
    by (simp add: vn_instance_submit_command_def Let_def)
next
  case False
  with assms(2) obtain ptr instance1 where
    size: "cmd_reply_size sub \<noteq> 0" and
    get: "vn_instance_get_reply_bo_locked p (instance\<lparr>ring_mutex := True\<rparr>)
            (cmd_reply_size sub) rout = Inr (None, ptr, instance1)"
    by blast
  from get_reply_bo_null [OF get]
  have "vn_instance_grow_reply_bo_locked (instance\<lparr>ring_mutex := True\<rparr>) (cmd_reply_size sub)
          (grow rout) = Inr (False, instance1)"
    by simp
  from grow_reply_bo_false [OF this]
  have frame: "ring instance1 = ring instance"
    "ring_command_dropped instance1 = ring_command_dropped instance"
    by simp_all
  from assms(1) False size get frame show ?thesis
    by (simp add: vn_instance_submit_command_def Let_def)
qed

subsection \<open>Two dropped commands\<close>

text \<open>
  A command with nothing written, and a command that wants a reply of more than \<open>2^63\<close> bytes,
  for which there is no size to double to.
\<close>

definition empty_command :: vn_instance_submit_command where
  "empty_command =
     \<lparr>command = local_enc [], cmd_reply_size = 0, cmd_reply_bo = Some 9, cmd_reply = None\<rparr>"

definition greedy_command :: vn_instance_submit_command where
  "greedy_command =
     \<lparr>command = local_enc [1, 2, 3], cmd_reply_size = 0x8000000000000001,
      cmd_reply_bo = Some 9, cmd_reply = None\<rparr>"

lemma greedy_command_no_reply:
  "vn_instance_get_reply_bo_locked example_protocol (example_instance\<lparr>ring_mutex := True\<rparr>)
     (cmd_reply_size greedy_command) good_reply_outcome =
   Inr (None, None, example_instance\<lparr>ring_mutex := True\<rparr>)"
proof -
  have ok: "reply_ok (example_instance\<lparr>ring_mutex := True\<rparr>)"
    by (simp add: reply_ok_def example_instance_def)
  have huge: "2 ^ 63 < unat (cmd_reply_size greedy_command)"
    by (simp add: greedy_command_def)
  have "reply_used (example_instance\<lparr>ring_mutex := True\<rparr>) + cmd_reply_size greedy_command
        > reply_size (example_instance\<lparr>ring_mutex := True\<rparr>)"
    by (simp add: example_instance_def greedy_command_def)
  with grow_reply_bo_overflow [OF ok huge] show ?thesis
    by (simp add: vn_instance_get_reply_bo_locked_def)
qed

theorem submit_command_dropped_witness:
  "vn_instance_submit_command example_protocol example_instance empty_command
     good_reply_outcome every_allocation =
   Inr (empty_command\<lparr>cmd_reply_bo := None\<rparr>,
        example_instance\<lparr>ring_command_dropped := 1\<rparr>) \<and>
   vn_instance_submit_command example_protocol example_instance greedy_command
     good_reply_outcome every_allocation =
   Inr (greedy_command\<lparr>command := vn_cs_encoder_commit (command greedy_command),
                       cmd_reply_bo := None\<rparr>,
        example_instance\<lparr>ring_command_dropped := 1\<rparr>) \<and>
   \<not> ring_mutex example_instance \<and>
   vn_cs_encoder_is_empty (command empty_command) \<and>
   \<not> vn_cs_encoder_is_empty (command greedy_command) \<and>
   cmd_reply_size greedy_command \<noteq> 0 \<and>
   ring_command_dropped example_instance + 1 = 1"
proof -
  have free: "\<not> ring_mutex example_instance"
    by (simp add: example_instance_def)
  have empty: "vn_cs_encoder_is_empty (command empty_command)"
    by (simp add: vn_cs_encoder_is_empty_def empty_command_def local_enc_def)
  have written: "\<not> vn_cs_encoder_is_empty (command greedy_command)"
    by (simp add: vn_cs_encoder_is_empty_def greedy_command_def local_enc_def)
  have wants: "cmd_reply_size greedy_command \<noteq> 0"
    by (simp add: greedy_command_def)
  have run_empty: "vn_instance_submit_command example_protocol example_instance empty_command
               good_reply_outcome every_allocation =
             Inr (empty_command\<lparr>cmd_reply_bo := None\<rparr>,
                  example_instance\<lparr>ring_command_dropped := 1\<rparr>)"
    using empty
    by (simp add: vn_instance_submit_command_def Let_def example_instance_def empty_command_def)
  have run_greedy: "vn_instance_submit_command example_protocol example_instance greedy_command
               good_reply_outcome every_allocation =
             Inr (greedy_command\<lparr>command := vn_cs_encoder_commit (command greedy_command),
                                 cmd_reply_bo := None\<rparr>,
                  example_instance\<lparr>ring_command_dropped := 1\<rparr>)"
    using written wants greedy_command_no_reply free
    by (simp add: vn_instance_submit_command_def Let_def)
      (simp add: example_instance_def)
  from submit_command_dropped [of example_instance empty_command example_protocol
      good_reply_outcome every_allocation] free empty
  obtain sub' instance' where
    "vn_instance_submit_command example_protocol example_instance empty_command
       good_reply_outcome every_allocation = Inr (sub', instance')"
    "ring_command_dropped instance' = ring_command_dropped example_instance + 1"
    by blast
  with run_empty have one: "ring_command_dropped example_instance + 1 = 1"
    by simp
  from submit_command_dropped [of example_instance greedy_command example_protocol
      good_reply_outcome every_allocation] free wants greedy_command_no_reply
  obtain sub'' instance'' where
    "vn_instance_submit_command example_protocol example_instance greedy_command
       good_reply_outcome every_allocation = Inr (sub'', instance'')"
    "cmd_reply_bo sub'' = None" "\<not> ring_mutex instance''"
    by blast
  with run_empty run_greedy free empty written wants one show ?thesis
    by simp
qed

end
